(* ===== verification/Prelude.thy ===== *)
theory Prelude
  imports Complex_Main "HOL-Library.Word" "HOL-Library.AList"
begin

text \<open>
  The shared vocabulary of the development: machine integers and byte strings, the
  outcome of a fallible Rust call (a value, an error, or a panic), the part of the Rust
  string library the crate uses (\<open>find\<close>, \<open>split\<close>, \<open>rfind\<close>, \<open>starts_with\<close>,
  \<open>ends_with\<close>, \<open>contains\<close>, \<open>trim_end_matches\<close>, \<open>to_lowercase\<close>, decimal
  formatting, UTF-8 validation), and a state-passing program type with the rules that the
  component proofs use.

  A Rust \<open>String\<close> or \<open>&str\<close> is its UTF-8 encoding: a \<^typ>\<open>string\<close> whose characters
  are the bytes. \<open>len\<close> is therefore \<^const>\<open>length\<close>, and searching for an ASCII pattern is
  a search over bytes, as in Rust.
\<close>

named_theorems str_simps \<open>equations of the string library\<close>

section \<open>Types\<close>

type_synonym u8 = "8 word"
type_synonym u16 = "16 word"
type_synonym u32 = "32 word"
type_synonym bytes = "u8 list"

text \<open>An \<open>Instant\<close> is a number of nanoseconds on the monotonic clock.\<close>

type_synonym instant = int

definition secs :: "int \<Rightarrow> int" where
  "secs n = n * 1000000000"

text \<open>The outcome of a Rust call: \<open>Ok\<close>, \<open>Err\<close>, or a panic that unwinds the task.\<close>

datatype ('e, 'a) outcome = Ok 'a | Err 'e | Panic string

fun map_err :: "('e \<Rightarrow> 'f) \<Rightarrow> ('e, 'a) outcome \<Rightarrow> ('f, 'a) outcome" where
  "map_err f (Ok x) = Ok x"
| "map_err f (Err e) = Err (f e)"
| "map_err f (Panic p) = Panic p"

fun bind_ok :: "('e, 'a) outcome \<Rightarrow> ('a \<Rightarrow> ('e, 'b) outcome) \<Rightarrow> ('e, 'b) outcome" where
  "bind_ok (Ok x) f = f x"
| "bind_ok (Err e) f = Err e"
| "bind_ok (Panic p) f = Panic p"

definition of_sum :: "('f \<Rightarrow> 'e) \<Rightarrow> 'f + 'a \<Rightarrow> ('e, 'a) outcome" where
  "of_sum f r = (case r of Inl e \<Rightarrow> Err (f e) | Inr x \<Rightarrow> Ok x)"

definition of_opt :: "'e \<Rightarrow> 'a option \<Rightarrow> ('e, 'a) outcome" where
  "of_opt e r = (case r of None \<Rightarrow> Err e | Some x \<Rightarrow> Ok x)"

fun is_ok :: "('e, 'a) outcome \<Rightarrow> bool" where
  "is_ok (Ok x) = True"
| "is_ok (Err e) = False"
| "is_ok (Panic p) = False"

fun is_panic :: "('e, 'a) outcome \<Rightarrow> bool" where
  "is_panic (Panic p) = True"
| "is_panic (Ok x) = False"
| "is_panic (Err e) = False"

lemma of_sum_simps [simp]: "of_sum f (Inl e) = Err (f e)" "of_sum f (Inr x) = Ok x"
  by (simp_all add: of_sum_def)

lemma of_opt_simps [simp]: "of_opt e None = Err e" "of_opt e (Some x) = Ok x"
  by (simp_all add: of_opt_def)

lemma of_sum_eq_Ok [simp]: "of_sum f r = Ok x \<longleftrightarrow> r = Inr x"
  by (cases r) simp_all

lemma of_opt_eq_Ok [simp]: "of_opt e r = Ok x \<longleftrightarrow> r = Some x"
  by (cases r) simp_all

lemma of_sum_not_Panic [simp]: "of_sum f r \<noteq> Panic p" "\<not> is_panic (of_sum f r)"
  by (cases r; simp)+

lemma of_opt_not_Panic [simp]: "of_opt e r \<noteq> Panic p" "\<not> is_panic (of_opt e r)"
  by (cases r; simp)+

lemma bind_ok_eq_Ok: "bind_ok r f = Ok y \<longleftrightarrow> (\<exists>x. r = Ok x \<and> f x = Ok y)"
  by (cases r) simp_all

lemma is_panic_bind_ok: "is_panic (bind_ok r f) \<longleftrightarrow> is_panic r \<or> (\<exists>x. r = Ok x \<and> is_panic (f x))"
  by (cases r) simp_all

lemma map_err_eq_Ok [simp]: "map_err f r = Ok x \<longleftrightarrow> r = Ok x"
  by (cases r) simp_all

lemma is_panic_map_err [simp]: "is_panic (map_err f r) = is_panic r"
  by (cases r) simp_all

section \<open>Strings\<close>

definition starts_with :: "string \<Rightarrow> string \<Rightarrow> bool" where
  "starts_with p s \<longleftrightarrow> take (length p) s = p"

definition ends_with :: "string \<Rightarrow> string \<Rightarrow> bool" where
  "ends_with p s \<longleftrightarrow> length p \<le> length s \<and> drop (length s - length p) s = p"

text \<open>\<open>str::find(&str)\<close>: the byte offset of the first occurrence.\<close>

fun find_sub :: "string \<Rightarrow> string \<Rightarrow> nat option" where
  "find_sub p [] = (if p = [] then Some 0 else None)"
| "find_sub p (c # cs) =
     (if starts_with p (c # cs) then Some 0 else map_option Suc (find_sub p cs))"

definition str_contains :: "string \<Rightarrow> string \<Rightarrow> bool" where
  "str_contains p s \<longleftrightarrow> find_sub p s \<noteq> None"

text \<open>\<open>str::split(char)\<close>: the pieces between occurrences, never an empty list.\<close>

fun split_on :: "char \<Rightarrow> string \<Rightarrow> string list" where
  "split_on d [] = [[]]"
| "split_on d (c # cs) =
     (if c = d then [] # split_on d cs
      else (case split_on d cs of [] \<Rightarrow> [[c]] | p # ps \<Rightarrow> (c # p) # ps))"

text \<open>\<open>str::rfind(char)\<close>: the byte offset of the last occurrence.\<close>

fun rfind :: "char \<Rightarrow> string \<Rightarrow> nat option" where
  "rfind d [] = None"
| "rfind d (c # cs) =
     (case rfind d cs of Some n \<Rightarrow> Some (Suc n) | None \<Rightarrow> if c = d then Some 0 else None)"

definition trim_end_matches :: "char \<Rightarrow> string \<Rightarrow> string" where
  "trim_end_matches d s = rev (dropWhile (\<lambda>c. c = d) (rev s))"

text \<open>\<open>rsplit(char).next()\<close>: what follows the last separator, the whole string without one.\<close>

definition after_last :: "char \<Rightarrow> string \<Rightarrow> string" where
  "after_last d s = (case rfind d s of None \<Rightarrow> s | Some n \<Rightarrow> drop (n + 1) s)"

text \<open>\<open>{}\<close> formatting of an unsigned integer.\<close>

fun show_nat :: "nat \<Rightarrow> string" where
  "show_nat n =
     (if n < 10 then [char_of (48 + n)] else show_nat (n div 10) @ [char_of (48 + n mod 10)])"

declare show_nat.simps [simp del]

lemma starts_with_iff: "starts_with p s \<longleftrightarrow> (\<exists>t. s = p @ t)"
  unfolding starts_with_def by (metis append_eq_conv_conj append_take_drop_id)

lemma starts_with_append [simp, str_simps]: "starts_with p (p @ t)"
  by (auto simp: starts_with_iff)

lemma ends_with_iff: "ends_with p s \<longleftrightarrow> (\<exists>t. s = t @ p)"
proof
  assume "ends_with p s"
  then have "s = take (length s - length p) s @ p"
    unfolding ends_with_def by (metis append_take_drop_id)
  then show "\<exists>t. s = t @ p" ..
qed (auto simp: ends_with_def)

lemma ends_with_append [simp, str_simps]: "ends_with p (t @ p)"
  by (auto simp: ends_with_iff)

lemma find_sub_Some: "find_sub p s = Some n \<Longrightarrow> n \<le> length s \<and> starts_with p (drop n s)"
proof (induction p s arbitrary: n rule: find_sub.induct)
  case (1 p)
  then show ?case by (simp add: starts_with_def split: if_splits)
next
  case (2 p c cs)
  then show ?case by (auto split: if_splits)
qed

lemma find_sub_split: "find_sub p s = Some n \<Longrightarrow> s = take n s @ p @ drop (n + length p) s"
proof -
  assume "find_sub p s = Some n"
  then have "starts_with p (drop n s)" by (simp add: find_sub_Some)
  then obtain t where t: "drop n s = p @ t" by (auto simp: starts_with_iff)
  have "drop (n + length p) s = drop (length p) (drop n s)" by (simp add: add.commute)
  with t have "drop (n + length p) s = t" by simp
  with t show ?thesis by (metis append_take_drop_id)
qed

lemma find_sub_first: "find_sub p s = Some n \<Longrightarrow> m < n \<Longrightarrow> \<not> starts_with p (drop m s)"
proof (induction p s arbitrary: n m rule: find_sub.induct)
  case (1 p)
  then show ?case by (simp split: if_splits)
next
  case (2 p c cs)
  then show ?case by (cases m) (auto split: if_splits)
qed

lemma find_sub_exists: "starts_with p (drop m s) \<Longrightarrow> m \<le> length s \<Longrightarrow> \<exists>n. find_sub p s = Some n \<and> n \<le> m"
proof (induction p s arbitrary: m rule: find_sub.induct)
  case (1 p)
  then show ?case by (simp add: starts_with_def)
next
  case (2 p c cs)
  show ?case
  proof (cases "starts_with p (c # cs)")
    case False
    with "2.prems" obtain k where k: "m = Suc k" by (cases m) auto
    with 2 False obtain n where "find_sub p cs = Some n" "n \<le> k" by auto
    with False k show ?thesis by simp
  qed simp
qed

lemma str_contains_iff: "str_contains p s \<longleftrightarrow> (\<exists>a b. s = a @ p @ b)"
proof
  assume "str_contains p s"
  then show "\<exists>a b. s = a @ p @ b" unfolding str_contains_def using find_sub_split by blast
next
  assume "\<exists>a b. s = a @ p @ b"
  then obtain a b where "s = a @ p @ b" by blast
  then have "starts_with p (drop (length a) s)" "length a \<le> length s" by auto
  from find_sub_exists [OF this] show "str_contains p s" by (auto simp: str_contains_def)
qed

lemma split_on_nonempty [simp]: "split_on d s \<noteq> []"
  by (induction s) (auto split: list.splits)

lemma split_on_absent: "d \<notin> set s \<Longrightarrow> split_on d s = [s]"
  by (induction s) auto

lemma split_on_cons: "d \<notin> set a \<Longrightarrow> split_on d (a @ d # b) = a # split_on d b"
  by (induction a) auto

lemma split_on_hd_absent: "d \<notin> set (hd (split_on d s))"
  by (induction s) (auto split: list.splits)

lemma split_on_hd: "\<exists>r. s = hd (split_on d s) @ r \<and> (r = [] \<or> hd r = d)"
proof (induction s)
  case (Cons c cs)
  then obtain r where "cs = hd (split_on d cs) @ r" "r = [] \<or> hd r = d" by blast
  then show ?case by (auto split: list.splits)
qed simp

lemma length_split_on: "length (split_on d s) = Suc (count_list s d)"
  by (induction s) (auto split: list.splits)

lemma takeWhile_until:
  "\<forall>c \<in> set a. P c \<Longrightarrow> b = [] \<or> \<not> P (hd b) \<Longrightarrow> takeWhile P (a @ b) = a"
  by (cases b) (simp_all add: takeWhile_append2 takeWhile_tail)

lemma rfind_absent: "d \<notin> set s \<Longrightarrow> rfind d s = None"
  by (induction s) auto

lemma rfind_None_iff: "rfind d s = None \<longleftrightarrow> d \<notin> set s"
  by (induction s) (auto split: option.splits)

lemma rfind_last: "d \<notin> set b \<Longrightarrow> rfind d (a @ d # b) = Some (length a)"
  by (induction a) (auto simp: rfind_absent)

lemma after_last_append: "d \<notin> set b \<Longrightarrow> after_last d (a @ d # b) = b"
  by (simp add: after_last_def rfind_last)

lemma after_last_absent_sep: "d \<notin> set (after_last d s)"
proof (induction s)
  case (Cons c cs)
  then show ?case
    by (cases "rfind d cs") (auto simp: after_last_def rfind_absent rfind_None_iff)
qed (simp add: after_last_def)

lemma trim_end_matches_prefix: "\<exists>n. s = trim_end_matches d s @ replicate n d"
proof -
  have "takeWhile (\<lambda>c. c = d) (rev s) = replicate (length (takeWhile (\<lambda>c. c = d) (rev s))) d"
    by (rule replicate_length_same [symmetric]) (auto dest: set_takeWhileD)
  moreover have "rev s = takeWhile (\<lambda>c. c = d) (rev s) @ dropWhile (\<lambda>c. c = d) (rev s)"
    by simp
  ultimately show ?thesis
    unfolding trim_end_matches_def by (metis rev_append rev_replicate rev_rev_ident)
qed

section \<open>Bytes and UTF-8\<close>

definition as_bytes :: "string \<Rightarrow> bytes" where
  "as_bytes s = map (\<lambda>c. word_of_nat (of_char c)) s"

definition of_bytes :: "bytes \<Rightarrow> string" where
  "of_bytes bs = map (\<lambda>b. char_of (unat b)) bs"

text \<open>
  \<open>String::from_utf8\<close> accepts a byte sequence when every leading byte is followed by the
  continuation bytes it announces, each in the range of the Unicode standard's table of
  well-formed sequences. \<open>utf8_follow\<close> gives those ranges for a leading byte.
\<close>

definition utf8_follow :: "u8 \<Rightarrow> (u8 \<times> u8) list option" where
  "utf8_follow b =
     (if b < 0x80 then Some []
      else if 0xC2 \<le> b \<and> b \<le> 0xDF then Some [(0x80, 0xBF)]
      else if b = 0xE0 then Some [(0xA0, 0xBF), (0x80, 0xBF)]
      else if b = 0xED then Some [(0x80, 0x9F), (0x80, 0xBF)]
      else if 0xE1 \<le> b \<and> b \<le> 0xEF then Some [(0x80, 0xBF), (0x80, 0xBF)]
      else if b = 0xF0 then Some [(0x90, 0xBF), (0x80, 0xBF), (0x80, 0xBF)]
      else if 0xF1 \<le> b \<and> b \<le> 0xF3 then Some [(0x80, 0xBF), (0x80, 0xBF), (0x80, 0xBF)]
      else if b = 0xF4 then Some [(0x80, 0x8F), (0x80, 0xBF), (0x80, 0xBF)]
      else None)"

fun utf8_run :: "(u8 \<times> u8) list \<Rightarrow> bytes \<Rightarrow> bool" where
  "utf8_run st [] \<longleftrightarrow> st = []"
| "utf8_run ((lo, hi) # st) (b # bs) \<longleftrightarrow> lo \<le> b \<and> b \<le> hi \<and> utf8_run st bs"
| "utf8_run [] (b # bs) \<longleftrightarrow>
     (case utf8_follow b of None \<Rightarrow> False | Some st \<Rightarrow> utf8_run st bs)"

definition utf8_valid :: "bytes \<Rightarrow> bool" where
  "utf8_valid bs \<longleftrightarrow> utf8_run [] bs"

text \<open>
  The \<open>Display\<close> text of \<open>Utf8Error\<close>: \<open>i\<close> is where the current sequence starts, \<open>k\<close> how many of
  its bytes were accepted.
\<close>

fun utf8_error :: "(u8 \<times> u8) list \<Rightarrow> nat \<Rightarrow> nat \<Rightarrow> bytes \<Rightarrow> string" where
  "utf8_error st i k [] = ''incomplete utf-8 byte sequence from index '' @ show_nat i"
| "utf8_error [] i k (b # bs) =
     (case utf8_follow b of
        None \<Rightarrow> ''invalid utf-8 sequence of 1 bytes from index '' @ show_nat i
      | Some [] \<Rightarrow> utf8_error [] (i + 1) 0 bs
      | Some (r # st) \<Rightarrow> utf8_error (r # st) i 1 bs)"
| "utf8_error (r # st) i k (b # bs) =
     (if fst r \<le> b \<and> b \<le> snd r
      then (if st = [] then utf8_error [] (i + k + 1) 0 bs else utf8_error st i (k + 1) bs)
      else ''invalid utf-8 sequence of '' @ show_nat k @ '' bytes from index '' @ show_nat i)"

definition from_utf8 :: "bytes \<Rightarrow> string + string" where
  "from_utf8 bs = (if utf8_valid bs then Inr (of_bytes bs) else Inl (utf8_error [] 0 0 bs))"

text \<open>
  \<open>String::from_utf8_lossy\<close>: each maximal ill-formed part becomes one U+FFFD. \<open>cur\<close> holds the
  bytes of the sequence being read.
\<close>

definition replacement :: bytes where
  "replacement = [0xEF, 0xBF, 0xBD]"

function lossy :: "(u8 \<times> u8) list \<Rightarrow> bytes \<Rightarrow> bytes \<Rightarrow> bytes" where
  "lossy [] cur [] = []"
| "lossy (r # st) cur [] = replacement"
| "lossy [] cur (b # bs) =
     (case utf8_follow b of
        None \<Rightarrow> replacement @ lossy [] [] bs
      | Some [] \<Rightarrow> b # lossy [] [] bs
      | Some (r # st) \<Rightarrow> lossy (r # st) [b] bs)"
| "lossy (r # st) cur (b # bs) =
     (if fst r \<le> b \<and> b \<le> snd r
      then (case st of [] \<Rightarrow> cur @ [b] @ lossy [] [] bs | r' # st' \<Rightarrow> lossy (r' # st') (cur @ [b]) bs)
      else replacement @ lossy [] [] (b # bs))"
  by pat_completeness auto
termination
  by (relation "measures [\<lambda>(st, cur, bs). length bs, \<lambda>(st, cur, bs). length st]") auto

definition from_utf8_lossy :: "bytes \<Rightarrow> string" where
  "from_utf8_lossy bs = of_bytes (lossy [] [] bs)"

definition valid_str :: "string \<Rightarrow> bool" where
  "valid_str s \<longleftrightarrow> utf8_valid (as_bytes s)"

lemma of_char_of_nat_bound: "(of_char c :: nat) < 256"
  using of_char_mod_256 [of c, where 'a = nat] by (metis mod_less_divisor zero_less_numeral)

lemma of_bytes_as_bytes [simp]: "of_bytes (as_bytes s) = s"
proof -
  have "char_of (unat (word_of_nat (of_char c) :: u8)) = c" for c
  proof -
    have "(of_char c :: nat) < 256" by (rule of_char_of_nat_bound)
    then have "unat (word_of_nat (of_char c) :: u8) = of_char c"
      by (simp add: unat_of_nat take_bit_eq_mod)
    then show ?thesis by simp
  qed
  then show ?thesis by (simp add: of_bytes_def as_bytes_def o_def)
qed

lemma as_bytes_of_bytes [simp]: "as_bytes (of_bytes bs) = bs"
proof -
  have "word_of_nat (of_char (char_of (unat b) :: char)) = b" for b :: u8
    using unsigned_less [of b, where 'a = nat] by (simp add: of_char_of)
  then show ?thesis by (simp add: of_bytes_def as_bytes_def o_def)
qed

lemma as_bytes_append [simp]: "as_bytes (a @ b) = as_bytes a @ as_bytes b"
  by (simp add: as_bytes_def)

lemma length_as_bytes [simp]: "length (as_bytes s) = length s"
  by (simp add: as_bytes_def)

lemma as_bytes_inject [simp]: "as_bytes a = as_bytes b \<longleftrightarrow> a = b"
  by (metis of_bytes_as_bytes)

lemma utf8_run_append: "utf8_run st a \<Longrightarrow> utf8_run [] b \<Longrightarrow> utf8_run st (a @ b)"
  by (induction st a rule: utf8_run.induct) (auto split: option.splits)

text \<open>Well-formed input passes through \<open>from_utf8_lossy\<close> unchanged.\<close>

lemma lossy_valid: "utf8_run st bs \<Longrightarrow> (st = [] \<Longrightarrow> cur = []) \<Longrightarrow> lossy st cur bs = cur @ bs"
proof (induction st cur bs rule: lossy.induct)
  case (4 r st cur b bs)
  then show ?case by (cases r) (auto split: list.splits)
qed (auto split: option.splits list.splits)

lemma from_utf8_lossy_valid: "utf8_valid bs \<Longrightarrow> from_utf8_lossy bs = of_bytes bs"
  by (simp add: from_utf8_lossy_def utf8_valid_def lossy_valid)

lemma valid_str_append [intro]: "valid_str a \<Longrightarrow> valid_str b \<Longrightarrow> valid_str (a @ b)"
  by (simp add: valid_str_def utf8_valid_def utf8_run_append)

lemma from_utf8_as_bytes [simp]: "valid_str s \<Longrightarrow> from_utf8 (as_bytes s) = Inr s"
  by (simp add: from_utf8_def valid_str_def)

section \<open>Lower-casing\<close>

definition is_ascii :: "char \<Rightarrow> bool" where
  "is_ascii c \<longleftrightarrow> (of_char c :: nat) < 128"

definition ascii_lower :: "char \<Rightarrow> char" where
  "ascii_lower c =
     (let n = of_char c :: nat in if 65 \<le> n \<and> n \<le> 90 then char_of (n + 32) else c)"

definition utf8_extra :: "char \<Rightarrow> nat" where
  "utf8_extra c = (let n = of_char c :: nat in if 240 \<le> n then 3 else if 224 \<le> n then 2 else 1)"

text \<open>
  \<open>str::to_lowercase\<close> maps ASCII letters in place. The image of a non-ASCII code point
  comes from the Unicode tables and, for the capital sigma, from its context: the
  parameter \<open>lw\<close> takes what precedes the code point, its bytes and what follows.
\<close>

type_synonym lower_table = "string \<Rightarrow> string \<Rightarrow> string \<Rightarrow> string"

function lower_from :: "lower_table \<Rightarrow> string \<Rightarrow> string \<Rightarrow> string" where
  "lower_from lw pre [] = []"
| "lower_from lw pre (c # cs) =
     (if is_ascii c then ascii_lower c # lower_from lw (pre @ [c]) cs
      else lw pre (c # take (utf8_extra c) cs) (drop (utf8_extra c) cs) @
           lower_from lw (pre @ c # take (utf8_extra c) cs) (drop (utf8_extra c) cs))"
  by pat_completeness auto
termination
  by (relation "measure (\<lambda>(lw, pre, s). length s)") auto

definition to_lowercase :: "lower_table \<Rightarrow> string \<Rightarrow> string" where
  "to_lowercase lw s = lower_from lw [] s"

lemma lower_from_ascii:
  "\<forall>c \<in> set a. is_ascii c \<Longrightarrow> lower_from lw pre (a @ b) = map ascii_lower a @ lower_from lw (pre @ a) b"
  by (induction a arbitrary: pre) auto

lemma to_lowercase_ascii: "\<forall>c \<in> set s. is_ascii c \<Longrightarrow> to_lowercase lw s = map ascii_lower s"
  using lower_from_ascii [of s lw "[]" "[]"] by (simp add: to_lowercase_def)

section \<open>Programs\<close>

text \<open>
  A method that reads and writes its object, calls the network and may fail is a function
  from the state to an outcome and the state after it. The state is threaded through
  \<open>bindM\<close>; an error or a panic skips the rest, as \<open>?\<close> and unwinding do.
\<close>

type_synonym ('s, 'e, 'a) prog = "'s \<Rightarrow> ('e, 'a) outcome \<times> 's"

definition returnM :: "'a \<Rightarrow> ('s, 'e, 'a) prog" where
  "returnM x = (\<lambda>s. (Ok x, s))"

definition liftM :: "('e, 'a) outcome \<Rightarrow> ('s, 'e, 'a) prog" where
  "liftM r = (\<lambda>s. (r, s))"

definition throwM :: "'e \<Rightarrow> ('s, 'e, 'a) prog" where
  "throwM e = (\<lambda>s. (Err e, s))"

definition getM :: "('s \<Rightarrow> 'a) \<Rightarrow> ('s, 'e, 'a) prog" where
  "getM f = (\<lambda>s. (Ok (f s), s))"

definition modifyM :: "('s \<Rightarrow> 's) \<Rightarrow> ('s, 'e, unit) prog" where
  "modifyM f = (\<lambda>s. (Ok (), f s))"

definition bindM :: "('s, 'e, 'a) prog \<Rightarrow> ('a \<Rightarrow> ('s, 'e, 'b) prog) \<Rightarrow> ('s, 'e, 'b) prog" where
  "bindM m f = (\<lambda>s. case m s of
      (Ok x, s') \<Rightarrow> f x s'
    | (Err e, s') \<Rightarrow> (Err e, s')
    | (Panic p, s') \<Rightarrow> (Panic p, s'))"

definition mapErrM :: "('e \<Rightarrow> 'f) \<Rightarrow> ('s, 'e, 'a) prog \<Rightarrow> ('s, 'f, 'a) prog" where
  "mapErrM f m = (\<lambda>s. case m s of (r, s') \<Rightarrow> (map_err f r, s'))"

text \<open>\<open>match call { Ok(x) => .., Err(e) => .. }\<close>; a panic still unwinds.\<close>

definition matchM ::
  "('s, 'e, 'a) prog \<Rightarrow> ('a \<Rightarrow> ('s, 'f, 'b) prog) \<Rightarrow> ('e \<Rightarrow> ('s, 'f, 'b) prog) \<Rightarrow> ('s, 'f, 'b) prog" where
  "matchM m f g = (\<lambda>s. case m s of
      (Ok x, s') \<Rightarrow> f x s'
    | (Err e, s') \<Rightarrow> g e s'
    | (Panic p, s') \<Rightarrow> (Panic p, s'))"

text \<open>Running a program on a part of the state.\<close>

definition zoomM :: "('t \<Rightarrow> 's) \<Rightarrow> ('s \<Rightarrow> 't \<Rightarrow> 't) \<Rightarrow> ('s, 'e, 'a) prog \<Rightarrow> ('t, 'e, 'a) prog" where
  "zoomM get put m = (\<lambda>t. case m (get t) of (r, s') \<Rightarrow> (r, put s' t))"

lemmas prog_defs =
  returnM_def liftM_def throwM_def getM_def modifyM_def bindM_def mapErrM_def matchM_def

lemma bindM_assoc: "bindM (bindM m f) g = bindM m (\<lambda>x. bindM (f x) g)"
  by (auto simp: bindM_def fun_eq_iff split: prod.splits outcome.splits)

lemma bindM_return [simp]: "bindM (returnM x) f = f x" "bindM m returnM = m"
  by (auto simp: bindM_def returnM_def fun_eq_iff split: prod.splits outcome.splits)

lemma bindM_Ok: "bindM m f s = (Ok y, s'') \<longleftrightarrow> (\<exists>x s'. m s = (Ok x, s') \<and> f x s' = (Ok y, s''))"
  by (auto simp: bindM_def split: prod.splits outcome.splits)

subsection \<open>Weakest preconditions\<close>

text \<open>
  \<open>wp m Q s\<close>: the outcome and the state of \<open>m\<close> run from \<open>s\<close> satisfy \<open>Q\<close>. The equations reduce a
  program text to conditions on the calls in it; what is known of a call enters by \<open>wp_weaken\<close>.
\<close>

definition wp :: "('s, 'e, 'a) prog \<Rightarrow> (('e, 'a) outcome \<Rightarrow> 's \<Rightarrow> bool) \<Rightarrow> 's \<Rightarrow> bool" where
  "wp m Q s \<longleftrightarrow> Q (fst (m s)) (snd (m s))"

named_theorems wp_simps \<open>weakest preconditions of program texts\<close>

lemma wp_return [wp_simps]: "wp (returnM x) Q s = Q (Ok x) s"
  by (simp add: wp_def prog_defs)

lemma wp_lift [wp_simps]: "wp (liftM r) Q s = Q r s"
  by (simp add: wp_def prog_defs)

lemma wp_throw [wp_simps]: "wp (throwM e) Q s = Q (Err e) s"
  by (simp add: wp_def prog_defs)

lemma wp_bind [wp_simps]:
  "wp (bindM m f) Q s = wp m (\<lambda>r t. case r of Ok x \<Rightarrow> wp (f x) Q t | Err e \<Rightarrow> Q (Err e) t | Panic p \<Rightarrow> Q (Panic p) t) s"
  by (simp add: wp_def bindM_def split: prod.split outcome.split)

lemma wp_match [wp_simps]:
  "wp (matchM m f g) Q s = wp m (\<lambda>r t. case r of Ok x \<Rightarrow> wp (f x) Q t | Err e \<Rightarrow> wp (g e) Q t | Panic p \<Rightarrow> Q (Panic p) t) s"
  by (simp add: wp_def matchM_def split: prod.split outcome.split)

lemma wp_map_err [wp_simps]: "wp (mapErrM f m) Q s = wp m (\<lambda>r. Q (map_err f r)) s"
  by (simp add: wp_def mapErrM_def split: prod.split)

lemma wp_if [wp_simps]: "wp (if c then a else b) Q s = (if c then wp a Q s else wp b Q s)"
  by simp

lemma wp_option [wp_simps]:
  "wp (case opt of None \<Rightarrow> a | Some x \<Rightarrow> b x) Q s = (case opt of None \<Rightarrow> wp a Q s | Some x \<Rightarrow> wp (b x) Q s)"
  by (simp split: option.split)

lemma wp_prod [wp_simps]: "wp (case p of (x, y) \<Rightarrow> f x y) Q s = (case p of (x, y) \<Rightarrow> wp (f x y) Q s)"
  by (simp split: prod.split)

lemma wp_weaken: "wp m Q s \<Longrightarrow> (\<And>r t. Q r t \<Longrightarrow> Q' r t) \<Longrightarrow> wp m Q' s"
  by (simp add: wp_def)

lemma wp_bind_inv:
  assumes "wp m (\<lambda>r. I) s" "\<And>x t. I t \<Longrightarrow> wp (f x) Q t" "\<And>e t. I t \<Longrightarrow> Q (Err e) t" "\<And>p t. I t \<Longrightarrow> Q (Panic p) t"
  shows "wp (bindM m f) Q s"
  unfolding wp_bind using assms(1) by (rule wp_weaken) (simp add: assms(2-4) split: outcome.split)

lemma wpD: "wp m Q s \<Longrightarrow> m s = (r, t) \<Longrightarrow> Q r t"
  by (simp add: wp_def)

lemma wpI: "(\<And>r t. m s = (r, t) \<Longrightarrow> Q r t) \<Longrightarrow> wp m Q s"
  by (cases "m s") (simp add: wp_def)

subsection \<open>Frames: what every run of a program respects\<close>

text \<open>
  \<open>framed R m\<close>: whatever the outcome, the state after \<open>m\<close> is \<open>R\<close>-related to the state
  before it. For a reflexive and transitive \<open>R\<close> it composes, which is how the component
  theories show that a log only grows, that a field is left alone, or that an invariant
  is kept on every branch, the error branches included.
\<close>

definition framed :: "('s \<Rightarrow> 's \<Rightarrow> bool) \<Rightarrow> ('s, 'e, 'a) prog \<Rightarrow> bool" where
  "framed R m \<longleftrightarrow> (\<forall>s. R s (snd (m s)))"

locale frame_rel =
  fixes R :: "'s \<Rightarrow> 's \<Rightarrow> bool"
  assumes frame_refl: "R s s"
    and frame_trans: "R s t \<Longrightarrow> R t u \<Longrightarrow> R s u"
begin

lemma framed_return: "framed R (returnM x)"
  by (simp add: framed_def returnM_def frame_refl)

lemma framed_lift: "framed R (liftM r)"
  by (simp add: framed_def liftM_def frame_refl)

lemma framed_throw: "framed R (throwM e)"
  by (simp add: framed_def throwM_def frame_refl)

lemma framed_get: "framed R (getM f)"
  by (simp add: framed_def getM_def frame_refl)

lemma framed_modify: "(\<And>s. R s (f s)) \<Longrightarrow> framed R (modifyM f)"
  by (simp add: framed_def modifyM_def)

lemma framed_bind: "framed R m \<Longrightarrow> (\<And>x. framed R (f x)) \<Longrightarrow> framed R (bindM m f)"
  unfolding framed_def bindM_def
  by (auto split: prod.splits outcome.splits) (metis frame_trans snd_conv)+

lemma framed_match:
  "framed R m \<Longrightarrow> (\<And>x. framed R (f x)) \<Longrightarrow> (\<And>e. framed R (g e)) \<Longrightarrow> framed R (matchM m f g)"
  unfolding framed_def matchM_def
  by (auto split: prod.splits outcome.splits) (metis frame_trans snd_conv)+

lemma framed_bind_lift: "(\<And>x. r = Ok x \<Longrightarrow> framed R (f x)) \<Longrightarrow> framed R (bindM (liftM r) f)"
  by (cases r) (simp_all add: framed_def bindM_def liftM_def frame_refl)

lemma framed_map_err: "framed R m \<Longrightarrow> framed R (mapErrM f m)"
  unfolding framed_def mapErrM_def by (auto split: prod.splits) (metis snd_conv)

end

lemma framedD: "framed R m \<Longrightarrow> m s = (r, s') \<Longrightarrow> R s s'"
  unfolding framed_def by (metis snd_conv)

lemma framed_if: "(c \<Longrightarrow> framed R a) \<Longrightarrow> (\<not> c \<Longrightarrow> framed R b) \<Longrightarrow> framed R (if c then a else b)"
  by simp

lemma framed_option:
  "(opt = None \<Longrightarrow> framed R a) \<Longrightarrow> (\<And>x. opt = Some x \<Longrightarrow> framed R (b x)) \<Longrightarrow>
   framed R (case opt of None \<Rightarrow> a | Some x \<Rightarrow> b x)"
  by (simp split: option.split)

lemma framed_prod: "(\<And>x y. p = (x, y) \<Longrightarrow> framed R (f x y)) \<Longrightarrow> framed R (case p of (x, y) \<Rightarrow> f x y)"
  by (simp split: prod.split)

end
