(* ===== verification/Errors.thy ===== *)
theory Errors
  imports Prelude
begin

text \<open>
  \<^verbatim>\<open>errors.rs\<close>: the error enum of the crate, its constructor functions, its code strings and
  its \<open>Display\<close> text (the text that reaches the consumer in an error event and that
  \<open>is_retryable_kms_error\<close> searches).
\<close>

datatype webex_error =
    Auth string
  | DeviceRegistration string "u16 option"
  | MercuryConnection string "u16 option"
  | Kms string
  | Decryption string
  | Internal string

definition auth :: "string \<Rightarrow> webex_error" where
  "auth msg = Auth msg"

definition device_registration :: "string \<Rightarrow> u16 option \<Rightarrow> webex_error" where
  "device_registration msg status_code = DeviceRegistration msg status_code"

definition mercury_connection :: "string \<Rightarrow> u16 option \<Rightarrow> webex_error" where
  "mercury_connection msg close_code = MercuryConnection msg close_code"

definition kms :: "string \<Rightarrow> webex_error" where
  "kms msg = Kms msg"

definition decryption :: "string \<Rightarrow> webex_error" where
  "decryption msg = Decryption msg"

fun code :: "webex_error \<Rightarrow> string" where
  "code (Auth m) = ''AUTH_ERROR''"
| "code (DeviceRegistration m s) = ''DEVICE_REGISTRATION_ERROR''"
| "code (MercuryConnection m c) = ''MERCURY_CONNECTION_ERROR''"
| "code (Kms m) = ''KMS_ERROR''"
| "code (Decryption m) = ''DECRYPTION_ERROR''"
| "code (Internal m) = ''INTERNAL_ERROR''"

text \<open>The \<open>#[error(..)]\<close> attributes: what \<open>to_string\<close> and \<open>{e}\<close> print.\<close>

fun display :: "webex_error \<Rightarrow> string" where
  "display (Auth m) = ''AUTH_ERROR: '' @ m"
| "display (DeviceRegistration m s) = ''DEVICE_REGISTRATION_ERROR: '' @ m"
| "display (MercuryConnection m c) = ''MERCURY_CONNECTION_ERROR: '' @ m"
| "display (Kms m) = ''KMS_ERROR: '' @ m"
| "display (Decryption m) = ''DECRYPTION_ERROR: '' @ m"
| "display (Internal m) = m"

lemmas error_defs =
  auth_def device_registration_def mercury_connection_def kms_def decryption_def

type_synonym 'a result = "(webex_error, 'a) outcome"
type_synonym ('s, 'a) meth = "('s, webex_error, 'a) prog"

text \<open>The dash of the crate's messages (U+2014), in UTF-8.\<close>

definition em_dash :: string where
  "em_dash = [CHR 0xE2, CHR 0x80, CHR 0x94]"

text \<open>Every variant but \<open>Internal\<close> prints as its code, a colon and the message.\<close>

lemma display_code: "\<forall>m. e \<noteq> Internal m \<Longrightarrow> starts_with (code e @ '': '') (display e)"
  by (cases e) (simp_all add: starts_with_def)

end
