(* ===== verification/Json.thy ===== *)
theory Json
  imports Prelude "HOL-Library.List_Lexorder" "HOL-Library.Char_ord"
begin

text \<open>
  JSON documents as \<open>serde_json::Value\<close> presents them to the crate, and the accessors the crate
  calls: \<open>get\<close>, indexing, \<open>as_str\<close>, \<open>as_array\<close>, \<open>is_object\<close>, \<open>pointer\<close>, insertion into
  an object. Objects are the ordered maps of \<open>serde_json\<close>'s default \<open>Map\<close>: association lists
  with increasing keys. A number is kept as its text; the crate never computes with one.
\<close>

datatype json =
    JNull
  | JBool bool
  | JNumber string
  | JString string
  | JArray "json list"
  | JObject "(string \<times> json) list"

fun json_put :: "string \<Rightarrow> 'v \<Rightarrow> (string \<times> 'v) list \<Rightarrow> (string \<times> 'v) list" where
  "json_put k v [] = [(k, v)]"
| "json_put k v ((k', v') # kvs) =
     (if k = k' then (k, v) # kvs
      else if k < k' then (k, v) # (k', v') # kvs
      else (k', v') # json_put k v kvs)"

text \<open>The \<open>json!({..})\<close> literal: its entries inserted in turn.\<close>

definition json_obj :: "(string \<times> json) list \<Rightarrow> json" where
  "json_obj kvs = JObject (fold (\<lambda>(k, v). json_put k v) kvs [])"

definition json_get :: "string \<Rightarrow> json \<Rightarrow> json option" where
  "json_get k j = (case j of JObject kvs \<Rightarrow> map_of kvs k | _ \<Rightarrow> None)"

text \<open>\<open>value[key]\<close> reads as \<open>Null\<close> where there is no such entry.\<close>

definition json_index :: "json \<Rightarrow> string \<Rightarrow> json" where
  "json_index j k = (case json_get k j of Some v \<Rightarrow> v | None \<Rightarrow> JNull)"

definition as_str :: "json \<Rightarrow> string option" where
  "as_str j = (case j of JString s \<Rightarrow> Some s | _ \<Rightarrow> None)"

definition as_array :: "json \<Rightarrow> json list option" where
  "as_array j = (case j of JArray vs \<Rightarrow> Some vs | _ \<Rightarrow> None)"

definition is_object :: "json \<Rightarrow> bool" where
  "is_object j = (case j of JObject kvs \<Rightarrow> True | _ \<Rightarrow> False)"

definition json_set :: "string \<Rightarrow> json \<Rightarrow> json \<Rightarrow> json" where
  "json_set k v j = (case j of JObject kvs \<Rightarrow> JObject (json_put k v kvs) | _ \<Rightarrow> j)"

definition get_str :: "string \<Rightarrow> json \<Rightarrow> string option" where
  "get_str k j = Option.bind (json_get k j) as_str"

text \<open>\<open>Value::pointer\<close>, with the path as its list of reference tokens.\<close>

definition is_digit :: "char \<Rightarrow> bool" where
  "is_digit c \<longleftrightarrow> 48 \<le> (of_char c :: nat) \<and> (of_char c :: nat) \<le> 57"

definition parse_index :: "string \<Rightarrow> nat option" where
  "parse_index s =
     (if s = [] \<or> \<not> list_all is_digit s \<or> (hd s = CHR ''0'' \<and> length s \<noteq> 1) then None
      else Some (foldl (\<lambda>n c. 10 * n + (of_char c - 48)) 0 s))"

fun pointer :: "string list \<Rightarrow> json \<Rightarrow> json option" where
  "pointer [] j = Some j"
| "pointer (t # ts) j =
     (case j of
        JObject kvs \<Rightarrow> (case map_of kvs t of None \<Rightarrow> None | Some v \<Rightarrow> pointer ts v)
      | JArray vs \<Rightarrow>
          (case parse_index t of
             None \<Rightarrow> None
           | Some i \<Rightarrow> if i < length vs then pointer ts (vs ! i) else None)
      | _ \<Rightarrow> None)"

text \<open>
  The documents the crate itself builds: valid strings, increasing keys, no numbers. The laws of
  the printer and the parser are stated for these.
\<close>

function json_wf :: "json \<Rightarrow> bool" where
  "json_wf JNull = True"
| "json_wf (JBool b) = True"
| "json_wf (JNumber n) = False"
| "json_wf (JString s) = valid_str s"
| "json_wf (JArray vs) = list_all json_wf vs"
| "json_wf (JObject kvs) \<longleftrightarrow>
     sorted_wrt (<) (map fst kvs) \<and> list_all valid_str (map fst kvs) \<and> list_all json_wf (map snd kvs)"
  by pat_completeness auto
termination
proof (relation "measure size", goal_cases)
  case (3 kvs v)
  then obtain k where "(k, v) \<in> set kvs" by auto
  then have "size v < size_list (size_prod (\<lambda>x. 0) size) kvs" by (induction kvs) auto
  then show ?case by simp
qed (auto simp: less_Suc_eq_le size_list_estimation')

section \<open>Laws\<close>

lemma map_of_json_put [simp]: "sorted_wrt (<) (map fst kvs) \<Longrightarrow> map_of (json_put k v kvs) = (map_of kvs)(k \<mapsto> v)"
proof (induction k v kvs rule: json_put.induct)
  case (2 k v k' v' kvs)
  show ?case
  proof (cases "k < k'")
    case True
    with "2.prems" have "k \<notin> fst ` set kvs" by auto
    with True "2.prems" show ?thesis by (auto simp: fun_eq_iff)
  next
    case False
    with 2 show ?thesis by (auto simp: fun_eq_iff)
  qed
qed simp

lemma set_json_put: "fst ` set (json_put k v kvs) = insert k (fst ` set kvs)"
  by (induction k v kvs rule: json_put.induct) auto

lemma sorted_json_put [simp]:
  "sorted_wrt (<) (map fst kvs) \<Longrightarrow> sorted_wrt (<) (map fst (json_put k v kvs))"
proof (induction k v kvs rule: json_put.induct)
  case (2 k v k' v' kvs)
  then show ?case
    using set_json_put [of k v kvs] by (auto simp: not_less le_less)
qed simp

lemma json_fold_sorted:
  "sorted_wrt (<) (map fst kvs) \<Longrightarrow>
   sorted_wrt (<) (map fst (fold (\<lambda>(k, v). json_put k v) xs kvs)) \<and>
   map_of (fold (\<lambda>(k, v). json_put k v) xs kvs) = map_of kvs ++ map_of (rev xs)"
proof (induction xs arbitrary: kvs)
  case (Cons x xs)
  obtain k v where x: "x = (k, v)" by force
  from Cons.prems have "sorted_wrt (<) (map fst (json_put k v kvs))" by simp
  from Cons.IH [OF this] Cons.prems show ?case by (simp add: x map_add_def fun_eq_iff split: option.split)
qed simp

text \<open>Reading an entry of a \<open>json!\<close> literal gives the last value written under its key.\<close>

lemma json_get_obj: "json_get k (json_obj kvs) = map_of (rev kvs) k"
  using json_fold_sorted [of "[]" kvs] by (simp add: json_obj_def json_get_def)

lemma get_str_obj: "get_str k (json_obj kvs) = Option.bind (map_of (rev kvs) k) as_str"
  by (simp add: get_str_def json_get_obj)

lemma as_str_simps [simp]: "as_str (JString s) = Some s" "as_str JNull = None" "as_str (JBool b) = None"
  "as_str (JNumber n) = None" "as_str (JArray a) = None" "as_str (JObject kvs) = None"
  by (simp_all add: as_str_def)

lemma as_str_eq_Some: "as_str j = Some s \<longleftrightarrow> j = JString s"
  by (cases j) simp_all

lemma pointer_append: "pointer (ts @ us) j = Option.bind (pointer ts j) (pointer us)"
  by (induction ts j rule: pointer.induct) (auto split: json.splits option.splits)

end
