(* ===== verification/Types.thy ===== *)
theory Types
  imports Errors Json
begin

text \<open>
  \<^verbatim>\<open>types.rs\<close>: the structs and enums of the crate as records and datatypes, the configuration
  defaults, \<open>MercuryObject::finalize_inputs\<close>, and the derived \<open>Deserialize\<close> of the wire structs
  from a \<open>serde_json::Value\<close> (\<open>from_value\<close>), field by field with the \<open>rename\<close>, \<open>default\<close> and
  \<open>skip\<close> attributes of the source.

  \<open>f64\<close> settings are reals; callbacks, clients and factories are opaque handles, since only their
  presence is inspected. A \<open>HashMap\<close> that is only looked up is a map.
\<close>

type_synonym handle = nat

datatype network_mode = Native | Injected

record fetch_request =
  rq_url :: string
  rq_method :: string
  rq_headers :: "string \<rightharpoonup> string"
  rq_body :: "string option"

record fetch_response =
  rs_status :: u16
  rs_ok :: bool
  rs_body :: bytes

record config =
  cf_token :: string
  cf_mode :: network_mode
  cf_client :: "handle option"
  cf_fetch :: "handle option"
  cf_web_socket_factory :: "handle option"
  cf_ping_interval :: real
  cf_pong_timeout :: real
  cf_reconnect_backoff_max :: real
  cf_max_reconnect_attempts :: u32
  cf_reconnect_stability_seconds :: real
  cf_ignore_self_messages :: bool
  cf_event_channel_capacity :: nat
  cf_metrics_callback :: "handle option"

definition config_default :: config where
  "config_default =
     \<lparr>cf_token = [], cf_mode = Native, cf_client = None, cf_fetch = None,
      cf_web_socket_factory = None, cf_ping_interval = 15, cf_pong_timeout = 14,
      cf_reconnect_backoff_max = 32, cf_max_reconnect_attempts = 10,
      cf_reconnect_stability_seconds = 60, cf_ignore_self_messages = True,
      cf_event_channel_capacity = 1000, cf_metrics_callback = None\<rparr>"

record device_registration =
  dr_web_socket_url :: string
  dr_device_url :: string
  dr_user_id :: string
  dr_name :: "string option"
  dr_device_type :: "string option"
  dr_services :: "string \<rightharpoonup> string"
  dr_encryption_service_url :: string

record mercury_actor =
  ac_id :: string
  ac_object_type :: string
  ac_email_address :: "string option"

record mercury_object =
  ob_id :: string
  ob_object_type :: string
  ob_display_name :: "string option"
  ob_content :: "string option"
  ob_encryption_key_url :: "string option"
  ob_inputs :: "json option"
  ob_inputs_encrypted :: "string option"
  ob_files :: "string list option"

definition finalize_inputs :: "mercury_object \<Rightarrow> mercury_object" where
  "finalize_inputs ob =
     (case ob_inputs ob of
        Some (JString s) \<Rightarrow> ob\<lparr>ob_inputs_encrypted := Some s, ob_inputs := None\<rparr>
      | _ \<Rightarrow> ob)"

record mercury_target =
  tg_id :: string
  tg_object_type :: string
  tg_encryption_key_url :: "string option"
  tg_tags :: "string list"

record mercury_parent =
  pa_id :: string
  pa_parent_type :: string

record mercury_activity =
  av_id :: string
  av_url :: "string option"
  av_verb :: string
  av_actor :: mercury_actor
  av_object :: mercury_object
  av_target :: mercury_target
  av_published :: string
  av_encryption_key_url :: "string option"
  av_parent :: "mercury_parent option"

record decrypted_message =
  dm_id :: string
  dm_url :: "string option"
  dm_parent_id :: "string option"
  dm_mentioned_people :: "string list"
  dm_mentioned_groups :: "string list"
  dm_room_id :: string
  dm_person_id :: string
  dm_person_email :: string
  dm_text :: string
  dm_html :: "string option"
  dm_created :: string
  dm_room_type :: "string option"
  dm_files :: "string list"
  dm_raw :: mercury_activity

record deleted_message =
  dl_message_id :: string
  dl_room_id :: string
  dl_person_id :: string

record membership_activity =
  mb_id :: string
  mb_actor_id :: string
  mb_person_id :: string
  mb_room_id :: string
  mb_action :: string
  mb_created :: string
  mb_room_type :: "string option"
  mb_raw :: mercury_activity

record attachment_action =
  at_id :: string
  at_message_id :: string
  at_person_id :: string
  at_person_email :: string
  at_room_id :: string
  at_inputs :: json
  at_created :: string
  at_raw :: mercury_activity

record room_activity =
  rm_id :: string
  rm_room_id :: string
  rm_actor_id :: string
  rm_action :: string
  rm_created :: string
  rm_raw :: mercury_activity

datatype connection_status = Connected | Connecting | Reconnecting | Disconnected

fun connection_status_display :: "connection_status \<Rightarrow> string" where
  "connection_status_display Connected = ''connected''"
| "connection_status_display Connecting = ''connecting''"
| "connection_status_display Reconnecting = ''reconnecting''"
| "connection_status_display Disconnected = ''disconnected''"

record handler_status =
  hs_status :: connection_status
  hs_web_socket_open :: bool
  hs_kms_initialized :: bool
  hs_device_registered :: bool
  hs_reconnect_attempt :: u32

record metrics_event =
  me_name :: string
  me_duration_ms :: real
  me_success :: bool
  me_metadata :: "(string \<rightharpoonup> string) option"

section \<open>Default values\<close>

definition actor_default :: mercury_actor where
  "actor_default = \<lparr>ac_id = [], ac_object_type = [], ac_email_address = None\<rparr>"

definition object_default :: mercury_object where
  "object_default =
     \<lparr>ob_id = [], ob_object_type = [], ob_display_name = None, ob_content = None,
      ob_encryption_key_url = None, ob_inputs = None, ob_inputs_encrypted = None, ob_files = None\<rparr>"

definition target_default :: mercury_target where
  "target_default = \<lparr>tg_id = [], tg_object_type = [], tg_encryption_key_url = None, tg_tags = []\<rparr>"

section \<open>Deserialization from a JSON value\<close>

text \<open>
  A derived struct is read from an object by field name, or from an array by position; an array
  longer than the field list is refused, unknown object entries are ignored.
\<close>

definition fields_of :: "string list \<Rightarrow> json \<Rightarrow> (string \<rightharpoonup> json) option" where
  "fields_of names j =
     (case j of
        JObject kvs \<Rightarrow> Some (map_of kvs)
      | JArray vs \<Rightarrow> if length vs \<le> length names then Some (map_of (zip names vs)) else None
      | _ \<Rightarrow> None)"

definition de_opt :: "(json \<Rightarrow> 'a option) \<Rightarrow> json \<Rightarrow> 'a option option" where
  "de_opt d j = (if j = JNull then Some None else map_option Some (d j))"

definition de_vec :: "(json \<Rightarrow> 'a option) \<Rightarrow> json \<Rightarrow> 'a list option" where
  "de_vec d j = (case j of JArray vs \<Rightarrow> those (map d vs) | _ \<Rightarrow> None)"

definition de_map :: "json \<Rightarrow> (string \<rightharpoonup> string) option" where
  "de_map j =
     (case j of
        JObject kvs \<Rightarrow>
          map_option (\<lambda>vs. map_of (zip (map fst kvs) vs)) (those (map (\<lambda>(k, v). as_str v) kvs))
      | _ \<Rightarrow> None)"

text \<open>A field with \<open>#[serde(default)]\<close> and one without.\<close>

definition fld :: "'a \<Rightarrow> (json \<Rightarrow> 'a option) \<Rightarrow> (string \<rightharpoonup> json) \<Rightarrow> string \<Rightarrow> 'a option" where
  "fld dflt d m k = (case m k of None \<Rightarrow> Some dflt | Some j \<Rightarrow> d j)"

definition fld_req :: "(json \<Rightarrow> 'a option) \<Rightarrow> (string \<rightharpoonup> json) \<Rightarrow> string \<Rightarrow> 'a option" where
  "fld_req d m k = Option.bind (m k) d"

definition de_actor :: "json \<Rightarrow> mercury_actor option" where
  "de_actor j =
     Option.bind (fields_of [''id'', ''objectType'', ''emailAddress''] j) (\<lambda>m.
     Option.bind (fld [] as_str m ''id'') (\<lambda>i.
     Option.bind (fld [] as_str m ''objectType'') (\<lambda>ot.
     Option.bind (fld None (de_opt as_str) m ''emailAddress'') (\<lambda>em.
     Some \<lparr>ac_id = i, ac_object_type = ot, ac_email_address = em\<rparr>))))"

definition de_object :: "json \<Rightarrow> mercury_object option" where
  "de_object j =
     Option.bind (fields_of [''id'', ''objectType'', ''displayName'', ''content'',
        ''encryptionKeyUrl'', ''inputs'', ''files''] j) (\<lambda>m.
     Option.bind (fld [] as_str m ''id'') (\<lambda>i.
     Option.bind (fld [] as_str m ''objectType'') (\<lambda>ot.
     Option.bind (fld None (de_opt as_str) m ''displayName'') (\<lambda>dn.
     Option.bind (fld None (de_opt as_str) m ''content'') (\<lambda>ct.
     Option.bind (fld None (de_opt as_str) m ''encryptionKeyUrl'') (\<lambda>ek.
     Option.bind (fld None (de_opt Some) m ''inputs'') (\<lambda>inp.
     Option.bind (fld None (de_opt (de_vec as_str)) m ''files'') (\<lambda>fs.
     Some \<lparr>ob_id = i, ob_object_type = ot, ob_display_name = dn, ob_content = ct,
           ob_encryption_key_url = ek, ob_inputs = inp, ob_inputs_encrypted = None,
           ob_files = fs\<rparr>))))))))"

definition de_target :: "json \<Rightarrow> mercury_target option" where
  "de_target j =
     Option.bind (fields_of [''id'', ''objectType'', ''encryptionKeyUrl'', ''tags''] j) (\<lambda>m.
     Option.bind (fld [] as_str m ''id'') (\<lambda>i.
     Option.bind (fld [] as_str m ''objectType'') (\<lambda>ot.
     Option.bind (fld None (de_opt as_str) m ''encryptionKeyUrl'') (\<lambda>ek.
     Option.bind (fld [] (de_vec as_str) m ''tags'') (\<lambda>ts.
     Some \<lparr>tg_id = i, tg_object_type = ot, tg_encryption_key_url = ek, tg_tags = ts\<rparr>)))))"

definition de_parent :: "json \<Rightarrow> mercury_parent option" where
  "de_parent j =
     Option.bind (fields_of [''id'', ''type''] j) (\<lambda>m.
     Option.bind (fld [] as_str m ''id'') (\<lambda>i.
     Option.bind (fld [] as_str m ''type'') (\<lambda>t.
     Some \<lparr>pa_id = i, pa_parent_type = t\<rparr>)))"

definition de_activity :: "json \<Rightarrow> mercury_activity option" where
  "de_activity j =
     Option.bind (fields_of [''id'', ''url'', ''verb'', ''actor'', ''object'', ''target'',
        ''published'', ''encryptionKeyUrl'', ''parent''] j) (\<lambda>m.
     Option.bind (fld [] as_str m ''id'') (\<lambda>i.
     Option.bind (fld None (de_opt as_str) m ''url'') (\<lambda>u.
     Option.bind (fld [] as_str m ''verb'') (\<lambda>v.
     Option.bind (fld actor_default de_actor m ''actor'') (\<lambda>a.
     Option.bind (fld object_default de_object m ''object'') (\<lambda>ob.
     Option.bind (fld target_default de_target m ''target'') (\<lambda>tg.
     Option.bind (fld [] as_str m ''published'') (\<lambda>pb.
     Option.bind (fld None (de_opt as_str) m ''encryptionKeyUrl'') (\<lambda>ek.
     Option.bind (fld None (de_opt de_parent) m ''parent'') (\<lambda>pa.
     Some \<lparr>av_id = i, av_url = u, av_verb = v, av_actor = a, av_object = ob, av_target = tg,
           av_published = pb, av_encryption_key_url = ek, av_parent = pa\<rparr>))))))))))"

definition de_registration :: "json \<Rightarrow> device_registration option" where
  "de_registration j =
     Option.bind (fields_of [''webSocketUrl'', ''url'', ''userId'', ''name'', ''deviceType'',
        ''services''] j) (\<lambda>m.
     Option.bind (fld_req as_str m ''webSocketUrl'') (\<lambda>ws.
     Option.bind (fld_req as_str m ''url'') (\<lambda>u.
     Option.bind (fld_req as_str m ''userId'') (\<lambda>ui.
     Option.bind (fld None (de_opt as_str) m ''name'') (\<lambda>nm.
     Option.bind (fld None (de_opt as_str) m ''deviceType'') (\<lambda>dt.
     Option.bind (fld Map.empty de_map m ''services'') (\<lambda>sv.
     Some \<lparr>dr_web_socket_url = ws, dr_device_url = u, dr_user_id = ui, dr_name = nm,
           dr_device_type = dt, dr_services = sv, dr_encryption_service_url = []\<rparr>)))))))"

section \<open>Properties\<close>

lemma finalize_inputs_no_string: "ob_inputs (finalize_inputs ob) \<noteq> Some (JString s)"
  by (auto simp: finalize_inputs_def split: option.splits json.splits)

lemma finalize_inputs_idem: "finalize_inputs (finalize_inputs ob) = finalize_inputs ob"
  by (auto simp: finalize_inputs_def split: option.splits json.splits)

text \<open>
  A wire object never carries \<open>inputs_encrypted\<close> (the field is skipped), so after
  \<open>finalize_inputs\<close> the encrypted form is present exactly when the wire had a string.
\<close>

lemma de_object_inputs_encrypted: "de_object j = Some ob \<Longrightarrow> ob_inputs_encrypted ob = None"
  by (auto simp: de_object_def bind_eq_Some_conv)

text \<open>Every field of the activity wire format is optional: the empty object parses.\<close>

lemma de_activity_empty:
  "de_activity (JObject []) =
     Some \<lparr>av_id = [], av_url = None, av_verb = [], av_actor = actor_default,
           av_object = object_default, av_target = target_default, av_published = [],
           av_encryption_key_url = None, av_parent = None\<rparr>"
  by (simp add: de_activity_def fields_of_def fld_def)

end
