(* ===== verification/Env.thy ===== *)
theory Env
  imports Types
begin

text \<open>
  What the crate calls but does not define: the HTTP function, the clock, random bytes and
  identifiers, the KMS messages Mercury brings while a KMS request is being posted and while its
  answer is awaited, the URL library and the WebSocket (opening, sending, and what is read
  during the setup, with whether the timeout then fired), \<open>serde_json\<close> parsing and printing,
  base64, the regular-expression engine and the cryptographic crates. They are the fields of
  one record, an argument of every definition that uses them. Nothing is assumed of a field
  except in the named hypotheses of section ``Documented laws'', each used only where a property
  needs it.

  The world is what the crate has done so far: the requests it has sent (the HTTP function may
  answer depending on all of them), how often it has read the clock or drawn randomness, the
  metrics it has reported, and the time it has slept in its own retries.
\<close>

text \<open>
  What a read of the WebSocket yields: a text frame, a close frame with its code and reason if it
  has them, any other frame, or an error.
\<close>

datatype ws_item = WsText string | WsClose "(u16 \<times> string) option" | WsOther | WsErr string

record ('sk, 'pk, 'rsa) env =
  http_do :: "fetch_request list \<Rightarrow> fetch_request \<Rightarrow> string + fetch_response"
  clock :: "nat \<Rightarrow> instant"
  uuid_v4 :: "nat \<Rightarrow> string"
  fill_bytes :: "nat \<Rightarrow> nat \<Rightarrow> bytes"
  kms_during_post :: "fetch_request list \<Rightarrow> json list"
  kms_during_wait :: "fetch_request list \<Rightarrow> json list"
  url_append :: "string \<Rightarrow> (string \<times> string) list \<Rightarrow> string + string"
  unix_millis :: "nat \<Rightarrow> nat"
  ws_open :: "nat \<Rightarrow> string \<Rightarrow> string + unit"
  ws_send :: "nat \<Rightarrow> string \<Rightarrow> string + unit"
  ws_setup :: "nat \<Rightarrow> ws_item list \<times> bool"
  json_from_slice :: "bytes \<Rightarrow> string + json"
  json_to_string :: "json \<Rightarrow> string"
  reg_from_slice :: "bytes \<Rightarrow> string + device_registration"
  device_list_from_slice :: "bytes \<Rightarrow> string + json list"
  std_encode :: "bytes \<Rightarrow> string"
  std_decode :: "string \<Rightarrow> string + bytes"
  std_nopad_decode :: "string \<Rightarrow> string + bytes"
  url_encode :: "bytes \<Rightarrow> string"
  url_decode :: "string \<Rightarrow> string + bytes"
  lower :: lower_table
  mention_re :: "string \<Rightarrow> (string \<times> string) list"
  person_id_re :: "string \<Rightarrow> string option"
  group_type_re :: "string \<Rightarrow> string option"
  gcm_encrypt :: "bytes \<Rightarrow> bytes \<Rightarrow> bytes \<Rightarrow> bytes \<Rightarrow> string + bytes"
  gcm_decrypt :: "bytes \<Rightarrow> bytes \<Rightarrow> bytes \<Rightarrow> bytes \<Rightarrow> string + bytes"
  kw_wrap :: "bytes \<Rightarrow> bytes \<Rightarrow> string + bytes"
  kw_unwrap :: "bytes \<Rightarrow> bytes \<Rightarrow> string + bytes"
  rsa_new :: "bytes \<Rightarrow> bytes \<Rightarrow> string + 'rsa"
  rsa_oaep_encrypt :: "nat \<Rightarrow> 'rsa \<Rightarrow> bytes \<Rightarrow> string + bytes"
  sk_random :: "nat \<Rightarrow> 'sk"
  public_x :: "'sk \<Rightarrow> bytes"
  public_y :: "'sk \<Rightarrow> bytes"
  pk_from_sec1 :: "bytes \<Rightarrow> string + 'pk"
  diffie_hellman :: "'sk \<Rightarrow> 'pk \<Rightarrow> bytes"
  sha256 :: "bytes \<Rightarrow> bytes"
  hkdf_sha256 :: "bytes \<Rightarrow> nat \<Rightarrow> string + bytes"

record world =
  w_sent :: "fetch_request list"
  w_ticks :: nat
  w_metrics :: "metrics_event list"
  w_slept :: int

definition world_init :: world where
  "world_init = \<lparr>w_sent = [], w_ticks = 0, w_metrics = [], w_slept = 0\<rparr>"

section \<open>Effects\<close>

definition fetchM ::
  "('sk, 'pk, 'rsa) env \<Rightarrow> fetch_request \<Rightarrow> ('x \<times> world, string, fetch_response) prog" where
  "fetchM E req = (\<lambda>(x, w).
     (of_sum id (http_do E (w_sent w) req), (x, w\<lparr>w_sent := w_sent w @ [req]\<rparr>)))"

definition drawM :: "(nat \<Rightarrow> 'a) \<Rightarrow> ('x \<times> world, 'e, 'a) prog" where
  "drawM f = (\<lambda>(x, w). (Ok (f (w_ticks w)), (x, w\<lparr>w_ticks := Suc (w_ticks w)\<rparr>)))"

abbreviation nowM :: "('sk, 'pk, 'rsa) env \<Rightarrow> ('x \<times> world, 'e, instant) prog" where
  "nowM E \<equiv> drawM (clock E)"

abbreviation uuidM :: "('sk, 'pk, 'rsa) env \<Rightarrow> ('x \<times> world, 'e, string) prog" where
  "uuidM E \<equiv> drawM (uuid_v4 E)"

abbreviation randomM :: "('sk, 'pk, 'rsa) env \<Rightarrow> nat \<Rightarrow> ('x \<times> world, 'e, bytes) prog" where
  "randomM E n \<equiv> drawM (\<lambda>i. fill_bytes E i n)"

text \<open>\<open>tokio::time::sleep\<close>\<close>

definition sleepM :: "int \<Rightarrow> ('x \<times> world, 'e, unit) prog" where
  "sleepM d = (\<lambda>(x, w). (Ok (), (x, w\<lparr>w_slept := w_slept w + d\<rparr>)))"

definition fieldM :: "('x \<Rightarrow> 'a) \<Rightarrow> ('x \<times> world, 'e, 'a) prog" where
  "fieldM f = getM (\<lambda>(x, w). f x)"

definition updateM :: "('x \<Rightarrow> 'x) \<Rightarrow> ('x \<times> world, 'e, unit) prog" where
  "updateM f = modifyM (\<lambda>(x, w). (f x, w))"

definition bearer :: "string \<Rightarrow> string" where
  "bearer token = ''Bearer '' @ token"

definition auth_headers :: "string \<Rightarrow> string \<rightharpoonup> string" where
  "auth_headers token = [''Authorization'' \<mapsto> bearer token]"

definition json_headers :: "string \<Rightarrow> string \<rightharpoonup> string" where
  "json_headers token =
     [''Authorization'' \<mapsto> bearer token, ''Content-Type'' \<mapsto> ''application/json'']"

lemmas effect_defs = fetchM_def drawM_def sleepM_def fieldM_def updateM_def prog_defs

lemma wp_field [wp_simps]: "wp (fieldM f) Q s = Q (Ok (f (fst s))) s"
  by (simp add: wp_def effect_defs split_beta)

lemma wp_update [wp_simps]: "wp (updateM g) Q s = Q (Ok ()) (g (fst s), snd s)"
  by (simp add: wp_def effect_defs split_beta)

lemma wp_draw [wp_simps]:
  "wp (drawM h) Q s = Q (Ok (h (w_ticks (snd s)))) (fst s, (snd s)\<lparr>w_ticks := Suc (w_ticks (snd s))\<rparr>)"
  by (simp add: wp_def effect_defs split_beta)

lemma wp_sleep [wp_simps]: "wp (sleepM d) Q s = Q (Ok ()) (fst s, (snd s)\<lparr>w_slept := w_slept (snd s) + d\<rparr>)"
  by (simp add: wp_def effect_defs split_beta)

lemma wp_fetch [wp_simps]:
  "wp (fetchM E req) Q s =
     Q (of_sum id (http_do E (w_sent (snd s)) req)) (fst s, (snd s)\<lparr>w_sent := w_sent (snd s) @ [req]\<rparr>)"
  by (simp add: wp_def effect_defs split_beta)

section \<open>The request log only grows\<close>

definition sent_of :: "'x \<times> world \<Rightarrow> fetch_request list" where
  "sent_of s = w_sent (snd s)"

lemma sent_of_simps [simp]: "sent_of (x, w) = w_sent w"
  by (simp add: sent_of_def)

text \<open>
  \<open>requests P s t\<close>: the log was extended, by requests that all satisfy \<open>P\<close>. \<open>guarded J P\<close>
  joins it with an invariant \<open>J\<close> of the object: started in \<open>J\<close>, a run ends in \<open>J\<close> and sends only
  requests in \<open>P\<close>, whatever the outcome. It is a frame, so a method is checked by its text: what it
  reads from the object may be used (\<open>guarded_read\<close>), every \<open>fetchM\<close> must satisfy \<open>P\<close> and every
  \<open>updateM\<close> must keep \<open>J\<close>.
\<close>

definition requests :: "(fetch_request \<Rightarrow> bool) \<Rightarrow> 'x \<times> world \<Rightarrow> 'x \<times> world \<Rightarrow> bool" where
  "requests P s t \<longleftrightarrow> (\<exists>rs. sent_of t = sent_of s @ rs \<and> list_all P rs)"

definition guarded :: "('x \<Rightarrow> bool) \<Rightarrow> (fetch_request \<Rightarrow> bool) \<Rightarrow> 'x \<times> world \<Rightarrow> 'x \<times> world \<Rightarrow> bool" where
  "guarded J P s t \<longleftrightarrow> (J (fst s) \<longrightarrow> J (fst t) \<and> requests P s t)"

lemma requests_refl [simp]: "requests P s s"
  by (simp add: requests_def)

lemma requests_trans: "requests P s t \<Longrightarrow> requests P t u \<Longrightarrow> requests P s u"
  unfolding requests_def by (metis append_assoc list_all_append)

interpretation guarded: frame_rel "guarded J P" for J P
  by unfold_locales (auto simp: guarded_def intro: requests_trans)

lemma guarded_fetch: "P req \<Longrightarrow> framed (guarded J P) (fetchM E req)"
  by (auto simp: framed_def fetchM_def guarded_def requests_def split: prod.splits)

lemma guarded_pure: "framed (guarded J P) (drawM f)" "framed (guarded J P) (sleepM d)" "framed (guarded J P) (fieldM g)"
  by (auto simp: framed_def effect_defs guarded_def requests_def split: prod.splits)

lemma guarded_update: "(\<And>x. J x \<Longrightarrow> J (f x)) \<Longrightarrow> framed (guarded J P) (updateM f)"
  by (auto simp: framed_def effect_defs guarded_def requests_def split: prod.splits)

lemma guarded_read:
  "(\<And>x. J x \<Longrightarrow> framed (guarded J P) (g (f x))) \<Longrightarrow> framed (guarded J P) (bindM (fieldM f) g)"
  by (auto simp: framed_def effect_defs guarded_def split: prod.splits)

text \<open>The rules in the order in which they are to be tried.\<close>

lemmas guarded_rules =
  guarded_read guarded.framed_bind_lift guarded.framed_bind guarded.framed_match guarded.framed_map_err
  guarded.framed_return guarded.framed_lift guarded.framed_throw guarded_pure guarded_fetch
  framed_if framed_option framed_prod

lemma guardedD:
  "framed (guarded J P) m \<Longrightarrow> m s = (r, s') \<Longrightarrow> J (fst s) \<Longrightarrow> J (fst s') \<and> requests P s s'"
  unfolding framed_def guarded_def by (metis snd_conv)

lemma wp_guarded: "framed (guarded J P) m \<Longrightarrow> J (fst s) \<Longrightarrow> wp m (\<lambda>r t. J (fst t) \<and> requests P s t) s"
  unfolding framed_def guarded_def wp_def by blast

text \<open>A log that begins with \<open>L\<close> goes on beginning with \<open>L\<close>.\<close>

lemma wp_log:
  assumes "framed (guarded (\<lambda>_. True) (\<lambda>_. True)) m" "\<exists>rs. sent_of t = L @ rs"
  shows "wp m (\<lambda>r t. \<exists>rs. sent_of t = L @ rs) t"
proof -
  have "wp m (\<lambda>r u. True \<and> requests (\<lambda>_. True) t u) t" by (rule wp_guarded [OF assms(1) TrueI])
  then show ?thesis by (rule wp_weaken) (use assms(2) in \<open>auto simp: requests_def\<close>)
qed

lemma wp_bind_log:
  assumes "wp m (\<lambda>r t. \<exists>rs. sent_of t = L @ rs) s" "\<And>x. framed (guarded (\<lambda>_. True) (\<lambda>_. True)) (f x)"
  shows "wp (bindM m f) (\<lambda>r t. \<exists>rs. sent_of t = L @ rs) s"
  by (rule wp_bind_inv [OF assms(1)]) (auto intro: wp_log assms(2))

text \<open>
  \<open>returns J Q m\<close>: from an object in \<open>J\<close>, a value returned by \<open>m\<close> satisfies \<open>Q\<close>; what follows may
  use it.
\<close>

definition returns :: "('x \<Rightarrow> bool) \<Rightarrow> ('a \<Rightarrow> bool) \<Rightarrow> ('x \<times> world, 'e, 'a) prog \<Rightarrow> bool" where
  "returns J Q m \<longleftrightarrow> (\<forall>s. J (fst s) \<longrightarrow> wp m (\<lambda>r t. \<forall>x. r = Ok x \<longrightarrow> Q x) s)"

lemma returnsD: "returns J Q m \<Longrightarrow> J (fst s) \<Longrightarrow> m s = (Ok x, t) \<Longrightarrow> Q x"
  unfolding returns_def by (blast dest: wpD)

lemma guarded_bind_returns:
  assumes "framed (guarded J P) m" "returns J Q m" "\<And>x. Q x \<Longrightarrow> framed (guarded J P) (f x)"
  shows "framed (guarded J P) (bindM m f)"
  unfolding framed_def
proof
  fix s
  show "guarded J P s (snd (bindM m f s))"
  proof (cases "J (fst s)")
    case True
    obtain r t where m: "m s = (r, t)" using prod.exhaust by blast
    from assms(1) have mt: "guarded J P s t" unfolding framed_def using m by (metis snd_conv)
    have "guarded J P t (snd (f x t))" if "r = Ok x" for x
      using assms(3) [OF returnsD [OF assms(2) True]] m that unfolding framed_def by blast
    with mt show ?thesis by (cases r) (auto simp: bindM_def m intro: guarded.frame_trans)
  qed (simp add: guarded_def)
qed

text \<open>
  \<open>sends_at_most Q n m\<close>: a run of \<open>m\<close> sends at most \<open>n\<close> requests of the kind \<open>Q\<close>. The bounds of
  the parts of a program add up along a path and are the maximum over branches.
\<close>

definition sends_at_most :: "(fetch_request \<Rightarrow> bool) \<Rightarrow> nat \<Rightarrow> ('x \<times> world, 'e, 'a) prog \<Rightarrow> bool" where
  "sends_at_most Q n m \<longleftrightarrow> (\<forall>s. length (filter Q (sent_of (snd (m s)))) \<le> length (filter Q (sent_of s)) + n)"

lemma sends_mono: "sends_at_most Q n m \<Longrightarrow> n \<le> k \<Longrightarrow> sends_at_most Q k m"
  unfolding sends_at_most_def by (meson add_le_mono1 add_left_mono le_trans)

lemma sends_pure:
  "sends_at_most Q 0 (returnM x)" "sends_at_most Q 0 (liftM r)" "sends_at_most Q 0 (throwM e)"
  "sends_at_most Q 0 (drawM f)" "sends_at_most Q 0 (sleepM d)" "sends_at_most Q 0 (fieldM g)"
  "sends_at_most Q 0 (updateM h)"
  by (simp_all add: sends_at_most_def effect_defs split: prod.splits)

lemma sends_fetch: "sends_at_most Q 1 (fetchM E req)"
  by (simp add: sends_at_most_def fetchM_def split: prod.splits)

lemma sends_match:
  assumes "sends_at_most Q n m" "\<And>x. sends_at_most Q k (f x)" "\<And>e. sends_at_most Q k (g e)"
  shows "sends_at_most Q (n + k) (matchM m f g)"
proof -
  have "length (filter Q (sent_of (snd (matchM m f g s)))) \<le> length (filter Q (sent_of s)) + (n + k)" for s
  proof -
    obtain r t where Pair: "m s = (r, t)" using prod.exhaust by blast
    with assms(1) have "length (filter Q (sent_of t)) \<le> length (filter Q (sent_of s)) + n"
      unfolding sends_at_most_def by (metis snd_conv)
    then have le: "i \<le> length (filter Q (sent_of s)) + (n + k)" if "i \<le> length (filter Q (sent_of t)) + k" for i
      using that by linarith
    have "length (filter Q (sent_of (snd (f x t)))) \<le> length (filter Q (sent_of t)) + k"
      "length (filter Q (sent_of (snd (g e t)))) \<le> length (filter Q (sent_of t)) + k" for x e
      using assms(2,3) unfolding sends_at_most_def by blast+
    with le show ?thesis by (cases r) (simp_all add: matchM_def Pair)
  qed
  then show ?thesis unfolding sends_at_most_def by blast
qed

lemma sends_bind:
  assumes "sends_at_most Q n m" "\<And>x. sends_at_most Q k (f x)"
  shows "sends_at_most Q (n + k) (bindM m f)"
proof -
  have "bindM m f = matchM m f throwM"
    by (auto simp: bindM_def matchM_def throwM_def fun_eq_iff split: prod.split outcome.split)
  moreover have "sends_at_most Q (n + k) (matchM m f throwM)"
    by (rule sends_match [OF assms sends_mono [OF sends_pure(3)]]) simp
  ultimately show ?thesis by simp
qed

lemma sends_map_err: "sends_at_most Q n m \<Longrightarrow> sends_at_most Q n (mapErrM f m)"
  unfolding sends_at_most_def mapErrM_def by (simp add: split_beta)

lemma sends_zero: "framed (guarded (\<lambda>_. True) (\<lambda>req. \<not> Q req)) m \<Longrightarrow> sends_at_most Q 0 m"
  unfolding framed_def guarded_def requests_def sends_at_most_def
  by (metis append_Nil2 filter_False filter_append le_refl add_0_right list_all_iff)

lemma sends_quiet: "framed (guarded (\<lambda>_. True) (\<lambda>req. \<not> Q req)) m \<Longrightarrow> sends_at_most Q n m"
  by (rule sends_mono [OF sends_zero]) simp_all

lemma sends_bind_quiet:
  "framed (guarded (\<lambda>_. True) (\<lambda>req. \<not> Q req)) m \<Longrightarrow> (\<And>x. sends_at_most Q n (f x)) \<Longrightarrow> sends_at_most Q n (bindM m f)"
  using sends_bind [OF sends_zero, of Q m n f] by simp

abbreviation any_request :: "fetch_request \<Rightarrow> bool" where
  "any_request \<equiv> (\<lambda>_. True)"

lemma sends_any: "sends_at_most any_request n m \<longleftrightarrow> (\<forall>s. length (sent_of (snd (m s))) \<le> length (sent_of s) + n)"
  by (simp add: sends_at_most_def)

lemma sends_if: "sends_at_most Q n a \<Longrightarrow> sends_at_most Q n b \<Longrightarrow> sends_at_most Q n (if c then a else b)"
  by simp

lemma sends_option:
  "sends_at_most Q n a \<Longrightarrow> (\<And>x. sends_at_most Q n (b x)) \<Longrightarrow>
   sends_at_most Q n (case opt of None \<Rightarrow> a | Some x \<Rightarrow> b x)"
  by (simp split: option.split)

section \<open>Documented laws\<close>

text \<open>RFC 4648 codecs: decoding what was encoded gives it back, and no bytes encode as no text.\<close>

definition std_roundtrip :: "('sk, 'pk, 'rsa) env \<Rightarrow> bool" where
  "std_roundtrip E \<longleftrightarrow> (\<forall>bs. std_decode E (std_encode E bs) = Inr bs)"

definition url_roundtrip :: "('sk, 'pk, 'rsa) env \<Rightarrow> bool" where
  "url_roundtrip E \<longleftrightarrow> (\<forall>bs. url_decode E (url_encode E bs) = Inr bs) \<and> url_encode E [] = []"

text \<open>The URL-safe alphabet has no dot.\<close>

definition url_no_dot :: "('sk, 'pk, 'rsa) env \<Rightarrow> bool" where
  "url_no_dot E \<longleftrightarrow> (\<forall>bs. CHR ''.'' \<notin> set (url_encode E bs))"

text \<open>Parsing a printed JSON document of the crate's own gives it back.\<close>

definition json_roundtrip :: "('sk, 'pk, 'rsa) env \<Rightarrow> bool" where
  "json_roundtrip E \<longleftrightarrow> (\<forall>j. json_wf j \<longrightarrow> json_from_slice E (as_bytes (json_to_string E j)) = Inr j)"

text \<open>
  AES-256-GCM with a 32-byte key and a 12-byte nonce: the ciphertext carries a 16-byte tag, and
  decrypting under the same key, nonce and associated data gives the plaintext back.
\<close>

definition gcm_correct :: "('sk, 'pk, 'rsa) env \<Rightarrow> bool" where
  "gcm_correct E \<longleftrightarrow> (\<forall>k iv aad msg ct. length k = 32 \<longrightarrow> length iv = 12 \<longrightarrow>
     gcm_encrypt E k iv aad msg = Inr ct \<longrightarrow>
     16 \<le> length ct \<and> gcm_decrypt E k iv aad ct = Inr msg)"

text \<open>AES key wrap adds eight bytes, and unwrapping gives the key back.\<close>

definition kw_correct :: "('sk, 'pk, 'rsa) env \<Rightarrow> bool" where
  "kw_correct E \<longleftrightarrow> (\<forall>k cek wk. length k = 32 \<longrightarrow> kw_wrap E k cek = Inr wk \<longrightarrow>
     length wk = length cek + 8 \<and> kw_unwrap E k wk = Inr cek)"

text \<open>Drawing \<open>n\<close> random bytes gives \<open>n\<close> bytes; SHA-256 gives 32; HKDF gives what was asked.\<close>

definition random_length :: "('sk, 'pk, 'rsa) env \<Rightarrow> bool" where
  "random_length E \<longleftrightarrow> (\<forall>i n. length (fill_bytes E i n) = n)"

definition sha256_length :: "('sk, 'pk, 'rsa) env \<Rightarrow> bool" where
  "sha256_length E \<longleftrightarrow> (\<forall>bs. length (sha256 E bs) = 32)"

definition hkdf_length :: "('sk, 'pk, 'rsa) env \<Rightarrow> bool" where
  "hkdf_length E \<longleftrightarrow> (\<forall>ikm n bs. hkdf_sha256 E ikm n = Inr bs \<longrightarrow> length bs = n)"

text \<open>The monotonic clock does not go back.\<close>

definition clock_mono :: "('sk, 'pk, 'rsa) env \<Rightarrow> bool" where
  "clock_mono E \<longleftrightarrow> (\<forall>i j. i \<le> j \<longrightarrow> clock E i \<le> clock E j)"

end
