(* ===== verification/Sample_Env.thy ===== *)
theory Sample_Env
  imports Env
begin

text \<open>
  A concrete environment that satisfies every documented law of theory \<open>Env\<close>, with which the
  component theories show that their hypotheses can hold together. Bytes are written as two
  letters each, JSON documents in a prefix notation whose parser is proved to invert its printer,
  and the ciphers are the identity with a tag of the right length: they stand for nothing but
  their laws.
\<close>

section \<open>A text codec for bytes\<close>

definition nib :: "nat \<Rightarrow> char" where
  "nib n = char_of (65 + n)"

definition unnib :: "char \<Rightarrow> nat" where
  "unnib c = of_char c - 65"

definition is_nib :: "char \<Rightarrow> bool" where
  "is_nib c \<longleftrightarrow> 65 \<le> (of_char c :: nat) \<and> (of_char c :: nat) < 81"

definition hex_encode :: "bytes \<Rightarrow> string" where
  "hex_encode bs = concat (map (\<lambda>b. [nib (unat b div 16), nib (unat b mod 16)]) bs)"

definition unhex :: "char \<Rightarrow> char \<Rightarrow> u8" where
  "unhex c d = word_of_nat (16 * unnib c + unnib d)"

fun hex_decode :: "string \<Rightarrow> string + bytes" where
  "hex_decode [] = Inr []"
| "hex_decode [c] = Inl ''odd length''"
| "hex_decode (c # d # cs) =
     (if is_nib c \<and> is_nib d
      then map_sum id (Cons (unhex c d)) (hex_decode cs)
      else Inl ''bad letter'')"

lemma unat_u8_bound: "unat (b :: u8) < 256"
  using unsigned_less [of b, where 'a = nat] by simp

lemma nib_props: "n < 16 \<Longrightarrow> is_nib (nib n) \<and> unnib (nib n) = n"
  by (simp add: nib_def is_nib_def unnib_def)

lemma unhex_nib: "unhex (nib (unat b div 16)) (nib (unat b mod 16)) = b"
  using nib_props [of "unat b div 16"] nib_props [of "unat b mod 16"] unat_u8_bound [of b]
  by (simp add: unhex_def)

lemma hex_roundtrip: "hex_decode (hex_encode bs) = Inr bs"
proof (induction bs)
  case (Cons b bs)
  have "unat b div 16 < 16" "unat b mod 16 < 16" using unat_u8_bound [of b] by auto
  with nib_props Cons show ?case
    by (simp add: hex_encode_def unhex_nib)
qed (simp add: hex_encode_def)

lemma hex_decode_letters: "hex_decode s = Inr bs \<Longrightarrow> \<forall>c \<in> set s. is_nib c"
proof (induction s arbitrary: bs rule: hex_decode.induct)
  case (3 c d cs)
  from "3.prems" have n: "is_nib c \<and> is_nib d" by (auto split: if_splits)
  with "3.prems" obtain bs' where "hex_decode cs = Inr bs'" by (cases "hex_decode cs") auto
  with "3.IH" [OF n] n show ?case by simp
qed simp_all

lemma hex_encode_letters: "c \<in> set (hex_encode bs) \<Longrightarrow> is_nib c"
  using hex_decode_letters [OF hex_roundtrip] by blast

section \<open>A text codec for JSON\<close>

text \<open>A string is its letters followed by a semicolon.\<close>

definition put_str :: "string \<Rightarrow> string" where
  "put_str s = hex_encode (as_bytes s) @ '';''"

definition take_str :: "string \<Rightarrow> (string \<times> string) option" where
  "take_str t =
     (case hex_decode (takeWhile is_nib t) of
        Inl e \<Rightarrow> None
      | Inr bs \<Rightarrow> (case dropWhile is_nib t of [] \<Rightarrow> None | c # r \<Rightarrow> Some (of_bytes bs, r)))"

lemma take_put_str: "take_str (put_str s @ r) = Some (s, r)"
proof -
  have l: "\<forall>c \<in> set (hex_encode (as_bytes s)). is_nib c" by (blast dest: hex_encode_letters)
  have "\<not> is_nib (CHR '';'')" by (simp add: is_nib_def)
  with l have "takeWhile is_nib (put_str s @ r) = hex_encode (as_bytes s)"
    "dropWhile is_nib (put_str s @ r) = CHR '';'' # r"
    by (simp_all add: put_str_def takeWhile_append2 dropWhile_append2 takeWhile_tail)
  then show ?thesis by (simp add: take_str_def hex_roundtrip)
qed

fun put_json :: "json \<Rightarrow> string"
  and put_items :: "json list \<Rightarrow> string"
  and put_entries :: "(string \<times> json) list \<Rightarrow> string" where
  "put_json JNull = ''n''"
| "put_json (JBool b) = (if b then ''t'' else ''f'')"
| "put_json (JNumber s) = ''#'' @ put_str s"
| "put_json (JString s) = ''$'' @ put_str s"
| "put_json (JArray vs) = ''['' @ put_items vs"
| "put_json (JObject kvs) = ''{'' @ put_entries kvs"
| "put_items [] = '']''"
| "put_items (v # vs) = '','' @ put_json v @ put_items vs"
| "put_entries [] = ''}''"
| "put_entries ((k, v) # kvs) = '','' @ put_str k @ put_json v @ put_entries kvs"

fun take_json :: "nat \<Rightarrow> string \<Rightarrow> (json \<times> string) option"
  and take_items :: "nat \<Rightarrow> string \<Rightarrow> (json list \<times> string) option"
  and take_entries :: "nat \<Rightarrow> string \<Rightarrow> ((string \<times> json) list \<times> string) option" where
  "take_json 0 t = None"
| "take_json (Suc n) t =
     (case t of
        [] \<Rightarrow> None
      | c # r \<Rightarrow>
          if c = CHR ''n'' then Some (JNull, r)
          else if c = CHR ''t'' then Some (JBool True, r)
          else if c = CHR ''f'' then Some (JBool False, r)
          else if c = CHR ''#'' then map_option (map_prod JNumber id) (take_str r)
          else if c = CHR ''$'' then map_option (map_prod JString id) (take_str r)
          else if c = CHR ''['' then map_option (map_prod JArray id) (take_items n r)
          else if c = CHR ''{'' then map_option (map_prod JObject id) (take_entries n r)
          else None)"
| "take_items 0 t = None"
| "take_items (Suc n) t =
     (case t of
        [] \<Rightarrow> None
      | c # r \<Rightarrow>
          if c = CHR '']'' then Some ([], r)
          else if c = CHR '','' then
            Option.bind (take_json n r) (\<lambda>(v, r1).
            Option.bind (take_items n r1) (\<lambda>(vs, r2). Some (v # vs, r2)))
          else None)"
| "take_entries 0 t = None"
| "take_entries (Suc n) t =
     (case t of
        [] \<Rightarrow> None
      | c # r \<Rightarrow>
          if c = CHR ''}'' then Some ([], r)
          else if c = CHR '','' then
            Option.bind (take_str r) (\<lambda>(k, r1).
            Option.bind (take_json n r1) (\<lambda>(v, r2).
            Option.bind (take_entries n r2) (\<lambda>(kvs, r3). Some ((k, v) # kvs, r3))))
          else None)"

lemma take_put_json:
  "length (put_json j) \<le> n \<Longrightarrow> take_json n (put_json j @ r) = Some (j, r)"
  "length (put_items vs) \<le> n \<Longrightarrow> take_items n (put_items vs @ r) = Some (vs, r)"
  "length (put_entries kvs) \<le> n \<Longrightarrow> take_entries n (put_entries kvs @ r) = Some (kvs, r)"
proof (induction j and vs and kvs arbitrary: n r and n r and n r
    rule: put_json_put_items_put_entries.induct)
  case (8 v vs)
  then obtain m where m: "n = Suc m" by (cases n) auto
  with 8 have "take_json m (put_json v @ put_items vs @ r) = Some (v, put_items vs @ r)"
    "take_items m (put_items vs @ r) = Some (vs, r)" by simp_all
  then show ?case by (simp add: m)
next
  case (10 k v kvs)
  then obtain m where m: "n = Suc m" by (cases n) auto
  with 10 have "take_json m (put_json v @ put_entries kvs @ r) = Some (v, put_entries kvs @ r)"
    "take_entries m (put_entries kvs @ r) = Some (kvs, r)" by simp_all
  then show ?case by (simp add: m take_put_str)
next
  case (1 n r)
  then show ?case by (cases n) simp_all
next
  case (2 b n r)
  then show ?case by (cases n; cases b) simp_all
next
  case (3 s n r)
  then show ?case by (cases n) (simp_all add: take_put_str)
next
  case (4 s n r)
  then show ?case by (cases n) (simp_all add: take_put_str)
next
  case (5 vs n r)
  then show ?case by (cases n) simp_all
next
  case (6 kvs n r)
  then show ?case by (cases n) simp_all
next
  case (7 n r)
  then show ?case by (cases n) simp_all
next
  case (9 n r)
  then show ?case by (cases n) simp_all
qed

definition json_parse :: "bytes \<Rightarrow> string + json" where
  "json_parse bs =
     (case take_json (length bs) (of_bytes bs) of
        Some (j, []) \<Rightarrow> Inr j
      | _ \<Rightarrow> Inl ''expected value'')"

lemma json_parse_put: "json_parse (as_bytes (put_json j)) = Inr j"
  using take_put_json(1) [of j "length (put_json j)" "[]"] by (simp add: json_parse_def)

section \<open>The environment\<close>

definition sample_env :: "(nat, nat, nat) env" where
  "sample_env =
     \<lparr>http_do = (\<lambda>log req. Inl ''connection refused''),
      clock = (\<lambda>i. int i),
      uuid_v4 = (\<lambda>i. ''uuid-'' @ show_nat i),
      fill_bytes = (\<lambda>i n. replicate n 7),
      kms_during_post = (\<lambda>log. []),
      kms_during_wait = (\<lambda>log. []),
      url_append = (\<lambda>u ps. Inr u), unix_millis = (\<lambda>i. i),
      ws_open = (\<lambda>i u. Inr ()), ws_send = (\<lambda>i t. Inr ()), ws_setup = (\<lambda>i. ([], True)),
      json_from_slice = json_parse,
      json_to_string = put_json,
      reg_from_slice = (\<lambda>bs. case json_parse bs of
         Inl e \<Rightarrow> Inl e
       | Inr j \<Rightarrow> (case de_registration j of None \<Rightarrow> Inl ''missing field'' | Some r \<Rightarrow> Inr r)),
      device_list_from_slice = (\<lambda>bs. case json_parse bs of
         Inl e \<Rightarrow> Inl e
       | Inr j \<Rightarrow> (case Option.bind (json_get ''devices'' j) as_array of
            None \<Rightarrow> Inl ''missing field'' | Some vs \<Rightarrow> Inr vs)),
      std_encode = hex_encode, std_decode = hex_decode, std_nopad_decode = hex_decode,
      url_encode = hex_encode, url_decode = hex_decode,
      lower = (\<lambda>pre c post. c),
      mention_re = (\<lambda>h. []), person_id_re = (\<lambda>t. None), group_type_re = (\<lambda>t. None),
      gcm_encrypt = (\<lambda>k iv aad msg. Inr (msg @ replicate 16 0)),
      gcm_decrypt = (\<lambda>k iv aad ct. if length ct < 16 then Inl ''aead::Error''
        else Inr (take (length ct - 16) ct)),
      kw_wrap = (\<lambda>k cek. Inr (cek @ replicate 8 0)),
      kw_unwrap = (\<lambda>k wk. Inr (take (length wk - 8) wk)),
      rsa_new = (\<lambda>n e. Inr (length n + length e)),
      rsa_oaep_encrypt = (\<lambda>i k m. Inr m),
      sk_random = (\<lambda>i. i), public_x = (\<lambda>k. replicate 32 1), public_y = (\<lambda>k. replicate 32 2),
      pk_from_sec1 = (\<lambda>p. if length p = 65 then Inr (length p) else Inl ''crypto error''),
      diffie_hellman = (\<lambda>k p. replicate 32 3),
      sha256 = (\<lambda>m. replicate 32 4),
      hkdf_sha256 = (\<lambda>ikm n. Inr (replicate n 5))\<rparr>"

lemma sample_laws:
  "std_roundtrip sample_env" "url_roundtrip sample_env" "url_no_dot sample_env"
  "json_roundtrip sample_env" "gcm_correct sample_env" "kw_correct sample_env"
  "random_length sample_env" "sha256_length sample_env" "hkdf_length sample_env"
  "clock_mono sample_env"
proof -
  have "CHR ''.'' \<notin> set (hex_encode bs)" for bs
    using hex_encode_letters [of "CHR ''.''" bs] by (auto simp: is_nib_def)
  then show "url_no_dot sample_env" by (simp add: url_no_dot_def sample_env_def)
qed (auto simp: sample_env_def std_roundtrip_def url_roundtrip_def hex_roundtrip hex_encode_def [of "[]"] json_roundtrip_def
    json_parse_put gcm_correct_def kw_correct_def random_length_def sha256_length_def
    hkdf_length_def clock_mono_def)

end
