(* ===== verification/Jwe.thy ===== *)
theory Jwe
  imports Sample_Env
begin

text \<open>
  \<^verbatim>\<open>jwe.rs\<close>: JWE compact serialization for the algorithms of the KMS protocol, the Concat KDF and
  the unwrapping of KMS responses. The primitives (AES-GCM, AES key wrap, RSA-OAEP, P-256, SHA-256)
  and the encodings are fields of the environment; what the code does around them is translated
  step by step, the panics included: an unsigned subtraction below zero and a nonce slice whose
  length is not 12 unwind the calling task.
\<close>

datatype 'sk jwe_key = Symmetric bytes | EcdhPrivate 'sk

record jwe_parts =
  header_b64 :: string
  header_bytes :: bytes
  encrypted_key :: bytes
  iv :: bytes
  ciphertext :: bytes
  tag :: bytes

section \<open>Helpers\<close>

definition decode_part :: "('sk, 'pk, 'rsa) env \<Rightarrow> string \<Rightarrow> string \<Rightarrow> bytes result" where
  "decode_part E what part =
     of_sum (\<lambda>e. kms (''Failed to decode '' @ what @ '': '' @ e)) (url_decode E part)"

definition parse_jwe_compact :: "('sk, 'pk, 'rsa) env \<Rightarrow> string \<Rightarrow> jwe_parts result" where
  "parse_jwe_compact E token =
     (let parts = split_on (CHR ''.'') token in
      if length parts \<noteq> 5
      then Err (kms (''Invalid JWE compact: expected 5 parts, got '' @ show_nat (length parts)))
      else
        bind_ok (decode_part E ''JWE header'' (parts ! 0)) (\<lambda>hb.
        bind_ok (decode_part E ''encrypted key'' (parts ! 1)) (\<lambda>ek.
        bind_ok (decode_part E ''IV'' (parts ! 2)) (\<lambda>v.
        bind_ok (decode_part E ''ciphertext'' (parts ! 3)) (\<lambda>ct.
        bind_ok (decode_part E ''tag'' (parts ! 4)) (\<lambda>tg.
        Ok \<lparr>header_b64 = parts ! 0, header_bytes = hb, encrypted_key = ek, iv = v,
            ciphertext = ct, tag = tg\<rparr>))))))"

definition gcm_key_init :: "bytes \<Rightarrow> unit result" where
  "gcm_key_init cek =
     (if length cek = 32 then Ok () else Err (kms (''AES-GCM key init failed: '' @ ''Invalid Length'')))"

definition nonce_from_slice :: "bytes \<Rightarrow> bytes result" where
  "nonce_from_slice v = (if length v = 12 then Ok v else Panic ''assertion failed: nonce length'')"

definition decrypt_a256gcm ::
  "('sk, 'pk, 'rsa) env \<Rightarrow> bytes \<Rightarrow> bytes \<Rightarrow> bytes \<Rightarrow> bytes \<Rightarrow> string \<Rightarrow> bytes result" where
  "decrypt_a256gcm E cek v ct tg aad =
     bind_ok (gcm_key_init cek) (\<lambda>_.
     bind_ok (nonce_from_slice v) (\<lambda>nonce.
     of_sum (\<lambda>e. kms (''AES-GCM decryption failed: '' @ e))
       (gcm_decrypt E cek nonce (as_bytes aad) (ct @ tg))))"

definition u32_be :: "u32 \<Rightarrow> bytes" where
  "u32_be w = [ucast (drop_bit 24 w), ucast (drop_bit 16 w), ucast (drop_bit 8 w), ucast w]"

text \<open>A length written as four big-endian bytes, then the value.\<close>

definition length_prefixed :: "bytes \<Rightarrow> bytes" where
  "length_prefixed bs = u32_be (word_of_nat (length bs)) @ bs"

definition concat_kdf_round ::
  "('sk, 'pk, 'rsa) env \<Rightarrow> bytes \<Rightarrow> string \<Rightarrow> bytes \<Rightarrow> bytes \<Rightarrow> u32 \<Rightarrow> u32 \<Rightarrow> bytes" where
  "concat_kdf_round E shared_secret algorithm_id apu apv key_data_len_bits counter =
     sha256 E (u32_be counter @ shared_secret @ length_prefixed (as_bytes algorithm_id) @
       length_prefixed apu @ length_prefixed apv @ u32_be key_data_len_bits)"

definition concat_kdf ::
  "('sk, 'pk, 'rsa) env \<Rightarrow> bytes \<Rightarrow> string \<Rightarrow> bytes \<Rightarrow> bytes \<Rightarrow> u32 \<Rightarrow> bytes result" where
  "concat_kdf E shared_secret algorithm_id apu apv key_data_len_bits =
     (let key_data_len = unat (key_data_len_bits div 8);
          reps = (key_data_len + 31) div 32;
          derived = concat (map (\<lambda>counter.
             concat_kdf_round E shared_secret algorithm_id apu apv key_data_len_bits (word_of_nat counter))
             [1..<reps + 1])
      in Ok (take key_data_len derived))"

definition enc_key_length :: "string \<Rightarrow> nat" where
  "enc_key_length enc =
     (if enc = ''A128GCM'' then 16
      else if enc = ''A192GCM'' then 24
      else if enc = ''A256GCM'' then 32
      else if enc = ''A128CBC-HS256'' then 32
      else if enc = ''A256CBC-HS512'' then 64
      else 32)"

definition parse_rsa_public_key :: "('sk, 'pk, 'rsa) env \<Rightarrow> json \<Rightarrow> 'rsa result" where
  "parse_rsa_public_key E jwk =
     bind_ok (of_opt (kms ''Missing 'n' in RSA JWK'') (get_str ''n'' jwk)) (\<lambda>n.
     bind_ok (of_opt (kms ''Missing 'e' in RSA JWK'') (get_str ''e'' jwk)) (\<lambda>e.
     bind_ok (decode_part E ''RSA n'' n) (\<lambda>n_bytes.
     bind_ok (decode_part E ''RSA e'' e) (\<lambda>e_bytes.
     of_sum (\<lambda>e. kms (''Invalid RSA public key: '' @ e)) (rsa_new E n_bytes e_bytes)))))"

definition uncompressed_point :: "bytes \<Rightarrow> bytes \<Rightarrow> bytes" where
  "uncompressed_point x y = 0x04 # x @ y"

definition parse_ec_public_key :: "('sk, 'pk, 'rsa) env \<Rightarrow> json \<Rightarrow> 'pk result" where
  "parse_ec_public_key E jwk =
     bind_ok (of_opt (kms ''Missing 'x' in EC JWK'') (get_str ''x'' jwk)) (\<lambda>x.
     bind_ok (of_opt (kms ''Missing 'y' in EC JWK'') (get_str ''y'' jwk)) (\<lambda>y.
     bind_ok (decode_part E ''EC x'' x) (\<lambda>x_bytes.
     bind_ok (decode_part E ''EC y'' y) (\<lambda>y_bytes.
     of_sum (\<lambda>e. kms (''Invalid EC public key: '' @ e))
       (pk_from_sec1 E (uncompressed_point x_bytes y_bytes))))))"

section \<open>Encryption\<close>

text \<open>\<open>format!("{}.{}.{}.{}.{}", ..)\<close>\<close>

definition jwe_compact :: "string \<Rightarrow> string \<Rightarrow> string \<Rightarrow> string \<Rightarrow> string \<Rightarrow> string" where
  "jwe_compact h ek v ct tg = h @ ''.'' @ ek @ ''.'' @ v @ ''.'' @ ct @ ''.'' @ tg"

text \<open>Sealing with a 12-byte nonce and splitting off the tag, the last sixteen bytes.\<close>

definition gcm_seal ::
  "('sk, 'pk, 'rsa) env \<Rightarrow> bytes \<Rightarrow> bytes \<Rightarrow> bytes \<Rightarrow> bytes \<Rightarrow> (bytes \<times> bytes) result" where
  "gcm_seal E cek nonce aad plaintext =
     bind_ok (gcm_key_init cek) (\<lambda>_.
     bind_ok (of_sum (\<lambda>e. kms (''AES-GCM encryption failed: '' @ e)) (gcm_encrypt E cek nonce aad plaintext)) (\<lambda>ct.
     if length ct < 16 then Panic ''attempt to subtract with overflow''
     else Ok (take (length ct - 16) ct, drop (length ct - 16) ct)))"

definition encrypt_rsa_oaep_a256gcm ::
  "('sk, 'pk, 'rsa) env \<Rightarrow> bytes \<Rightarrow> json \<Rightarrow> ('x \<times> world, string) meth" where
  "encrypt_rsa_oaep_a256gcm E plaintext rsa_jwk =
     bindM (liftM (parse_rsa_public_key E rsa_jwk)) (\<lambda>rsa_key.
     bindM (randomM E 32) (\<lambda>cek.
     bindM (randomM E 12) (\<lambda>v.
     let header0 = json_obj [(''alg'', JString ''RSA-OAEP''), (''enc'', JString ''A256GCM'')];
         header = (case get_str ''kid'' rsa_jwk of None \<Rightarrow> header0 | Some kid \<Rightarrow> json_set ''kid'' (JString kid) header0);
         hb64 = url_encode E (as_bytes (json_to_string E header)) in
     bindM (drawM (\<lambda>i. rsa_oaep_encrypt E i rsa_key cek)) (\<lambda>enc.
     bindM (liftM (of_sum (\<lambda>e. kms (''RSA-OAEP encryption failed: '' @ e)) enc)) (\<lambda>ek.
     bindM (liftM (gcm_seal E cek v (as_bytes hb64) plaintext)) (\<lambda>(ct, tg).
     returnM (jwe_compact hb64 (url_encode E ek) (url_encode E v) (url_encode E ct) (url_encode E tg))))))))"

definition encrypt_dir_a256gcm ::
  "('sk, 'pk, 'rsa) env \<Rightarrow> bytes \<Rightarrow> bytes \<Rightarrow> string \<Rightarrow> ('x \<times> world, string) meth" where
  "encrypt_dir_a256gcm E plaintext cek kid =
     bindM (randomM E 12) (\<lambda>v.
     let header0 = json_obj [(''alg'', JString ''dir''), (''enc'', JString ''A256GCM'')];
         header = (if kid \<noteq> [] then json_set ''kid'' (JString kid) header0 else header0);
         hb64 = url_encode E (as_bytes (json_to_string E header)) in
     bindM (liftM (gcm_seal E cek v (as_bytes hb64) plaintext)) (\<lambda>(ct, tg).
     returnM (jwe_compact hb64 [] (url_encode E v) (url_encode E ct) (url_encode E tg))))"

definition encrypt_a256kw_a256gcm ::
  "('sk, 'pk, 'rsa) env \<Rightarrow> bytes \<Rightarrow> bytes \<Rightarrow> ('x \<times> world, string) meth" where
  "encrypt_a256kw_a256gcm E plaintext wrapping_key =
     bindM (randomM E 32) (\<lambda>cek.
     bindM (randomM E 12) (\<lambda>v.
     let header = json_obj [(''alg'', JString ''A256KW''), (''enc'', JString ''A256GCM'')];
         hb64 = url_encode E (as_bytes (json_to_string E header)) in
     bindM (liftM (of_sum (\<lambda>e. kms (''AES key wrap failed: '' @ e)) (kw_wrap E wrapping_key cek))) (\<lambda>wk.
     bindM (liftM (gcm_seal E cek v (as_bytes hb64) plaintext)) (\<lambda>(ct, tg).
     returnM (jwe_compact hb64 (url_encode E wk) (url_encode E v) (url_encode E ct) (url_encode E tg))))))"

section \<open>Decryption\<close>

text \<open>\<open>vec![0u8; encrypted_key.len() - 8]\<close> and the unwrap into it.\<close>

definition unwrap_cek :: "('sk, 'pk, 'rsa) env \<Rightarrow> string \<Rightarrow> bytes \<Rightarrow> bytes \<Rightarrow> bytes result" where
  "unwrap_cek E what key ek =
     (if length ek < 8 then Panic ''attempt to subtract with overflow''
      else of_sum (\<lambda>e. kms (what @ '': '' @ e)) (kw_unwrap E key ek))"

definition decrypt_parts :: "('sk, 'pk, 'rsa) env \<Rightarrow> bytes \<Rightarrow> jwe_parts \<Rightarrow> bytes result" where
  "decrypt_parts E cek parts = decrypt_a256gcm E cek (iv parts) (ciphertext parts) (tag parts) (header_b64 parts)"

definition decrypt_a256kw_a256gcm :: "('sk, 'pk, 'rsa) env \<Rightarrow> string \<Rightarrow> bytes \<Rightarrow> bytes result" where
  "decrypt_a256kw_a256gcm E token wrapping_key =
     bind_ok (parse_jwe_compact E token) (\<lambda>parts.
     bind_ok (unwrap_cek E ''AES key unwrap failed'' wrapping_key (encrypted_key parts)) (\<lambda>cek.
     decrypt_parts E cek parts))"

definition decrypt_dir_a256gcm :: "('sk, 'pk, 'rsa) env \<Rightarrow> string \<Rightarrow> bytes \<Rightarrow> bytes result" where
  "decrypt_dir_a256gcm E token cek =
     bind_ok (parse_jwe_compact E token) (\<lambda>parts. decrypt_parts E cek parts)"

definition parse_header :: "('sk, 'pk, 'rsa) env \<Rightarrow> jwe_parts \<Rightarrow> json result" where
  "parse_header E parts =
     of_sum (\<lambda>e. kms (''Failed to parse JWE header: '' @ e)) (json_from_slice E (header_bytes parts))"

definition header_str :: "string \<Rightarrow> string \<Rightarrow> json \<Rightarrow> string" where
  "header_str dflt k j = (case get_str k j of None \<Rightarrow> dflt | Some s \<Rightarrow> s)"

definition decrypt_message_jwe :: "('sk, 'pk, 'rsa) env \<Rightarrow> string \<Rightarrow> bytes \<Rightarrow> bytes result" where
  "decrypt_message_jwe E token key =
     bind_ok (parse_jwe_compact E token) (\<lambda>parts.
     bind_ok (parse_header E parts) (\<lambda>header_json.
     let alg = header_str [] ''alg'' header_json in
     if alg = ''dir'' then decrypt_parts E key parts
     else if alg = ''A256KW'' then
       bind_ok (unwrap_cek E ''AES key unwrap failed'' key (encrypted_key parts)) (\<lambda>cek.
       decrypt_parts E cek parts)
     else Err (kms (''Unsupported message JWE algorithm: '' @ alg))))"

definition party_info :: "('sk, 'pk, 'rsa) env \<Rightarrow> string \<Rightarrow> json \<Rightarrow> bytes" where
  "party_info E k j =
     (case get_str k j of
        None \<Rightarrow> []
      | Some s \<Rightarrow> (case url_decode E s of Inl e \<Rightarrow> [] | Inr bs \<Rightarrow> bs))"

definition decrypt_ecdh_es :: "('sk, 'pk, 'rsa) env \<Rightarrow> string \<Rightarrow> 'sk \<Rightarrow> bytes result" where
  "decrypt_ecdh_es E token local_private_key =
     bind_ok (parse_jwe_compact E token) (\<lambda>parts.
     bind_ok (parse_header E parts) (\<lambda>header_json.
     let alg = header_str [] ''alg'' header_json;
         enc = header_str ''A256GCM'' ''enc'' header_json in
     bind_ok (of_opt (kms ''No epk in ECDH-ES JWE header'') (json_get ''epk'' header_json)) (\<lambda>epk.
     bind_ok (parse_ec_public_key E epk) (\<lambda>server_public.
     let shared_secret = diffie_hellman E local_private_key server_public;
         apu = party_info E ''apu'' header_json;
         apv = party_info E ''apv'' header_json in
     if alg = ''ECDH-ES'' then
       bind_ok (concat_kdf E shared_secret enc apu apv (word_of_nat (enc_key_length enc * 8))) (\<lambda>cek.
       decrypt_parts E cek parts)
     else if alg = ''ECDH-ES+A256KW'' then
       bind_ok (concat_kdf E shared_secret ''A256KW'' apu apv 256) (\<lambda>kek_bytes.
       if length kek_bytes \<noteq> 32 then Err (kms ''Derived KEK is not 32 bytes'')
       else
         bind_ok (unwrap_cek E ''ECDH-ES+A256KW unwrap failed'' kek_bytes (encrypted_key parts)) (\<lambda>cek.
         decrypt_parts E cek parts))
     else Err (kms (''Unsupported ECDH algorithm: '' @ alg))))))"

definition decrypt_jwe :: "('sk, 'pk, 'rsa) env \<Rightarrow> string \<Rightarrow> 'sk jwe_key \<Rightarrow> bytes result" where
  "decrypt_jwe E token key =
     (case key of
        Symmetric k \<Rightarrow> decrypt_message_jwe E token k
      | EcdhPrivate k \<Rightarrow> decrypt_ecdh_es E token k)"

definition unwrap_kms_response :: "('sk, 'pk, 'rsa) env \<Rightarrow> string \<Rightarrow> 'sk jwe_key \<Rightarrow> bytes result" where
  "unwrap_kms_response E token key =
     (let dot_count = length (filter (\<lambda>c. c = CHR ''.'') token) in
      if dot_count = 4 then decrypt_jwe E token key
      else if dot_count = 2 then
        of_sum (\<lambda>e. kms (''Failed to decode JWS payload: '' @ e)) (url_decode E (split_on (CHR ''.'') token ! 1))
      else Err (kms (''Invalid KMS response format: expected 3 or 5 parts, got '' @ show_nat dot_count @ '' dots'')))"

section \<open>Lemmas\<close>

text \<open>The encodings and ciphers a token passes through, as one hypothesis.\<close>

definition jose_laws :: "('sk, 'pk, 'rsa) env \<Rightarrow> bool" where
  "jose_laws E \<longleftrightarrow> url_roundtrip E \<and> url_no_dot E \<and> json_roundtrip E \<and> gcm_correct E \<and>
     kw_correct E \<and> random_length E"

lemma split_jwe_compact:
  assumes "CHR ''.'' \<notin> set h" "CHR ''.'' \<notin> set ek" "CHR ''.'' \<notin> set v" "CHR ''.'' \<notin> set ct" "CHR ''.'' \<notin> set tg"
  shows "split_on (CHR ''.'') (jwe_compact h ek v ct tg) = [h, ek, v, ct, tg]"
  using assms by (simp add: jwe_compact_def split_on_cons split_on_absent)

lemma parse_encoded:
  assumes "jose_laws E"
  shows "parse_jwe_compact E (jwe_compact (url_encode E hb) (url_encode E ek) (url_encode E v) (url_encode E ct) (url_encode E tg)) =
    Ok \<lparr>header_b64 = url_encode E hb, header_bytes = hb, encrypted_key = ek, iv = v, ciphertext = ct, tag = tg\<rparr>"
proof -
  from assms have d: "url_decode E (url_encode E bs) = Inr bs" "CHR ''.'' \<notin> set (url_encode E bs)" for bs
    by (auto simp: jose_laws_def url_roundtrip_def url_no_dot_def)
  show ?thesis
    by (simp add: parse_jwe_compact_def split_jwe_compact d decode_part_def)
qed

lemma parse_encoded_no_key:
  assumes "jose_laws E"
  shows "parse_jwe_compact E (jwe_compact (url_encode E hb) [] (url_encode E v) (url_encode E ct) (url_encode E tg)) =
    Ok \<lparr>header_b64 = url_encode E hb, header_bytes = hb, encrypted_key = [], iv = v, ciphertext = ct, tag = tg\<rparr>"
proof -
  from assms have "url_encode E [] = []" by (auto simp: jose_laws_def url_roundtrip_def)
  with parse_encoded [OF assms, of hb "[]" v ct tg] show ?thesis by simp
qed

lemma parse_header_encoded:
  "jose_laws E \<Longrightarrow> header_bytes parts = as_bytes (json_to_string E j) \<Longrightarrow> json_wf j \<Longrightarrow> parse_header E parts = Ok j"
  by (simp add: parse_header_def jose_laws_def json_roundtrip_def)

lemma gcm_seal_Ok:
  "gcm_seal E cek nonce aad pt = Ok (ct, tg) \<longleftrightarrow>
     length cek = 32 \<and> (\<exists>c. gcm_encrypt E cek nonce aad pt = Inr c \<and> 16 \<le> length c \<and>
       ct = take (length c - 16) c \<and> tg = drop (length c - 16) c)"
  by (cases "gcm_encrypt E cek nonce aad pt") (auto simp: gcm_seal_def gcm_key_init_def)

lemma gcm_seal_no_panic:
  assumes "jose_laws E" "length nonce = 12"
  shows "\<not> is_panic (gcm_seal E cek nonce aad pt)"
proof (cases "length cek = 32")
  case True
  with assms have "16 \<le> length c" if "gcm_encrypt E cek nonce aad pt = Inr c" for c
    using that unfolding jose_laws_def gcm_correct_def by blast
  with True show ?thesis
    by (cases "gcm_encrypt E cek nonce aad pt") (auto simp: gcm_seal_def gcm_key_init_def)
qed (simp add: gcm_seal_def gcm_key_init_def)

lemma decrypt_sealed:
  assumes "jose_laws E" "length nonce = 12" "gcm_seal E cek nonce (as_bytes aad) pt = Ok (ct, tg)"
  shows "decrypt_a256gcm E cek nonce ct tg aad = Ok pt"
proof -
  from assms(3) obtain c where c: "length cek = 32" "gcm_encrypt E cek nonce (as_bytes aad) pt = Inr c"
    "ct = take (length c - 16) c" "tg = drop (length c - 16) c"
    by (auto simp: gcm_seal_Ok)
  with assms(1,2) have "gcm_decrypt E cek nonce (as_bytes aad) (ct @ tg) = Inr pt"
    by (auto simp: jose_laws_def gcm_correct_def)
  with c assms(2) show ?thesis by (simp add: decrypt_a256gcm_def gcm_key_init_def nonce_from_slice_def)
qed

lemma header_alg:
  "header_str [] ''alg'' (json_obj [(''alg'', JString a), (''enc'', JString b)]) = a"
  "header_str [] ''alg'' (json_set ''kid'' (JString k) (json_obj [(''alg'', JString a), (''enc'', JString b)])) = a"
proof -
  have o: "json_obj [(''alg'', JString a), (''enc'', JString b)] = JObject [(''alg'', JString a), (''enc'', JString b)]"
    by (simp add: json_obj_def)
  show "header_str [] ''alg'' (json_obj [(''alg'', JString a), (''enc'', JString b)]) = a"
    "header_str [] ''alg'' (json_set ''kid'' (JString k) (json_obj [(''alg'', JString a), (''enc'', JString b)])) = a"
    unfolding o by (simp_all add: header_str_def get_str_def json_get_def json_set_def)
qed

lemma header_wf:
  assumes "valid_str a" "valid_str b" "valid_str k"
  shows "json_wf (json_obj [(''alg'', JString a), (''enc'', JString b)])"
    "json_wf (json_set ''kid'' (JString k) (json_obj [(''alg'', JString a), (''enc'', JString b)]))"
proof -
  have "valid_str ''alg''" "valid_str ''enc''" "valid_str ''kid''" by code_simp+
  with assms show "json_wf (json_obj [(''alg'', JString a), (''enc'', JString b)])"
    "json_wf (json_set ''kid'' (JString k) (json_obj [(''alg'', JString a), (''enc'', JString b)]))"
    by (simp_all add: json_obj_def json_set_def)
qed

lemma header_alg_kid:
  "header_str [] ''alg'' (if c then json_set ''kid'' (JString k) (json_obj [(''alg'', JString a), (''enc'', JString b)])
     else json_obj [(''alg'', JString a), (''enc'', JString b)]) = a"
  by (simp add: header_alg)

lemma decrypt_parts_sealed:
  assumes "jose_laws E" "length v = 12" "gcm_seal E cek v (as_bytes h) pt = Ok (ct, tg)"
  shows "decrypt_parts E cek \<lparr>header_b64 = h, header_bytes = hb, encrypted_key = ek, iv = v, ciphertext = ct, tag = tg\<rparr> = Ok pt"
  using decrypt_sealed [OF assms] by (simp add: decrypt_parts_def)

lemma decrypt_a256gcm_panic:
  "is_panic (decrypt_a256gcm E cek v ct tg aad) \<longleftrightarrow> length cek = 32 \<and> length v \<noteq> 12"
  by (auto simp: decrypt_a256gcm_def gcm_key_init_def nonce_from_slice_def)

lemma decrypt_a256gcm_Ok:
  "decrypt_a256gcm E cek v ct tg aad = Ok pt \<longleftrightarrow>
     length cek = 32 \<and> length v = 12 \<and> gcm_decrypt E cek v (as_bytes aad) (ct @ tg) = Inr pt"
  by (auto simp: decrypt_a256gcm_def gcm_key_init_def nonce_from_slice_def)

lemma gcm_seal_Err:
  "gcm_seal E cek nonce aad pt = Err e \<Longrightarrow> length cek = 32 \<Longrightarrow>
     \<exists>m. gcm_encrypt E cek nonce aad pt = Inl m \<and> e = kms (''AES-GCM encryption failed: '' @ m)"
  by (cases "gcm_encrypt E cek nonce aad pt") (auto simp: gcm_seal_def gcm_key_init_def split: if_splits)

section \<open>Properties\<close>

lemma dir_seals:
  assumes "jose_laws E" "length key = 32" "valid_str kid"
  shows "case encrypt_dir_a256gcm E pt key kid s of
      (Ok token, s') \<Rightarrow> decrypt_message_jwe E token key = Ok pt \<and> decrypt_dir_a256gcm E token key = Ok pt
    | (Err e, s') \<Rightarrow> (\<exists>nonce aad m. gcm_encrypt E key nonce aad pt = Inl m \<and> e = kms (''AES-GCM encryption failed: '' @ m))
    | (Panic p, s') \<Rightarrow> False"
proof -
  obtain x w where s: "s = (x, w)" by force
  define v where "v = fill_bytes E (w_ticks w) 12"
  define header where "header =
    (if kid \<noteq> [] then json_set ''kid'' (JString kid) (json_obj [(''alg'', JString ''dir''), (''enc'', JString ''A256GCM'')])
     else json_obj [(''alg'', JString ''dir''), (''enc'', JString ''A256GCM'')])"
  define hb where "hb = as_bytes (json_to_string E header)"
  from assms have v: "length v = 12" by (simp add: v_def jose_laws_def random_length_def)
  have alg: "header_str [] ''alg'' header = ''dir''" unfolding header_def by (rule header_alg_kid)
  have "valid_str ''dir''" "valid_str ''A256GCM''" by code_simp+
  with assms(3) have wf: "json_wf header" unfolding header_def by (simp add: header_wf)
  note run = encrypt_dir_a256gcm_def s effect_defs Let_def v_def [symmetric] header_def [symmetric] hb_def [symmetric]
  show ?thesis
  proof (cases "gcm_seal E key v (as_bytes (url_encode E hb)) pt")
    case (Ok p)
    then obtain ct tg where sealed: "gcm_seal E key v (as_bytes (url_encode E hb)) pt = Ok (ct, tg)" by (cases p) auto
    let ?parts = "\<lparr>header_b64 = url_encode E hb, header_bytes = hb, encrypted_key = [], iv = v, ciphertext = ct, tag = tg\<rparr>"
    have "decrypt_parts E key ?parts = Ok pt" by (rule decrypt_parts_sealed [OF assms(1) v sealed])
    moreover have "parse_header E ?parts = Ok header" by (rule parse_header_encoded [OF assms(1)]) (simp_all add: hb_def wf)
    ultimately show ?thesis
      by (simp add: run sealed decrypt_message_jwe_def decrypt_dir_a256gcm_def parse_encoded_no_key [OF assms(1)] alg)
  next
    case (Err e)
    from gcm_seal_Err [OF this assms(2)] show ?thesis by (auto simp: run Err)
  next
    case (Panic p)
    with gcm_seal_no_panic [OF assms(1) v, of key "as_bytes (url_encode E hb)" pt] show ?thesis by simp
  qed
qed

text \<open>
  C21. Direct encryption: a token made under a 32-byte key is read back by both decryption
  functions that can receive it, whatever the key identifier in the header. Encrypting fails only
  when the cipher itself refuses, and never panics.
\<close>

theorem dir_roundtrip:
  assumes "jose_laws E" "length key = 32" "valid_str kid"
  shows "case encrypt_dir_a256gcm E pt key kid s of
      (Ok token, s') \<Rightarrow> decrypt_message_jwe E token key = Ok pt \<and> decrypt_dir_a256gcm E token key = Ok pt
    | (Err e, s') \<Rightarrow> (\<exists>nonce aad m. gcm_encrypt E key nonce aad pt = Inl m \<and> e = kms (''AES-GCM encryption failed: '' @ m))
    | (Panic p, s') \<Rightarrow> False"
  by (rule dir_seals [OF assms])

lemma dir_reads_back:
  assumes "jose_laws E" "length key = 32" "valid_str kid" "encrypt_dir_a256gcm E pt key kid s = (Ok token, s')"
  shows "decrypt_message_jwe E token key = Ok pt"
  using dir_seals [OF assms(1-3), of pt s] assms(4) by simp

lemma sample_jose_laws: "jose_laws sample_env"
  by (simp add: jose_laws_def sample_laws)

theorem dir_roundtrip_witness:
  "case encrypt_dir_a256gcm sample_env (as_bytes ''hi'') (replicate 32 9) ''kid-1'' ((), world_init) of
      (Ok token, s') \<Rightarrow> decrypt_message_jwe sample_env token (replicate 32 9) = Ok (as_bytes ''hi'') \<and>
        decrypt_dir_a256gcm sample_env token (replicate 32 9) = Ok (as_bytes ''hi'')
    | (Err e, s') \<Rightarrow> (\<exists>nonce aad m. gcm_encrypt sample_env (replicate 32 9) nonce aad (as_bytes ''hi'') = Inl m \<and>
        e = kms (''AES-GCM encryption failed: '' @ m))
    | (Panic p, s') \<Rightarrow> False"
proof -
  have "valid_str ''kid-1''" by code_simp
  then show ?thesis
    using dir_roundtrip [OF sample_jose_laws, of "replicate 32 9" "''kid-1''" "as_bytes ''hi''" "((), world_init)"] by simp
qed

text \<open>
  C22. Key-wrapped encryption: a token made with A256KW under a 32-byte wrapping key is read back
  by both decryption functions. It fails only when the cipher or the key wrap refuses, and never
  panics.
\<close>

theorem a256kw_roundtrip:
  assumes "jose_laws E" "length key = 32"
  shows "case encrypt_a256kw_a256gcm E pt key s of
      (Ok token, s') \<Rightarrow> decrypt_message_jwe E token key = Ok pt \<and> decrypt_a256kw_a256gcm E token key = Ok pt
    | (Err e, s') \<Rightarrow> (\<exists>cek m. kw_wrap E key cek = Inl m \<and> e = kms (''AES key wrap failed: '' @ m)) \<or>
        (\<exists>cek nonce aad m. gcm_encrypt E cek nonce aad pt = Inl m \<and> e = kms (''AES-GCM encryption failed: '' @ m))
    | (Panic p, s') \<Rightarrow> False"
proof -
  obtain x w where s: "s = (x, w)" by force
  define cek where "cek = fill_bytes E (w_ticks w) 32"
  define v where "v = fill_bytes E (Suc (w_ticks w)) 12"
  define header where "header = json_obj [(''alg'', JString ''A256KW''), (''enc'', JString ''A256GCM'')]"
  define hb where "hb = as_bytes (json_to_string E header)"
  from assms have len: "length v = 12" "length cek = 32" by (simp_all add: v_def cek_def jose_laws_def random_length_def)
  have alg: "header_str [] ''alg'' header = ''A256KW''" unfolding header_def by (rule header_alg)
  have "valid_str ''A256KW''" "valid_str ''A256GCM''" by code_simp+
  then have wf: "json_wf header" unfolding header_def by (simp add: header_wf)
  note run = encrypt_a256kw_a256gcm_def s effect_defs Let_def v_def [symmetric] cek_def [symmetric]
    header_def [symmetric] hb_def [symmetric]
  show ?thesis
  proof (cases "kw_wrap E key cek")
    case (Inl m)
    then show ?thesis by (auto simp: run)
  next
    case wrapped: (Inr wk)
    with assms len have wk: "\<not> length wk < 8" "kw_unwrap E key wk = Inr cek"
      by (auto simp: jose_laws_def kw_correct_def)
    show ?thesis
    proof (cases "gcm_seal E cek v (as_bytes (url_encode E hb)) pt")
      case (Ok p)
      then obtain ct tg where sealed: "gcm_seal E cek v (as_bytes (url_encode E hb)) pt = Ok (ct, tg)" by (cases p) auto
      let ?parts = "\<lparr>header_b64 = url_encode E hb, header_bytes = hb, encrypted_key = wk, iv = v, ciphertext = ct, tag = tg\<rparr>"
      have "decrypt_parts E cek ?parts = Ok pt" by (rule decrypt_parts_sealed [OF assms(1) len(1) sealed])
      moreover have "parse_header E ?parts = Ok header" by (rule parse_header_encoded [OF assms(1)]) (simp_all add: hb_def wf)
      ultimately show ?thesis
        by (simp add: run wrapped sealed decrypt_message_jwe_def decrypt_a256kw_a256gcm_def parse_encoded [OF assms(1)]
            alg unwrap_cek_def wk)
    next
      case (Err e)
      with gcm_seal_Err [OF this len(2)] show ?thesis by (simp add: run wrapped) metis
    next
      case (Panic p)
      with gcm_seal_no_panic [OF assms(1) len(1), of cek "as_bytes (url_encode E hb)" pt] show ?thesis by simp
    qed
  qed
qed

theorem a256kw_roundtrip_witness:
  "case encrypt_a256kw_a256gcm sample_env (as_bytes ''hi'') (replicate 32 9) ((), world_init) of
      (Ok token, s') \<Rightarrow> decrypt_message_jwe sample_env token (replicate 32 9) = Ok (as_bytes ''hi'') \<and>
        decrypt_a256kw_a256gcm sample_env token (replicate 32 9) = Ok (as_bytes ''hi'')
    | (Err e, s') \<Rightarrow> (\<exists>cek m. kw_wrap sample_env (replicate 32 9) cek = Inl m \<and> e = kms (''AES key wrap failed: '' @ m)) \<or>
        (\<exists>cek nonce aad m. gcm_encrypt sample_env cek nonce aad (as_bytes ''hi'') = Inl m \<and>
          e = kms (''AES-GCM encryption failed: '' @ m))
    | (Panic p, s') \<Rightarrow> False"
  using a256kw_roundtrip [OF sample_jose_laws, of "replicate 32 9" "as_bytes ''hi''" "((), world_init)"] by simp

text \<open>
  Exactly which message tokens make the decryption panic, under a 32-byte key: a direct token
  whose IV is not twelve bytes, or a key-wrapped token whose encrypted key is shorter than eight
  bytes, or one that unwraps to a 32-byte key and whose IV is not twelve bytes. Every other
  malformed token is an error value.
\<close>

theorem decrypt_message_jwe_panics:
  assumes "length key = 32"
  shows "is_panic (decrypt_message_jwe E token key) \<longleftrightarrow>
    (\<exists>parts header. parse_jwe_compact E token = Ok parts \<and> parse_header E parts = Ok header \<and>
       (header_str [] ''alg'' header = ''dir'' \<and> length (iv parts) \<noteq> 12 \<or>
        header_str [] ''alg'' header = ''A256KW'' \<and>
          (length (encrypted_key parts) < 8 \<or>
           (\<exists>cek. kw_unwrap E key (encrypted_key parts) = Inr cek \<and> length cek = 32 \<and> length (iv parts) \<noteq> 12))))"
proof -
  have "\<not> is_panic (parse_jwe_compact E token)"
    by (auto simp: parse_jwe_compact_def decode_part_def Let_def is_panic_bind_ok)
  moreover have "\<not> is_panic (parse_header E parts)" for parts by (simp add: parse_header_def)
  moreover have "is_panic (unwrap_cek E what key ek) \<longleftrightarrow> length ek < 8" for what ek
    by (simp add: unwrap_cek_def)
  ultimately show ?thesis using assms
    by (cases "parse_jwe_compact E token")
      (auto simp: decrypt_message_jwe_def Let_def is_panic_bind_ok decrypt_parts_def decrypt_a256gcm_panic unwrap_cek_def
        split: if_splits)
qed

definition short_iv_token :: string where
  "short_iv_token = jwe_compact (url_encode sample_env (as_bytes (json_to_string sample_env (json_obj [(''alg'', JString ''dir'')]))))
     [] (url_encode sample_env [1, 2]) (url_encode sample_env []) (url_encode sample_env [])"

lemma short_iv_token_panics: "is_panic (decrypt_message_jwe sample_env short_iv_token (replicate 32 9))"
proof -
  have "header_str [] ''alg'' (json_obj [(''alg'', JString ''dir'')]) = ''dir''"
    by (simp add: header_str_def get_str_def json_get_def json_obj_def)
  moreover have "valid_str ''alg''" "valid_str ''dir''" by code_simp+
  ultimately show ?thesis
    by (simp add: json_obj_def [of "[(''alg'', JString ''dir'')]"] decrypt_message_jwe_def short_iv_token_def parse_encoded_no_key [OF sample_jose_laws]
        parse_header_encoded [OF sample_jose_laws] decrypt_parts_def decrypt_a256gcm_panic)
qed

theorem decrypt_message_jwe_panics_witness:
  "is_panic (decrypt_message_jwe sample_env short_iv_token (replicate 32 9)) \<and>
   (\<exists>parts header. parse_jwe_compact sample_env short_iv_token = Ok parts \<and> parse_header sample_env parts = Ok header \<and>
       (header_str [] ''alg'' header = ''dir'' \<and> length (iv parts) \<noteq> 12 \<or>
        header_str [] ''alg'' header = ''A256KW'' \<and>
          (length (encrypted_key parts) < 8 \<or>
           (\<exists>cek. kw_unwrap sample_env (replicate 32 9) (encrypted_key parts) = Inr cek \<and> length cek = 32 \<and> length (iv parts) \<noteq> 12))))"
  using short_iv_token_panics decrypt_message_jwe_panics [of "replicate 32 9" sample_env short_iv_token] by simp

text \<open>
  The Concat KDF returns exactly the number of bytes asked for, and for a key of at most 256
  bits these are the first bytes of the hash of round one alone: the counter, the shared secret
  and the length-prefixed other-info of RFC 7518.
\<close>

theorem concat_kdf_correct:
  assumes "sha256_length E"
  shows "\<exists>okm. concat_kdf E z alg apu apv bits = Ok okm \<and> length okm = unat (bits div 8) \<and>
    (bits \<le> 256 \<longrightarrow> okm = take (unat (bits div 8)) (concat_kdf_round E z alg apu apv bits 1))"
proof -
  let ?n = "unat (bits div 8)"
  define reps where "reps = (?n + 31) div 32"
  let ?r = "\<lambda>c. concat_kdf_round E z alg apu apv bits (word_of_nat c)"
  have r32: "length (concat_kdf_round E z alg apu apv bits c) = 32" for c
    using assms by (simp add: concat_kdf_round_def sha256_length_def)
  have "length (concat (map ?r [1..<reps + 1])) = 32 * reps"
    by (induction reps) (simp_all add: r32)
  then have len: "length (take ?n (concat (map ?r [1..<reps + 1]))) = ?n" by (simp add: reps_def)
  have "take ?n (concat (map ?r [1..<reps + 1])) = take ?n (?r 1)" if "bits \<le> 256"
  proof -
    from that have "unat bits \<le> 256" by (simp add: word_le_nat_alt)
    then have "?n \<le> 32" by (simp add: unat_div)
    then have "reps = 0 \<and> ?n = 0 \<or> reps = 1" unfolding reps_def by linarith
    then show ?thesis by auto
  qed
  with len show ?thesis unfolding concat_kdf_def Let_def reps_def by simp
qed

theorem concat_kdf_correct_witness:
  "\<exists>okm. concat_kdf sample_env [1] ''A256KW'' [] [] 256 = Ok okm \<and> length okm = unat ((256::u32) div 8) \<and>
    ((256::u32) \<le> 256 \<longrightarrow> okm = take (unat ((256::u32) div 8)) (concat_kdf_round sample_env [1] ''A256KW'' [] [] 256 1))"
  by (rule concat_kdf_correct [OF sample_laws(8)])

lemma unwrap_jws:
  assumes "CHR ''.'' \<notin> set h \<union> set payload \<union> set sig"
  shows "unwrap_kms_response E (h @ ''.'' @ payload @ ''.'' @ sig) key =
    of_sum (\<lambda>e. kms (''Failed to decode JWS payload: '' @ e)) (url_decode E payload)"
proof -
  from assms have "filter (\<lambda>c. c = CHR ''.'') x = []" if "x \<in> {h, payload, sig}" for x
    using that by (auto simp: filter_empty_conv)
  with assms show ?thesis by (simp add: unwrap_kms_response_def split_on_cons)
qed

text \<open>
  A KMS response in JWS form (three parts) is read as its payload whatever the key and
  whatever the signature part: nothing about it is verified. A response with neither two nor four
  dots is an error.
\<close>

theorem unwrap_kms_response_unsigned:
  "(CHR ''.'' \<notin> set h \<union> set payload \<union> set sig \<longrightarrow>
     unwrap_kms_response E (h @ ''.'' @ payload @ ''.'' @ sig) key =
       of_sum (\<lambda>e. kms (''Failed to decode JWS payload: '' @ e)) (url_decode E payload)) \<and>
   (count_list token (CHR ''.'') \<notin> {2, 4} \<longrightarrow> (\<exists>m. unwrap_kms_response E token key = Err (kms m)))"
proof (intro conjI impI)
  assume d: "CHR ''.'' \<notin> set h \<union> set payload \<union> set sig"
  then show "unwrap_kms_response E (h @ ''.'' @ payload @ ''.'' @ sig) key =
      of_sum (\<lambda>e. kms (''Failed to decode JWS payload: '' @ e)) (url_decode E payload)"
    by (rule unwrap_jws)
next
  have c: "count_list t (CHR ''.'') = length (filter (\<lambda>c. c = CHR ''.'') t)" for t
    by (induction t) auto
  assume "count_list token (CHR ''.'') \<notin> {2, 4}"
  then show "\<exists>m. unwrap_kms_response E token key = Err (kms m)"
    by (auto simp: unwrap_kms_response_def c Let_def)
qed

theorem unwrap_kms_response_unsigned_witness:
  "unwrap_kms_response sample_env (''h'' @ ''.'' @ ''ab'' @ ''.'' @ ''forged'') (Symmetric []) =
      of_sum (\<lambda>e. kms (''Failed to decode JWS payload: '' @ e)) (url_decode sample_env ''ab'') \<and>
   (\<exists>m. unwrap_kms_response sample_env ''no dots'' (Symmetric []) = Err (kms m))"
  using unwrap_kms_response_unsigned [of "''h''" "''ab''" "''forged''" sample_env "Symmetric []" "''no dots''"] by simp

end
