(* ===== verification/Kms_Queue.thy ===== *)
theory Kms_Queue
  imports Json "HOL-Library.Sublist"
begin

text \<open>
  The pending requests that \<^verbatim>\<open>kms_client.rs\<close> shares between the client and the Mercury event loop
  (\<open>KmsResponseHandler\<close>). A request registers the sending half of a one-shot channel under its
  identifier and waits on the other half; the event loop resolves the requests first in, first
  out. A channel is known by its request identifier: \<open>pending\<close> holds the senders in the order of
  the \<open>Vec\<close>, \<open>delivered\<close> the values that were sent and whose receivers have not read them.
\<close>

definition MAX_PENDING_REQUESTS :: nat where
  "MAX_PENDING_REQUESTS = 100"

record kms_queue =
  pending :: "string list"
  delivered :: "(string \<times> string) list"

definition queue_init :: kms_queue where
  "queue_init = \<lparr>pending = [], delivered = []\<rparr>"

section \<open>Operations\<close>

text \<open>One entry of the \<open>kmsMessages\<close> array: the body of the loop.\<close>

definition resolve_first :: "json \<Rightarrow> kms_queue \<Rightarrow> kms_queue" where
  "resolve_first raw_msg q =
     (case as_str raw_msg of
        None \<Rightarrow> q
      | Some wrapped \<Rightarrow>
          (case pending q of
             [] \<Rightarrow> q
           | rid # rids \<Rightarrow> q\<lparr>pending := rids, delivered := delivered q @ [(rid, wrapped)]\<rparr>))"

definition kms_messages :: "json \<Rightarrow> json list option" where
  "kms_messages data =
     (case Option.bind (json_get ''kmsMessages'' data) as_array of
        Some msgs \<Rightarrow> Some msgs
      | None \<Rightarrow>
          Option.bind (Option.bind (json_get ''encryption'' data) (json_get ''kmsMessages'')) as_array)"

definition handle_kms_message :: "json \<Rightarrow> kms_queue \<Rightarrow> kms_queue" where
  "handle_kms_message data q =
     (case kms_messages data of
        None \<Rightarrow> q
      | Some msgs \<Rightarrow> fold resolve_first msgs q)"

text \<open>Registration with the bound check, and removal by identifier.\<close>

definition register_pending :: "string \<Rightarrow> kms_queue \<Rightarrow> kms_queue option" where
  "register_pending request_id q =
     (if length (pending q) \<ge> MAX_PENDING_REQUESTS then None
      else Some (q\<lparr>pending := pending q @ [request_id]\<rparr>))"

definition retain_others :: "string \<Rightarrow> kms_queue \<Rightarrow> kms_queue" where
  "retain_others request_id q = q\<lparr>pending := filter (\<lambda>rid. rid \<noteq> request_id) (pending q)\<rparr>"

text \<open>Reading the receiver, and dropping it: an unread value is lost.\<close>

definition received :: "string \<Rightarrow> kms_queue \<Rightarrow> string option" where
  "received request_id q = map_of (delivered q) request_id"

definition drop_receiver :: "string \<Rightarrow> kms_queue \<Rightarrow> kms_queue" where
  "drop_receiver request_id q = q\<lparr>delivered := filter (\<lambda>d. fst d \<noteq> request_id) (delivered q)\<rparr>"

lemmas queue_defs = register_pending_def retain_others_def received_def drop_receiver_def

section \<open>What one Mercury event does\<close>

text \<open>The strings of an event, in order; every other entry is skipped.\<close>

definition answers :: "json \<Rightarrow> string list" where
  "answers data = (case kms_messages data of None \<Rightarrow> [] | Some msgs \<Rightarrow> List.map_filter as_str msgs)"

lemma fold_resolve_first:
  "fold resolve_first msgs q =
     q\<lparr>pending := drop (length (List.map_filter as_str msgs)) (pending q),
       delivered := delivered q @ zip (pending q) (List.map_filter as_str msgs)\<rparr>"
proof (induction msgs arbitrary: q)
  case (Cons m msgs)
  show ?case
  proof (cases "as_str m")
    case None
    then have "resolve_first m q = q" by (simp add: resolve_first_def)
    with None show ?thesis by (simp add: Cons map_filter_simps)
  next
    case (Some s)
    then show ?thesis
      by (cases "pending q") (simp_all add: Cons resolve_first_def [of m] map_filter_simps)
  qed
qed (simp add: map_filter_simps)

text \<open>
  A Mercury event pairs its string entries with the pending requests, oldest first: the i-th
  answer goes to the i-th request, answers beyond the queue are dropped, requests beyond the
  answers stay pending in their order.
\<close>

theorem handle_kms_message_pairs:
  "pending (handle_kms_message data q) = drop (length (answers data)) (pending q) \<and>
   delivered (handle_kms_message data q) = delivered q @ zip (pending q) (answers data)"
  by (cases "kms_messages data")
    (simp_all add: handle_kms_message_def answers_def fold_resolve_first)

lemma pending_handle: "pending (handle_kms_message data q) = drop (length (answers data)) (pending q)"
  and delivered_handle: "delivered (handle_kms_message data q) = delivered q @ zip (pending q) (answers data)"
  by (cases "kms_messages data";
    simp add: handle_kms_message_def answers_def fold_resolve_first)+

section \<open>The queue as a state machine\<close>

text \<open>
  The steps the client and the event loop interleave. A wait ends by reading the channel
  (\<open>Receive\<close>), by the timeout or by a failed POST, both of which take the request out of the queue
  (\<open>Forget\<close>).
\<close>

datatype queue_event = Register string | Refuse string | Message json | Receive string | Forget string

inductive queue_step :: "queue_event \<Rightarrow> kms_queue \<Rightarrow> kms_queue \<Rightarrow> bool" where
  step_register: "register_pending rid q = Some q' \<Longrightarrow> queue_step (Register rid) q q'"
| step_refuse: "register_pending rid q = None \<Longrightarrow> queue_step (Refuse rid) q q"
| step_message: "queue_step (Message data) q (handle_kms_message data q)"
| step_receive: "received rid q = Some w \<Longrightarrow> queue_step (Receive rid) q (drop_receiver rid q)"
| step_forget: "queue_step (Forget rid) q (drop_receiver rid (retain_others rid q))"

inductive_cases queue_stepE: "queue_step e q q'"

inductive queue_run :: "queue_event list \<Rightarrow> kms_queue \<Rightarrow> bool" where
  run_init: "queue_run [] queue_init"
| run_step: "queue_run es q \<Longrightarrow> queue_step e q q' \<Longrightarrow> queue_run (es @ [e]) q'"

text \<open>The requests that entered the queue, in order.\<close>

fun registered :: "queue_event list \<Rightarrow> string list" where
  "registered [] = []"
| "registered (Register rid # es) = rid # registered es"
| "registered (e # es) = registered es"

fun is_forget :: "queue_event \<Rightarrow> bool" where
  "is_forget (Forget rid) = True"
| "is_forget e = False"

lemma registered_append: "registered (es @ fs) = registered es @ registered fs"
  by (induction es rule: registered.induct) simp_all

lemma queue_bound: "queue_step e q q' \<Longrightarrow> length (pending q) \<le> MAX_PENDING_REQUESTS \<Longrightarrow> length (pending q') \<le> MAX_PENDING_REQUESTS"
proof (induction rule: queue_step.induct)
  case (step_forget rid q)
  then show ?case using le_trans [OF length_filter_le [of "\<lambda>r. r \<noteq> rid" "pending q"]] by (simp add: queue_defs)
qed (auto simp: queue_defs pending_handle split: if_splits)

text \<open>
  However registrations, answers, reads, timeouts and failed posts interleave, there are never
  more than a hundred pending requests, and they stand in the order in which they registered.
\<close>

theorem queue_run_ordered:
  assumes "queue_run es q"
  shows "length (pending q) \<le> 100 \<and> subseq (pending q) (registered es)"
  using assms
proof (induction rule: queue_run.induct)
  case run_init
  then show ?case by (simp add: queue_init_def)
next
  case (run_step es q e q')
  then have "length (pending q') \<le> 100"
    using queue_bound [of e q q'] by (simp add: MAX_PENDING_REQUESTS_def)
  moreover from run_step(2) run_step.IH have "subseq (pending q') (registered (es @ [e]))"
  proof (induction rule: queue_step.induct)
    case (step_register rid q q')
    then have "pending q' = pending q @ [rid]" by (auto simp: queue_defs split: if_splits)
    with step_register show ?case by (simp add: registered_append list_emb_append_mono)
  next
    case (step_message data q)
    have "subseq (pending (handle_kms_message data q)) (pending q)"
      by (simp add: pending_handle suffix_drop suffix_imp_subseq)
    with step_message show ?case
      by (simp add: registered_append) (meson subseq_order.order_trans)
  next
    case (step_forget rid q)
    then have "subseq (filter (\<lambda>r. r \<noteq> rid) (pending q)) (registered es)"
      by (meson subseq_filter_left subseq_order.order_trans)
    then show ?case by (simp add: registered_append queue_defs)
  qed (simp_all add: registered_append queue_defs)
  ultimately show ?case ..
qed

theorem queue_run_ordered_witness:
  "\<exists>q. queue_run [Register ''a''] q \<and> length (pending q) \<le> 100 \<and> subseq (pending q) (registered [Register ''a''])"
proof -
  let ?q = "\<lparr>pending = [''a''], delivered = []\<rparr>"
  have "queue_step (Register ''a'') queue_init ?q"
    by (rule step_register) (simp add: queue_defs queue_init_def MAX_PENDING_REQUESTS_def)
  with run_init have "queue_run ([] @ [Register ''a'']) ?q" by (rule run_step)
  then have "queue_run [Register ''a''] ?q" by simp
  with queue_run_ordered [OF this] show ?thesis by blast
qed

text \<open>
  C25. As long as no request is given up, answers are handed out strictly in the order of
  registration: the queue is what is left of the registered requests after their first n, and
  every unread answer belongs to one of those n, in the same order.
\<close>

theorem queue_run_fifo:
  assumes "queue_run es q" "\<not> list_ex is_forget es"
  shows "\<exists>n. pending q = drop n (registered es) \<and> n \<le> length (registered es) \<and>
    subseq (map fst (delivered q)) (take n (registered es))"
  using assms
proof (induction rule: queue_run.induct)
  case run_init
  then show ?case by (simp add: queue_init_def)
next
  case (run_step es q e q')
  then obtain n where n: "pending q = drop n (registered es)" "n \<le> length (registered es)"
    "subseq (map fst (delivered q)) (take n (registered es))" by auto
  from run_step(2) show ?case
  proof cases
    case (step_register rid)
    with n have "pending q' = drop n (registered (es @ [e]))" "n \<le> length (registered (es @ [e]))"
      "subseq (map fst (delivered q')) (take n (registered (es @ [e])))"
      by (auto simp: queue_defs registered_append split: if_splits)
    then show ?thesis by blast
  next
    case (step_message data)
    let ?m = "min (length (pending q)) (length (answers data))"
    have "map fst (delivered q') = map fst (delivered q) @ take ?m (pending q)"
      unfolding step_message delivered_handle by (simp add: map_fst_zip_take)
    moreover have "take (n + ?m) (registered es) = take n (registered es) @ take ?m (pending q)"
      by (simp add: n(1) take_add)
    ultimately have "subseq (map fst (delivered q')) (take (n + ?m) (registered (es @ [e])))"
      using n(3) step_message by (simp add: registered_append list_emb_append_mono)
    moreover have "pending q' = drop (n + ?m) (registered (es @ [e]))" "n + ?m \<le> length (registered (es @ [e]))"
      using step_message n(1,2) by (auto simp: pending_handle registered_append min_def add.commute)
    ultimately show ?thesis by blast
  next
    case (step_receive rid w)
    have "subseq (map fst (delivered q')) (map fst (delivered q))"
      unfolding step_receive(2) drop_receiver_def by (simp add: subseq_map)
    with n(3) have "subseq (map fst (delivered q')) (take n (registered es))" by (meson subseq_order.order_trans)
    with n(1,2) step_receive show ?thesis by (auto simp: registered_append drop_receiver_def)
  next
    case step_refuse
    with n show ?thesis by (auto simp: registered_append)
  next
    case step_forget
    with run_step.prems show ?thesis by simp
  qed
qed

lemma one_answer:
  "kms_messages data = Some [JString w] \<Longrightarrow> answers data = [w]"
  by (simp add: answers_def map_filter_simps)

lemma run_registers_message:
  assumes "kms_messages data = Some [JString w]"
  shows "queue_run [Register a, Register b, Message data] \<lparr>pending = [b], delivered = [(a, w)]\<rparr>"
proof -
  have "queue_run ([] @ [Register a]) \<lparr>pending = [a], delivered = []\<rparr>"
    by (rule run_step [OF run_init step_register]) (simp add: queue_defs queue_init_def MAX_PENDING_REQUESTS_def)
  then have "queue_run (([] @ [Register a]) @ [Register b]) \<lparr>pending = [a, b], delivered = []\<rparr>"
    by (rule run_step [OF _ step_register]) (simp add: queue_defs MAX_PENDING_REQUESTS_def)
  then have "queue_run ((([] @ [Register a]) @ [Register b]) @ [Message data])
      (handle_kms_message data \<lparr>pending = [a, b], delivered = []\<rparr>)"
    by (rule run_step [OF _ step_message])
  moreover have "handle_kms_message data \<lparr>pending = [a, b], delivered = []\<rparr> = \<lparr>pending = [b], delivered = [(a, w)]\<rparr>"
    using assms by (simp add: pending_handle delivered_handle one_answer)
  ultimately show ?thesis by simp
qed

theorem queue_run_fifo_witness:
  "\<exists>n. [''b''] = drop n (registered [Register ''a'', Register ''b'', Message (json_obj [(''kmsMessages'', JArray [JString ''w''])])]) \<and>
    n \<le> length (registered [Register ''a'', Register ''b'', Message (json_obj [(''kmsMessages'', JArray [JString ''w''])])]) \<and>
    subseq (map fst [(''a'', ''w'')])
      (take n (registered [Register ''a'', Register ''b'', Message (json_obj [(''kmsMessages'', JArray [JString ''w''])])]))"
proof -
  have "kms_messages (json_obj [(''kmsMessages'', JArray [JString ''w''])]) = Some [JString ''w'']" by code_simp
  from queue_run_fifo [OF run_registers_message [OF this, of "''a''" "''b''"]] show ?thesis by simp
qed

text \<open>
  A request that is given up leaves no trace of its position, so its answer, when it arrives
  late, is handed to the request registered next: the serialization of requests by the client does
  not make the pairing safe once a timeout has happened.
\<close>

theorem late_answer_reaches_next_request:
  assumes "queue_run es q" "pending q = []" "received b q = None" "answers late = [w]"
  shows "\<exists>q'. queue_run (es @ [Register a, Forget a, Register b, Message late]) q' \<and>
    received b q' = Some w \<and> pending q' = []"
proof -
  let ?q1 = "q\<lparr>pending := [a]\<rparr>"
  let ?q2 = "drop_receiver a (retain_others a ?q1)"
  let ?q3 = "?q2\<lparr>pending := [b]\<rparr>"
  let ?q4 = "handle_kms_message late ?q3"
  have "queue_run (es @ [Register a]) ?q1"
    using assms by (intro run_step [OF assms(1) step_register]) (simp add: queue_defs MAX_PENDING_REQUESTS_def)
  then have "queue_run ((es @ [Register a]) @ [Forget a]) ?q2" by (rule run_step [OF _ step_forget])
  then have "queue_run (((es @ [Register a]) @ [Forget a]) @ [Register b]) ?q3"
    by (rule run_step [OF _ step_register]) (simp add: queue_defs MAX_PENDING_REQUESTS_def)
  then have "queue_run ((((es @ [Register a]) @ [Forget a]) @ [Register b]) @ [Message late]) ?q4"
    by (rule run_step [OF _ step_message])
  moreover have "map_of (filter (\<lambda>d. fst d \<noteq> a) (delivered q)) b = None"
    using assms(3) by (auto simp: received_def map_of_eq_None_iff)
  then have "received b ?q4 = Some w" "pending ?q4 = []"
    using assms(4) by (simp_all add: queue_defs pending_handle delivered_handle map_add_def)
  ultimately show ?thesis by auto
qed

theorem late_answer_reaches_next_request_witness:
  "\<exists>q'. queue_run [Register ''a'', Forget ''a'', Register ''b'', Message (json_obj [(''kmsMessages'', JArray [JString ''answer to a''])])] q' \<and>
    received ''b'' q' = Some ''answer to a'' \<and> pending q' = []"
proof -
  have "answers (json_obj [(''kmsMessages'', JArray [JString ''answer to a''])]) = [''answer to a'']"
    by (rule one_answer) code_simp
  from late_answer_reaches_next_request [OF run_init _ _ this, of "''b''" "''a''"] show ?thesis
    by (simp add: queue_init_def received_def)
qed

end
