(* ===== verification/Url_Validation.thy ===== *)
theory Url_Validation
  imports Errors
begin

text \<open>
  \<^verbatim>\<open>url_validation.rs\<close>: the check that a URL taken from a server response has the required scheme
  and a Webex host. It is the only guard between a server-supplied URL and a request that carries
  the access token, so beside its functional behaviour the theory states what it guarantees about
  the host a URL library would connect to (\<open>uri_host\<close>, after RFC 3986), and where it does not.
\<close>

definition ALLOWED_DOMAIN_SUFFIXES :: "string list" where
  "ALLOWED_DOMAIN_SUFFIXES = [''.webex.com'', ''.wbx2.com'', ''.ciscospark.com'']"

definition validate_webex_url :: "lower_table \<Rightarrow> string \<Rightarrow> string \<Rightarrow> string + unit" where
  "validate_webex_url lw raw_url required_scheme =
     (case find_sub ''://'' raw_url of
        None \<Rightarrow> Inl ''URL missing scheme''
      | Some scheme_end \<Rightarrow>
          let scheme = take scheme_end raw_url in
          if scheme \<noteq> required_scheme
          then Inl (''URL scheme must be '' @ required_scheme @ '', got '' @ scheme)
          else
            let after_scheme = drop (scheme_end + 3) raw_url;
                host = hd (split_on (CHR ''/'') after_scheme);
                host_lower = to_lowercase lw host;
                host_without_port = hd (split_on (CHR '':'') host_lower);
                is_allowed = list_ex
                  (\<lambda>suffix. ends_with suffix host_without_port \<or> host_without_port = drop 1 suffix)
                  ALLOWED_DOMAIN_SUFFIXES
            in if \<not> is_allowed
               then Inl (''URL host '' @ host_without_port @ '' is not a recognized Webex domain'')
               else Inr ())"

section \<open>Specification\<close>

text \<open>A Webex host: one of the three domains or a name below it.\<close>

definition webex_host :: "string \<Rightarrow> bool" where
  "webex_host h \<longleftrightarrow>
     list_ex (\<lambda>d. h = d \<or> ends_with (CHR ''.'' # d) h) [''webex.com'', ''wbx2.com'', ''ciscospark.com'']"

text \<open>
  The host of \<open>scheme://authority...\<close> as RFC 3986 reads it: the authority ends at the first
  slash, question mark or hash; user information up to the last at-sign is dropped; the port
  follows a colon.
\<close>

definition authority_of :: "string \<Rightarrow> string" where
  "authority_of after_scheme = takeWhile (\<lambda>c. c \<notin> {CHR ''/'', CHR ''?'', CHR ''#''}) after_scheme"

definition uri_host :: "string \<Rightarrow> string" where
  "uri_host after_scheme = takeWhile (\<lambda>c. c \<noteq> CHR '':'') (after_last (CHR ''@'') (authority_of after_scheme))"

section \<open>Lemmas\<close>

lemma allowed_iff_webex_host:
  "list_ex (\<lambda>suffix. ends_with suffix h \<or> h = drop (Suc 0) suffix) ALLOWED_DOMAIN_SUFFIXES \<longleftrightarrow> webex_host h"
  by (auto simp: ALLOWED_DOMAIN_SUFFIXES_def webex_host_def)

lemma hd_split_on: "hd (split_on d s) = takeWhile (\<lambda>c. c \<noteq> d) s"
  by (induction s) (auto split: list.splits)

text \<open>The validator in closed form: the scheme matches and the lower-cased host is Webex.\<close>

lemma validate_ok_iff:
  "validate_webex_url lw u sch = Inr () \<longleftrightarrow>
     (\<exists>n. find_sub ''://'' u = Some n \<and> take n u = sch \<and>
        webex_host (takeWhile (\<lambda>c. c \<noteq> CHR '':'')
          (to_lowercase lw (takeWhile (\<lambda>c. c \<noteq> CHR ''/'') (drop (n + 3) u)))))"
  unfolding validate_webex_url_def
  by (simp add: allowed_iff_webex_host Let_def hd_split_on split: option.split)

lemma validate_ok_split:
  assumes "validate_webex_url lw u sch = Inr ()"
  obtains rest where "u = sch @ ''://'' @ rest"
    and "webex_host (takeWhile (\<lambda>c. c \<noteq> CHR '':'')
           (to_lowercase lw (takeWhile (\<lambda>c. c \<noteq> CHR ''/'') rest)))"
proof -
  from assms obtain n where n: "find_sub ''://'' u = Some n" "take n u = sch"
    and h: "webex_host (takeWhile (\<lambda>c. c \<noteq> CHR '':'')
          (to_lowercase lw (takeWhile (\<lambda>c. c \<noteq> CHR ''/'') (drop (n + 3) u))))"
    by (auto simp: validate_ok_iff)
  from find_sub_split [OF n(1)] n(2) have "u = sch @ ''://'' @ drop (n + 3) u" by (simp add: numeral_3_eq_3)
  with h show ?thesis by (rule that [rotated])
qed

lemma find_sub_scheme:
  "CHR '':'' \<notin> set sch \<Longrightarrow> find_sub ''://'' (sch @ ''://'' @ rest) = Some (length sch)"
  by (induction sch) (auto simp: starts_with_def)

lemma validate_at:
  assumes "CHR '':'' \<notin> set sch"
  shows "validate_webex_url lw (sch @ ''://'' @ rest) sch = Inr () \<longleftrightarrow>
    webex_host (takeWhile (\<lambda>c. c \<noteq> CHR '':'')
      (to_lowercase lw (takeWhile (\<lambda>c. c \<noteq> CHR ''/'') rest)))"
  unfolding validate_ok_iff find_sub_scheme [OF assms] by auto

lemma ascii_lower_colon [simp]: "ascii_lower c = CHR '':'' \<longleftrightarrow> c = CHR '':''"
proof
  assume "ascii_lower c = CHR '':''"
  then have "(of_char (ascii_lower c) :: nat) = 58" by simp
  then have "of_char c = (58 :: nat)" by (auto simp: ascii_lower_def Let_def split: if_splits)
  then have "of_char c = (of_char (CHR '':'') :: nat)" by simp
  then show "c = CHR '':''" by (simp only: of_char_eq_iff)
qed (simp add: ascii_lower_def)

lemma takeWhile_map_ascii_lower:
  "takeWhile (\<lambda>c. c \<noteq> CHR '':'') (map ascii_lower s) = map ascii_lower (takeWhile (\<lambda>c. c \<noteq> CHR '':'') s)"
  by (induction s) auto

lemma uri_host_plain:
  assumes "\<forall>c \<in> {CHR ''@'', CHR ''?'', CHR ''#''}. c \<notin> set (takeWhile (\<lambda>c. c \<noteq> CHR ''/'') rest)"
  shows "uri_host rest = takeWhile (\<lambda>c. c \<noteq> CHR '':'') (takeWhile (\<lambda>c. c \<noteq> CHR ''/'') rest)"
proof -
  have "authority_of rest = takeWhile (\<lambda>c. c \<noteq> CHR ''/'') rest"
    using assms by (induction rest) (auto simp: authority_of_def)
  then show ?thesis using assms by (simp add: uri_host_def after_last_def rfind_absent)
qed

section \<open>Properties\<close>



text \<open>
  C37. Completeness: a URL with the required scheme whose authority is an ASCII Webex host in any
  letter case, with or without a port, is accepted whatever path follows.
\<close>

theorem validate_webex_url_complete:
  assumes colon: "CHR '':'' \<notin> set sch"
    and host: "\<forall>c \<in> set host. is_ascii c \<and> c \<noteq> CHR ''/'' \<and> c \<noteq> CHR '':''"
    and webex: "webex_host (map ascii_lower host)"
    and port: "port = [] \<or> hd port = CHR '':''" "\<forall>c \<in> set port. is_ascii c \<and> c \<noteq> CHR ''/''"
    and path: "path = [] \<or> hd path = CHR ''/''"
  shows "validate_webex_url lw (sch @ ''://'' @ host @ port @ path) sch = Inr ()"
proof -
  have "\<forall>c \<in> set (host @ port). c \<noteq> CHR ''/''" using host port(2) by auto
  then have auth: "takeWhile (\<lambda>c. c \<noteq> CHR ''/'') (host @ port @ path) = host @ port"
    using takeWhile_until [of "host @ port" "\<lambda>c. c \<noteq> CHR ''/''" path] path by auto
  have "\<forall>c \<in> set (host @ port). is_ascii c" using host port(2) by auto
  then have "to_lowercase lw (host @ port) = map ascii_lower (host @ port)"
    by (rule to_lowercase_ascii)
  moreover have "takeWhile (\<lambda>c. c \<noteq> CHR '':'') (host @ port) = host"
    using host port(1) by (intro takeWhile_until) auto
  ultimately show ?thesis
    unfolding validate_at [OF colon] auth using webex by (simp only: takeWhile_map_ascii_lower)
qed

theorem validate_webex_url_complete_witness:
  "validate_webex_url (\<lambda>_ c _. c) (''wss'' @ ''://'' @ ''Mercury.Webex.com'' @ '':443'' @ ''/socket'') ''wss'' = Inr ()"
proof -
  have "\<forall>c \<in> set ''Mercury.Webex.com''. is_ascii c \<and> c \<noteq> CHR ''/'' \<and> c \<noteq> CHR '':''" by code_simp
  moreover have "webex_host (map ascii_lower ''Mercury.Webex.com'')" by code_simp
  moreover have "hd '':443'' = CHR '':'' \<and> (\<forall>c \<in> set '':443''. is_ascii c \<and> c \<noteq> CHR ''/'')" by code_simp
  ultimately show ?thesis
    using validate_webex_url_complete
      [of "''wss''" "''Mercury.Webex.com''" "'':443''" "''/socket''" "\<lambda>_ c _. c"] by auto
qed

text \<open>
  The check does not look at user information: for every host name, the URL that puts
  \<open>webex.com:\<close> and an at-sign in front of it is accepted, although the host that RFC 3986 reads
  from it, and that a URL library connects to, is the name itself.
\<close>

theorem validate_webex_url_userinfo_bypass:
  assumes colon: "CHR '':'' \<notin> set sch"
    and h: "\<forall>c \<in> set h. c \<notin> {CHR ''/'', CHR ''?'', CHR ''#'', CHR ''@'', CHR '':''}"
  shows "validate_webex_url lw (sch @ ''://'' @ ''webex.com:@'' @ h) sch = Inr () \<and>
    uri_host (''webex.com:@'' @ h) = h"
proof
  have auth: "takeWhile (\<lambda>c. c \<noteq> CHR ''/'') (''webex.com:@'' @ h) = ''webex.com:@'' @ h"
    using h by (intro takeWhile_eq_all_conv [THEN iffD2]) auto
  have "to_lowercase lw (''webex.com:@'' @ h) = map ascii_lower ''webex.com:@'' @ lower_from lw ''webex.com:@'' h"
    unfolding to_lowercase_def by (subst lower_from_ascii) (auto simp: is_ascii_def)
  moreover have "map ascii_lower ''webex.com:@'' = ''webex.com:@''" by code_simp
  ultimately have "takeWhile (\<lambda>c. c \<noteq> CHR '':'') (to_lowercase lw (''webex.com:@'' @ h)) = ''webex.com''"
    by simp
  moreover have "webex_host ''webex.com''" by code_simp
  ultimately show "validate_webex_url lw (sch @ ''://'' @ ''webex.com:@'' @ h) sch = Inr ()"
    unfolding validate_at [OF colon] auth by simp
next
  have "authority_of (''webex.com:@'' @ h) = ''webex.com:@'' @ h"
    unfolding authority_of_def using h by (intro takeWhile_eq_all_conv [THEN iffD2]) auto
  moreover have "after_last (CHR ''@'') (''webex.com:@'' @ h) = h"
    using after_last_append [of "CHR ''@''" h "''webex.com:''"] h by auto
  moreover have "takeWhile (\<lambda>c. c \<noteq> CHR '':'') h = h"
    using h by (intro takeWhile_eq_all_conv [THEN iffD2]) auto
  ultimately show "uri_host (''webex.com:@'' @ h) = h" by (simp only: uri_host_def)
qed

theorem validate_webex_url_userinfo_bypass_witness:
  "validate_webex_url (\<lambda>_ c _. c) ''https://webex.com:@evil.example'' ''https'' = Inr () \<and>
   uri_host ''webex.com:@evil.example'' = ''evil.example'' \<and> \<not> webex_host ''evil.example''"
  using validate_webex_url_userinfo_bypass [of "''https''" "''evil.example''" "\<lambda>_ c _. c"]
  by (simp add: webex_host_def ends_with_def)

end
