(* ===== verification/Kms_Client.thy ===== *)
theory Kms_Client
  imports Jwe Kms_Queue Url_Validation
begin

text \<open>
  \<^verbatim>\<open>kms_client.rs\<close>: the ECDH handshake with the KMS, the retrieval of content keys with its cache,
  retry and circuit breaker, and the request/response exchange over HTTP and Mercury.

  A method is a program over the client and the world. While a request is posted and while its
  answer is awaited the event loop runs concurrently: the environment gives the KMS messages that
  arrive in the two phases (\<open>kms_during_post\<close>, \<open>kms_during_wait\<close>), and they go through
  \<open>handle_kms_message\<close> on the shared queue. The client itself is held exclusively
  (\<open>&mut self\<close>), so nothing else changes meanwhile.
\<close>

definition MAX_KEY_CACHE_SIZE :: nat where
  "MAX_KEY_CACHE_SIZE = 100"

definition CB_FAILURE_THRESHOLD :: u32 where
  "CB_FAILURE_THRESHOLD = 3"

definition CB_COOLDOWN :: int where
  "CB_COOLDOWN = secs 30"

definition MAX_KMS_ATTEMPTS :: nat where
  "MAX_KMS_ATTEMPTS = 2"

datatype cb_state = Closed | Open | HalfOpen

record kms_client =
  kc_token :: string
  kc_device_url :: string
  kc_user_id :: string
  kc_encryption_service_url :: string
  kc_kms_cluster :: string
  kc_ephemeral_key :: "bytes option"
  kc_ephemeral_key_kid :: string
  kc_context_expiration :: "instant option"
  kc_key_cache :: "(string \<times> bytes) list"
  kc_initialized :: bool
  kc_pending_requests :: kms_queue
  kc_cb_state :: cb_state
  kc_cb_failures :: u32
  kc_cb_last_failure :: "instant option"

definition kms_client_new :: "string \<Rightarrow> string \<Rightarrow> string \<Rightarrow> string \<Rightarrow> kms_client" where
  "kms_client_new token device_url user_id encryption_service_url =
     \<lparr>kc_token = token, kc_device_url = device_url, kc_user_id = user_id,
      kc_encryption_service_url = encryption_service_url, kc_kms_cluster = [],
      kc_ephemeral_key = None, kc_ephemeral_key_kid = [], kc_context_expiration = None,
      kc_key_cache = [], kc_initialized = False, kc_pending_requests = queue_init,
      kc_cb_state = Closed, kc_cb_failures = 0, kc_cb_last_failure = None\<rparr>"

section \<open>The key cache\<close>

text \<open>The \<open>HashMap\<close> of the cache, with the operations the client calls.\<close>

definition cache_get :: "string \<Rightarrow> (string \<times> bytes) list \<Rightarrow> bytes option" where
  "cache_get k m = map_of m k"

definition cache_insert :: "string \<Rightarrow> bytes \<Rightarrow> (string \<times> bytes) list \<Rightarrow> (string \<times> bytes) list" where
  "cache_insert k v m = AList.update k v m"

definition cache_len :: "(string \<times> bytes) list \<Rightarrow> nat" where
  "cache_len m = length m"

definition cache_clear :: "(string \<times> bytes) list \<Rightarrow> (string \<times> bytes) list" where
  "cache_clear m = []"

section \<open>Reading KMS responses\<close>

definition object_at :: "string list \<Rightarrow> json \<Rightarrow> json option" where
  "object_at path data =
     (case pointer path data of None \<Rightarrow> None | Some j \<Rightarrow> if is_object j then Some j else None)"

definition extract_jwk_from_response :: "json \<Rightarrow> json option" where
  "extract_jwk_from_response data =
     (case object_at [''body'', ''key'', ''jwk''] data of
        Some jwk \<Rightarrow> Some jwk
      | None \<Rightarrow>
     (case object_at [''body'', ''key''] data of
        Some key \<Rightarrow> Some key
      | None \<Rightarrow>
     (case object_at [''key'', ''jwk''] data of
        Some jwk \<Rightarrow> Some jwk
      | None \<Rightarrow>
     (case json_get ''key'' data of
        None \<Rightarrow> None
      | Some key \<Rightarrow> if is_object key then Some key else None))))"

definition extract_key_uri :: "json \<Rightarrow> string option" where
  "extract_key_uri data =
     Option.bind (case pointer [''body'', ''key'', ''uri''] data of
         Some v \<Rightarrow> Some v
       | None \<Rightarrow> pointer [''key'', ''uri''] data) as_str"

definition is_retryable_kms_error :: "lower_table \<Rightarrow> webex_error \<Rightarrow> bool" where
  "is_retryable_kms_error lw err =
     (let msg = to_lowercase lw (display err) in
      str_contains ''timed out'' msg \<or> str_contains ''http request failed'' msg)"

section \<open>The exchange\<close>

definition queueM :: "(kms_queue \<Rightarrow> kms_queue) \<Rightarrow> (kms_client \<times> world, 'e, unit) prog" where
  "queueM f = updateM (\<lambda>c. c\<lparr>kc_pending_requests := f (kc_pending_requests c)\<rparr>)"

text \<open>The event loop at work: the messages that arrive go through the response handler.\<close>

definition arriveM :: "(fetch_request list \<Rightarrow> json list) \<Rightarrow> (kms_client \<times> world, 'e, unit) prog" where
  "arriveM f = (\<lambda>(c, w).
     (Ok (), (c\<lparr>kc_pending_requests := fold handle_kms_message (f (w_sent w)) (kc_pending_requests c)\<rparr>, w)))"

definition kms_post :: "('sk, 'pk, 'rsa) env \<Rightarrow> kms_client \<Rightarrow> string \<Rightarrow> fetch_request" where
  "kms_post E c wrapped =
     \<lparr>rq_url = kc_encryption_service_url c @ ''/kms/messages'', rq_method = ''POST'',
      rq_headers = json_headers (kc_token c),
      rq_body = Some (json_to_string E (json_obj
        [(''destination'', JString (kc_kms_cluster c)), (''kmsMessages'', JArray [JString wrapped])]))\<rparr>"

definition send_kms_request ::
  "('sk, 'pk, 'rsa) env \<Rightarrow> string \<Rightarrow> string \<Rightarrow> (kms_client \<times> world, string) meth" where
  "send_kms_request E request_id wrapped =
     bindM (fieldM id) (\<lambda>c.
     case register_pending request_id (kc_pending_requests c) of
       None \<Rightarrow> throwM (kms (''Too many pending KMS requests (max: '' @ show_nat MAX_PENDING_REQUESTS @ '')''))
     | Some q \<Rightarrow>
         bindM (queueM (\<lambda>_. q)) (\<lambda>_.
         matchM (fetchM E (kms_post E c wrapped))
           (\<lambda>resp.
              bindM (arriveM (kms_during_post E)) (\<lambda>_.
              if \<not> rs_ok resp then
                bindM (queueM (\<lambda>q. drop_receiver request_id (retain_others request_id q))) (\<lambda>_.
                throwM (kms (''KMS HTTP request failed: '' @ show_nat (unat (rs_status resp)) @ '' '' @
                  from_utf8_lossy (rs_body resp))))
              else
                bindM (arriveM (kms_during_wait E)) (\<lambda>_.
                bindM (fieldM (\<lambda>c. kc_pending_requests c)) (\<lambda>q.
                bindM (queueM (drop_receiver request_id)) (\<lambda>_.
                case received request_id q of
                  Some response \<Rightarrow> returnM response
                | None \<Rightarrow>
                    if request_id \<notin> set (pending q)
                    then throwM (kms (''KMS request '' @ request_id @ '' channel closed''))
                    else
                      bindM (queueM (retain_others request_id)) (\<lambda>_.
                      throwM (kms (''KMS request '' @ request_id @ '' timed out after 30s''))))))))
           (\<lambda>e.
              bindM (arriveM (kms_during_post E)) (\<lambda>_.
              bindM (queueM (\<lambda>q. drop_receiver request_id (retain_others request_id q))) (\<lambda>_.
              throwM (kms (''KMS HTTP request failed: '' @ e)))))))"

section \<open>The ECDH handshake\<close>

text \<open>\<open>kms_details["rsaPublicKey"]\<close>: a JSON document in a string, or the object itself.\<close>

definition rsa_jwk_of :: "('sk, 'pk, 'rsa) env \<Rightarrow> json \<Rightarrow> json result" where
  "rsa_jwk_of E v =
     (case v of
        JString s \<Rightarrow> of_sum (\<lambda>e. kms (''Failed to parse RSA public key string: '' @ e)) (json_from_slice E (as_bytes s))
      | JObject kvs \<Rightarrow> Ok v
      | _ \<Rightarrow> Err (kms ''Invalid rsaPublicKey format''))"

definition client_json :: "kms_client \<Rightarrow> json" where
  "client_json c = json_obj
     [(''clientId'', JString (kc_device_url c)),
      (''credential'', json_obj
         [(''userId'', JString (kc_user_id c)), (''bearer'', JString (kc_token c))])]"

definition ecdh_request_body :: "('sk, 'pk, 'rsa) env \<Rightarrow> kms_client \<Rightarrow> string \<Rightarrow> 'sk \<Rightarrow> json" where
  "ecdh_request_body E c request_id local_secret = json_obj
     [(''client'', client_json c),
      (''method'', JString ''create''),
      (''uri'', JString (kc_kms_cluster c @ ''/ecdhe'')),
      (''requestId'', JString request_id),
      (''jwk'', json_obj
         [(''kty'', JString ''EC''), (''crv'', JString ''P-256''),
          (''x'', JString (url_encode E (public_x E local_secret))),
          (''y'', JString (url_encode E (public_y E local_secret)))])]"

text \<open>Steps 6 and 7: unwrapping the response, checking the remote key, deriving the shared key.\<close>

definition parse_remote_key :: "('sk, 'pk, 'rsa) env \<Rightarrow> json \<Rightarrow> 'pk result" where
  "parse_remote_key E remote =
     (let kty = header_str [] ''kty'' remote; crv = header_str [] ''crv'' remote in
      if kty \<noteq> ''EC'' \<or> crv \<noteq> ''P-256''
      then Err (kms (''Invalid remote key type: kty='' @ kty @ '', crv='' @ crv))
      else
        bind_ok (of_opt (kms ''Missing x in remote key'') (as_str (json_index remote ''x''))) (\<lambda>x.
        bind_ok (of_opt (kms ''Missing y in remote key'') (as_str (json_index remote ''y''))) (\<lambda>y.
        bind_ok (decode_part E ''remote x'' x) (\<lambda>xb.
        bind_ok (decode_part E ''remote y'' y) (\<lambda>yb.
        of_sum (\<lambda>e. kms (''Failed to parse remote public key: '' @ e))
          (pk_from_sec1 E (uncompressed_point xb yb)))))))"

definition derive_shared :: "('sk, 'pk, 'rsa) env \<Rightarrow> 'sk \<Rightarrow> string \<Rightarrow> (json \<times> bytes) result" where
  "derive_shared E local_secret wrapped_response =
     bind_ok (unwrap_kms_response E wrapped_response (EcdhPrivate local_secret)) (\<lambda>response_body.
     bind_ok (of_sum (\<lambda>e. kms (''Failed to parse ECDH response: '' @ e)) (json_from_slice E response_body)) (\<lambda>data.
     bind_ok (of_opt (kms ''No key in ECDH response'') (extract_jwk_from_response data)) (\<lambda>remote.
     bind_ok (parse_remote_key E remote) (\<lambda>remote_public.
     bind_ok (of_sum (\<lambda>e. kms (''HKDF derivation failed: '' @ e))
       (hkdf_sha256 E (diffie_hellman E local_secret remote_public) 32)) (\<lambda>derived.
     Ok (data, derived))))))"

text \<open>Step 1: the cluster and the RSA key. The cluster is stored before it is validated.\<close>

definition fetch_kms_details :: "('sk, 'pk, 'rsa) env \<Rightarrow> (kms_client \<times> world, json) meth" where
  "fetch_kms_details E =
     bindM (fieldM id) (\<lambda>c.
     bindM (mapErrM (\<lambda>e. kms (''Failed to fetch KMS details: '' @ e))
       (fetchM E \<lparr>rq_url = kc_encryption_service_url c @ ''/kms/'' @ kc_user_id c, rq_method = ''GET'',
                  rq_headers = auth_headers (kc_token c), rq_body = None\<rparr>)) (\<lambda>response.
     if \<not> rs_ok response
     then throwM (kms (''Failed to fetch KMS details: '' @ show_nat (unat (rs_status response))))
     else
       bindM (liftM (of_sum (\<lambda>e. kms (''Failed to parse KMS details: '' @ e)) (json_from_slice E (rs_body response)))) (\<lambda>details.
       bindM (liftM (of_opt (kms ''Missing kmsCluster in KMS details'') (as_str (json_index details ''kmsCluster'')))) (\<lambda>cluster.
       bindM (updateM (\<lambda>c. c\<lparr>kc_kms_cluster := cluster\<rparr>)) (\<lambda>_.
       bindM (liftM (of_sum (\<lambda>e. kms (''Invalid kmsCluster URL: '' @ e)) (validate_webex_url (lower E) cluster ''kms''))) (\<lambda>_.
       liftM (rsa_jwk_of E (json_index details ''rsaPublicKey'')))))))) "

definition initialize :: "('sk, 'pk, 'rsa) env \<Rightarrow> (kms_client \<times> world, unit) meth" where
  "initialize E =
     bindM (fetch_kms_details E) (\<lambda>rsa_jwk.
     bindM (drawM (sk_random E)) (\<lambda>local_secret.
     bindM (uuidM E) (\<lambda>request_id.
     bindM (fieldM (\<lambda>c. ecdh_request_body E c request_id local_secret)) (\<lambda>body.
     bindM (encrypt_rsa_oaep_a256gcm E (as_bytes (json_to_string E body)) rsa_jwk) (\<lambda>wrapped.
     bindM (send_kms_request E request_id wrapped) (\<lambda>wrapped_response.
     bindM (liftM (derive_shared E local_secret wrapped_response)) (\<lambda>(data, derived).
     bindM (updateM (\<lambda>c. c\<lparr>kc_ephemeral_key := Some derived,
        kc_ephemeral_key_kid := (case extract_key_uri data of None \<Rightarrow> [] | Some u \<Rightarrow> u),
        kc_initialized := True\<rparr>)) (\<lambda>_.
     bindM (nowM E) (\<lambda>now.
     updateM (\<lambda>c. c\<lparr>kc_context_expiration := Some (now + secs 3600)\<rparr>))))))))))"

section \<open>Key retrieval\<close>

definition is_context_expired :: "('sk, 'pk, 'rsa) env \<Rightarrow> (kms_client \<times> world, bool) meth" where
  "is_context_expired E =
     bindM (fieldM id) (\<lambda>c.
     if \<not> kc_initialized c then returnM True
     else
       (case kc_context_expiration c of
          None \<Rightarrow> returnM True
        | Some expiry \<Rightarrow> bindM (nowM E) (\<lambda>now. returnM (now > expiry - secs 30))))"

definition retrieve_body :: "kms_client \<Rightarrow> string \<Rightarrow> string \<Rightarrow> json" where
  "retrieve_body c key_uri request_id = json_obj
     [(''client'', client_json c),
      (''method'', JString ''retrieve''),
      (''uri'', JString key_uri),
      (''requestId'', JString request_id)]"

text \<open>From the wrapped response to the 32 key bytes.\<close>

definition read_content_key :: "('sk, 'pk, 'rsa) env \<Rightarrow> bytes \<Rightarrow> string \<Rightarrow> bytes result" where
  "read_content_key E ephemeral_key wrapped_response =
     bind_ok (unwrap_kms_response E wrapped_response (Symmetric ephemeral_key)) (\<lambda>response_body.
     bind_ok (of_sum (\<lambda>e. kms (''Failed to parse key response: '' @ e)) (json_from_slice E response_body)) (\<lambda>data.
     bind_ok (of_opt (kms ''No key found in KMS response'') (extract_jwk_from_response data)) (\<lambda>jwk.
     bind_ok (of_opt (kms ''Missing 'k' in content key JWK'') (as_str (json_index jwk ''k''))) (\<lambda>k_b64.
     bind_ok (decode_part E ''content key'' k_b64) (\<lambda>k_bytes.
     if length k_bytes = 32 then Ok k_bytes else Err (kms ''Content key is not 32 bytes''))))))"

definition store_key :: "string \<Rightarrow> bytes \<Rightarrow> kms_client \<Rightarrow> kms_client" where
  "store_key key_uri content_key c = c\<lparr>
     kc_key_cache := cache_insert key_uri content_key (kc_key_cache c),
     kc_cb_failures := 0,
     kc_cb_state := (if kc_cb_state c = HalfOpen then Closed else kc_cb_state c)\<rparr>"

text \<open>
  A failure is counted with the wrap-around of a release build; the time is taken with it, and the
  third in a row opens the breaker.
\<close>

definition record_failure :: "instant \<Rightarrow> kms_client \<Rightarrow> kms_client" where
  "record_failure now c = (let failures = kc_cb_failures c + 1 in c\<lparr>
     kc_cb_failures := failures,
     kc_cb_last_failure := Some now,
     kc_cb_state := (if failures \<ge> CB_FAILURE_THRESHOLD then Open else kc_cb_state c)\<rparr>)"

fun get_key_attempts ::
  "('sk, 'pk, 'rsa) env \<Rightarrow> string \<Rightarrow> nat list \<Rightarrow> (kms_client \<times> world, bytes) meth" where
  "get_key_attempts E key_uri [] = throwM (kms ''KMS key fetch failed after all retry attempts'')"
| "get_key_attempts E key_uri (attempt # attempts) =
     bindM (fieldM id) (\<lambda>c.
     if \<not> kc_initialized c then throwM (kms ''KMS context not initialized'')
     else
       bindM (liftM (of_opt (kms ''No ephemeral key'') (kc_ephemeral_key c))) (\<lambda>ephemeral_key.
       bindM (uuidM E) (\<lambda>request_id.
       bindM (encrypt_dir_a256gcm E (as_bytes (json_to_string E (retrieve_body c key_uri request_id)))
                ephemeral_key (kc_ephemeral_key_kid c)) (\<lambda>wrapped.
       matchM (send_kms_request E request_id wrapped)
         (\<lambda>wrapped_response.
            bindM (liftM (read_content_key E ephemeral_key wrapped_response)) (\<lambda>content_key.
            bindM (updateM (store_key key_uri content_key)) (\<lambda>_.
            returnM content_key)))
         (\<lambda>e.
            if attempt < MAX_KMS_ATTEMPTS \<and> is_retryable_kms_error (lower E) e
            then bindM (sleepM (secs 1)) (\<lambda>_. get_key_attempts E key_uri attempts)
            else
              bindM (nowM E) (\<lambda>now.
              bindM (updateM (record_failure now)) (\<lambda>_.
              throwM e)))))))"

definition check_breaker :: "('sk, 'pk, 'rsa) env \<Rightarrow> (kms_client \<times> world, unit) meth" where
  "check_breaker E =
     bindM (fieldM id) (\<lambda>c.
     if kc_cb_state c = Open then
       bindM (case kc_cb_last_failure c of
           None \<Rightarrow> returnM True
         | Some t \<Rightarrow> bindM (nowM E) (\<lambda>now. returnM (max 0 (now - t) \<ge> CB_COOLDOWN))) (\<lambda>cooled.
       if cooled then updateM (\<lambda>c. c\<lparr>kc_cb_state := HalfOpen\<rparr>)
       else throwM (kms (''KMS circuit breaker is open '' @ em_dash @ '' skipping key fetch'')))
     else returnM ())"

definition get_key :: "('sk, 'pk, 'rsa) env \<Rightarrow> string \<Rightarrow> (kms_client \<times> world, bytes) meth" where
  "get_key E key_uri =
     bindM (fieldM (\<lambda>c. cache_get key_uri (kc_key_cache c))) (\<lambda>hit.
     case hit of
       Some cached \<Rightarrow> returnM cached
     | None \<Rightarrow>
         bindM (updateM (\<lambda>c. if cache_len (kc_key_cache c) > MAX_KEY_CACHE_SIZE
           then c\<lparr>kc_key_cache := cache_clear (kc_key_cache c)\<rparr> else c)) (\<lambda>_.
         bindM (is_context_expired E) (\<lambda>expired.
         bindM (if expired then initialize E else returnM ()) (\<lambda>_.
         bindM (check_breaker E) (\<lambda>_.
         get_key_attempts E key_uri [1..<MAX_KMS_ATTEMPTS + 1])))))"

end
