(* ===== verification/Kms_Props.thy ===== *)
theory Kms_Props
  imports Kms_Client
begin

text \<open>
  The properties of the KMS client: its invariant, what it sends and where, the cache, the circuit
  breaker, and how a wait is settled.
\<close>

section \<open>The key cache as an interface\<close>

text \<open>
  What \<open>get_key\<close> needs of its map, and the bound that its clearing policy gives: cleared when it
  has more than \<open>n\<close> entries before one is inserted, it never has more than \<open>n + 1\<close>.
\<close>

locale bounded_cache =
  fixes get :: "'k \<Rightarrow> 'm \<Rightarrow> 'v option"
    and ins :: "'k \<Rightarrow> 'v \<Rightarrow> 'm \<Rightarrow> 'm"
    and len :: "'m \<Rightarrow> nat"
    and clr :: "'m \<Rightarrow> 'm"
    and wf :: "'m \<Rightarrow> bool"
  assumes get_ins: "get k (ins k' v m) = (if k = k' then Some v else get k m)"
    and ins_ins: "ins k v (ins k v' m) = ins k v m"
    and len_ins: "len (ins k v m) \<le> Suc (len m)"
    and get_clr: "get k (clr m) = None"
    and len_clr: "len (clr m) = 0"
    and wf_ins: "wf m \<Longrightarrow> wf (ins k v m)"
    and wf_clr: "wf (clr m)"
begin

definition evict :: "nat \<Rightarrow> 'm \<Rightarrow> 'm" where
  "evict n m = (if len m > n then clr m else m)"

lemma len_evict: "len (evict n m) \<le> n"
  by (simp add: evict_def len_clr)

lemma len_evict_ins: "len (ins k v (evict n m)) \<le> Suc n"
  using len_ins [of k v "evict n m"] len_evict [of n m] by linarith

lemma wf_evict: "wf m \<Longrightarrow> wf (evict n m)"
  by (simp add: evict_def wf_clr)

lemma get_evict: "get k (evict n m) = Some v \<Longrightarrow> get k m = Some v"
  by (simp add: evict_def get_clr split: if_splits)

lemma get_ins_evict: "get k (ins k v (evict n m)) = Some v"
  by (simp add: get_ins)

end

interpretation kc: bounded_cache cache_get cache_insert cache_len cache_clear "\<lambda>m. distinct (map fst m)"
proof unfold_locales
  fix k k' :: string and v v' :: bytes and m
  show "cache_get k (cache_insert k' v m) = (if k = k' then Some v else cache_get k m)"
    by (simp add: cache_get_def cache_insert_def update_conv')
  show "cache_insert k v (cache_insert k v' m) = cache_insert k v m"
    by (simp add: cache_insert_def)
  show "cache_len (cache_insert k v m) \<le> Suc (cache_len m)"
    unfolding cache_insert_def cache_len_def by (induction m) auto
  show "distinct (map fst (cache_insert k v m))" if "distinct (map fst m)"
    using that by (simp add: cache_insert_def distinct_update)
qed (simp_all add: cache_get_def cache_clear_def cache_len_def)

section \<open>The invariant\<close>

text \<open>
  Every key the client holds has 32 bytes, an initialized client has an ephemeral key, an open
  breaker knows when it last failed, and the queue is within its bound.
\<close>

definition keys_ok :: "(string \<times> bytes) list \<Rightarrow> bool" where
  "keys_ok m \<longleftrightarrow> distinct (map fst m) \<and> (\<forall>u k. cache_get u m = Some k \<longrightarrow> length k = 32)"

definition kms_inv :: "kms_client \<Rightarrow> bool" where
  "kms_inv c \<longleftrightarrow> keys_ok (kc_key_cache c) \<and>
     (\<forall>k. kc_ephemeral_key c = Some k \<longrightarrow> length k = 32) \<and>
     (kc_initialized c \<longrightarrow> kc_ephemeral_key c \<noteq> None) \<and>
     (kc_cb_state c = Open \<longrightarrow> kc_cb_last_failure c \<noteq> None) \<and>
     length (pending (kc_pending_requests c)) \<le> MAX_PENDING_REQUESTS"

text \<open>
  The identity of a client is set by \<open>kms_client_new\<close> and never written; every request of the
  client goes below its encryption service URL and carries its token.
\<close>

definition kms_ident :: "kms_client \<Rightarrow> string \<times> string \<times> string \<times> string" where
  "kms_ident c = (kc_token c, kc_device_url c, kc_user_id c, kc_encryption_service_url c)"

fun to_kms :: "string \<times> string \<times> string \<times> string \<Rightarrow> fetch_request \<Rightarrow> bool" where
  "to_kms (token, device, user, service) req \<longleftrightarrow>
     starts_with (service @ ''/kms/'') (rq_url req) \<and> rq_headers req ''Authorization'' = Some (bearer token) \<and>
     rq_method req \<in> {''GET'', ''POST''}"

definition kms_ok :: "string \<times> string \<times> string \<times> string \<Rightarrow> kms_client \<Rightarrow> bool" where
  "kms_ok i c \<longleftrightarrow> kms_inv c \<and> kms_ident c = i"

lemma pending_fold_handle: "length (pending (fold handle_kms_message ds q)) \<le> length (pending q)"
proof (induction ds arbitrary: q)
  case (Cons d ds)
  show ?case using le_trans [OF Cons [of "handle_kms_message d q"]] by (simp add: pending_handle)
qed simp

lemma arrive_guarded: "framed (guarded (kms_ok i) P) (arriveM f)"
proof -
  have "length (pending (fold handle_kms_message ds (kc_pending_requests c))) \<le> MAX_PENDING_REQUESTS"
    if "length (pending (kc_pending_requests c)) \<le> MAX_PENDING_REQUESTS" for ds c
    using that pending_fold_handle le_trans by blast
  then show ?thesis
    by (auto simp: framed_def arriveM_def guarded_def kms_ok_def kms_inv_def kms_ident_def requests_def split: prod.splits)
qed

lemma queue_guarded:
  assumes "\<And>q. length (pending (f q)) \<le> length (pending q) \<or> length (pending (f q)) \<le> MAX_PENDING_REQUESTS"
  shows "framed (guarded (kms_ok i) P) (queueM f)"
  unfolding queueM_def
proof (rule guarded_update)
  show "kms_ok i (c\<lparr>kc_pending_requests := f (kc_pending_requests c)\<rparr>)" if "kms_ok i c" for c
    using that assms [of "kc_pending_requests c"] by (auto simp: kms_ok_def kms_inv_def kms_ident_def)
qed

lemma retain_guarded:
  "framed (guarded (kms_ok i) P) (queueM (\<lambda>q. drop_receiver r (retain_others r q)))"
  "framed (guarded (kms_ok i) P) (queueM (retain_others r))"
  "framed (guarded (kms_ok i) P) (queueM (drop_receiver r))"
  by (rule queue_guarded, simp add: queue_defs)+

lemma send_kms_request_guarded: "framed (guarded (kms_ok i) (to_kms i)) (send_kms_request E r w)"
  unfolding send_kms_request_def
  apply (rule guarded_read framed_option guarded.framed_throw)+
  apply (rule guarded.framed_bind)
   apply (rule queue_guarded)
  subgoal by (auto simp: queue_defs split: if_splits)
  apply (rule guarded_rules arrive_guarded retain_guarded | (auto simp: kms_post_def kms_ok_def kms_ident_def json_headers_def starts_with_def))+
  done

lemma fetch_kms_details_guarded: "framed (guarded (kms_ok i) (to_kms i)) (fetch_kms_details E)"
  unfolding fetch_kms_details_def
  by (rule guarded_rules guarded_update |
      (auto simp: kms_ok_def kms_ident_def kms_inv_def auth_headers_def starts_with_def))+

lemma encrypt_guarded:
  "framed (guarded J P) (encrypt_dir_a256gcm E pt k kid)"
  "framed (guarded J P) (encrypt_rsa_oaep_a256gcm E pt jwk)"
  unfolding encrypt_dir_a256gcm_def encrypt_rsa_oaep_a256gcm_def Let_def
  by (rule guarded_rules)+

lemma derive_shared_length:
  "hkdf_length E \<Longrightarrow> derive_shared E sk r = Ok (d, k) \<Longrightarrow> length k = 32"
  by (auto simp: derive_shared_def bind_ok_eq_Ok hkdf_length_def)

lemma initialize_guarded:
  assumes "hkdf_length E"
  shows "framed (guarded (kms_ok i) (to_kms i)) (initialize E)"
  unfolding initialize_def
  by (rule fetch_kms_details_guarded encrypt_guarded send_kms_request_guarded guarded_rules guarded_update |
      (auto simp: kms_ok_def kms_ident_def kms_inv_def derive_shared_length [OF assms]))+

lemma read_content_key_length: "read_content_key E ek r = Ok k \<Longrightarrow> length k = 32"
  by (auto simp: read_content_key_def bind_ok_eq_Ok split: if_splits)

lemma store_key_ok: "length k = 32 \<Longrightarrow> kms_ok i c \<Longrightarrow> kms_ok i (store_key u k c)"
  by (auto simp: kms_ok_def kms_ident_def kms_inv_def keys_ok_def store_key_def kc.get_ins kc.wf_ins split: if_splits)

lemma record_failure_ok: "kms_ok i c \<Longrightarrow> kms_ok i (record_failure now c)"
  by (auto simp: kms_ok_def kms_ident_def kms_inv_def record_failure_def Let_def)

lemma get_key_attempts_guarded: "framed (guarded (kms_ok i) (to_kms i)) (get_key_attempts E u as)"
proof (induction as)
  case (Cons a as)
  show ?case
    unfolding get_key_attempts.simps
    by (rule encrypt_guarded send_kms_request_guarded Cons.IH guarded_rules guarded_update |
        (simp add: store_key_ok read_content_key_length record_failure_ok))+
qed (simp add: guarded.framed_throw)

lemma is_context_expired_guarded: "framed (guarded J P) (is_context_expired E)"
  unfolding is_context_expired_def by (rule guarded_rules)+

lemma check_breaker_guarded: "framed (guarded (kms_ok i) P) (check_breaker E)"
  unfolding check_breaker_def
  by (rule guarded_rules guarded_update | (simp add: kms_ok_def kms_ident_def kms_inv_def))+

lemma clear_ok:
  "kms_ok i c \<Longrightarrow> kms_ok i (c\<lparr>kc_key_cache := cache_clear (kc_key_cache c)\<rparr>)"
  by (auto simp: kms_ok_def kms_ident_def kms_inv_def keys_ok_def kc.get_clr kc.wf_clr)

lemma get_key_guarded:
  assumes "hkdf_length E"
  shows "framed (guarded (kms_ok i) (to_kms i)) (get_key E u)"
  unfolding get_key_def
  by (rule is_context_expired_guarded initialize_guarded [OF assms] check_breaker_guarded
      get_key_attempts_guarded guarded_rules guarded_update | (simp add: clear_ok))+

lemma kms_inv_both:
  assumes "hkdf_length E" "kms_inv (fst s)"
  shows "kms_inv (fst (snd (initialize E s))) \<and> kms_inv (fst (snd (get_key E u s)))"
proof -
  let ?i = "kms_ident (fst s)"
  from assms(2) have ok: "kms_ok ?i (fst s)" by (simp add: kms_ok_def)
  obtain r t where m: "initialize E s = (r, t)" using prod.exhaust by blast
  obtain r' t' where m': "get_key E u s = (r', t')" using prod.exhaust by blast
  from guardedD [OF initialize_guarded [OF assms(1)] m ok] guardedD [OF get_key_guarded [OF assms(1)] m' ok]
  show ?thesis by (simp add: m m' kms_ok_def)
qed

text \<open>
  C19. The invariant of the client holds after every handshake and every key request, whatever the
  servers answer and however the call ends: all cached keys and the ephemeral key are 32 bytes, an
  initialized client has its ephemeral key, an open breaker has the time of its last failure, at
  most a hundred requests are pending.
\<close>

theorem kms_invariant:
  assumes "hkdf_length E" "kms_inv (fst s)"
  shows "kms_inv (fst (snd (initialize E s))) \<and> kms_inv (fst (snd (get_key E u s)))"
  by (rule kms_inv_both [OF assms])

lemma kms_inv_new: "kms_inv (kms_client_new t d u e)"
  by (simp add: kms_inv_def kms_client_new_def keys_ok_def cache_get_def queue_init_def)

theorem kms_invariant_witness:
  "kms_inv (fst (snd (initialize sample_env (kms_client_new ''t'' ''d'' ''u'' ''https://e.wbx2.com'', world_init)))) \<and>
   kms_inv (fst (snd (get_key sample_env ''kms://k/1'' (kms_client_new ''t'' ''d'' ''u'' ''https://e.wbx2.com'', world_init))))"
  by (rule kms_invariant [OF sample_laws(9)]) (simp add: kms_inv_new)

definition own_traffic :: "kms_client \<times> world \<Rightarrow> kms_client \<times> world \<Rightarrow> bool" where
  "own_traffic s s' \<longleftrightarrow> kms_ident (fst s') = kms_ident (fst s) \<and>
     (\<exists>rs. sent_of s' = sent_of s @ rs \<and> list_all (to_kms (kms_ident (fst s))) rs)"

text \<open>
  Where the client sends: every request of a handshake or a key retrieval goes below
  \<open>encryption_service_url/kms/\<close>, is a GET or a POST and carries the bearer token of this client, and no method changes
  the token, the device, the user or the service of the client.
\<close>

theorem kms_requests:
  assumes "hkdf_length E" "kms_inv (fst s)"
  shows "own_traffic s (snd (get_key E u s)) \<and> own_traffic s (snd (initialize E s))"
proof -
  let ?i = "kms_ident (fst s)"
  from assms(2) have ok: "kms_ok ?i (fst s)" by (simp add: kms_ok_def)
  obtain r t where m: "initialize E s = (r, t)" using prod.exhaust by blast
  obtain r' t' where m': "get_key E u s = (r', t')" using prod.exhaust by blast
  from guardedD [OF initialize_guarded [OF assms(1)] m ok] guardedD [OF get_key_guarded [OF assms(1)] m' ok]
  show ?thesis by (simp add: m m' kms_ok_def own_traffic_def requests_def)
qed

definition sample_client :: kms_client where
  "sample_client = kms_client_new ''t'' ''https://d.wbx2.com'' ''u'' ''https://e.wbx2.com''"

lemma sample_client_inv: "kms_inv sample_client"
  by (simp add: sample_client_def kms_inv_new)

theorem kms_requests_witness:
  "own_traffic (sample_client, world_init) (snd (get_key sample_env ''kms://k/1'' (sample_client, world_init))) \<and>
   own_traffic (sample_client, world_init) (snd (initialize sample_env (sample_client, world_init)))"
  by (rule kms_requests [OF sample_laws(9)]) (simp add: sample_client_inv)

section \<open>The cache\<close>

text \<open>
  An object invariant that does not look at what a method writes is kept by it. The exchange
  writes only the queue, the handshake also the key context.
\<close>

lemma send_kms_request_any:
  assumes "\<And>c q. J c \<Longrightarrow> J (c\<lparr>kc_pending_requests := q\<rparr>)"
  shows "framed (guarded J (\<lambda>_. True)) (send_kms_request E r w)"
proof -
  have "framed (guarded J (\<lambda>_. True)) (arriveM f)" for f
    using assms by (auto simp: framed_def arriveM_def guarded_def requests_def split: prod.splits)
  moreover have "framed (guarded J (\<lambda>_. True)) (queueM f)" for f
    unfolding queueM_def using assms by (intro guarded_update)
  ultimately show ?thesis
    unfolding send_kms_request_def by - (rule guarded_rules TrueI | assumption)+
qed

lemma initialize_any:
  assumes "\<And>c q. J c \<Longrightarrow> J (c\<lparr>kc_pending_requests := q\<rparr>)"
    and "\<And>c x. J c \<Longrightarrow> J (c\<lparr>kc_kms_cluster := x\<rparr>)"
    and "\<And>c k i. J c \<Longrightarrow> J (c\<lparr>kc_ephemeral_key := k, kc_ephemeral_key_kid := i, kc_initialized := True\<rparr>)"
    and "\<And>c e. J c \<Longrightarrow> J (c\<lparr>kc_context_expiration := e\<rparr>)"
  shows "framed (guarded J (\<lambda>_. True)) (initialize E)"
  unfolding initialize_def fetch_kms_details_def
  by (rule encrypt_guarded send_kms_request_any guarded_rules guarded_update assms TrueI | assumption)+

lemma encrypt_dir_object:
  "wp (encrypt_dir_a256gcm E pt k kid) (\<lambda>r t. fst t = fst s \<and> sent_of t = sent_of s) s"
  by (simp add: encrypt_dir_a256gcm_def wp_simps Let_def sent_of_def split: prod.split outcome.split)

lemma send_kms_request_cache:
  "wp (send_kms_request E r w) (\<lambda>x t. kc_key_cache (fst t) = kc_key_cache (fst s)) s"
  using wp_guarded [OF send_kms_request_any [of "\<lambda>c. kc_key_cache c = kc_key_cache (fst s)"], of s E r w]
  by (auto elim: wp_weaken)

text \<open>What a key request on a miss may do to a cache \<open>m\<close>: add the key it returns, or nothing.\<close>

fun cache_effect :: "string \<Rightarrow> (string \<times> bytes) list \<Rightarrow> bytes result \<Rightarrow> (string \<times> bytes) list \<Rightarrow> bool" where
  "cache_effect u m (Ok k) m' \<longleftrightarrow> m' = cache_insert u k m \<and> length k = 32"
| "cache_effect u m (Err e) m' \<longleftrightarrow> m' = m"
| "cache_effect u m (Panic p) m' \<longleftrightarrow> m' = m"

lemma get_key_attempts_cache:
  "kc_key_cache (fst s) = m \<Longrightarrow> wp (get_key_attempts E u as) (\<lambda>r t. cache_effect u m r (kc_key_cache (fst t))) s"
proof (induction as arbitrary: s)
  case (Cons a as)
  have send: "wp (send_kms_request E r w) Q t"
    if "\<And>r t'. kc_key_cache (fst t') = kc_key_cache (fst t) \<Longrightarrow> Q r t'" for r w Q t
    by (rule wp_weaken [OF send_kms_request_cache]) (rule that)
  have enc: "wp (encrypt_dir_a256gcm E pt k kid) Q t" if "\<And>r t'. fst t' = fst t \<Longrightarrow> Q r t'" for pt k kid Q t
    by (rule wp_weaken [OF encrypt_dir_object]) (simp add: that)
  from Cons show ?case
    by (auto simp: wp_simps store_key_def record_failure_def Let_def split: outcome.split
        dest: read_content_key_length intro!: send enc)
qed (simp add: wp_simps)

lemma initialize_cache: "wp (initialize E) (\<lambda>r t. kc_key_cache (fst t) = kc_key_cache (fst s)) s"
  using wp_guarded [OF initialize_any [of "\<lambda>c. kc_key_cache c = kc_key_cache (fst s)"], of s E]
  by (auto elim: wp_weaken)

lemma check_breaker_cache: "wp (check_breaker E) (\<lambda>r t. kc_key_cache (fst t) = kc_key_cache (fst s)) s"
  by (auto simp: check_breaker_def wp_simps split: option.split outcome.split)

lemma is_context_expired_object: "wp (is_context_expired E) (\<lambda>r t. (\<exists>b. r = Ok b) \<and> fst t = fst s \<and> sent_of t = sent_of s) s"
  by (auto simp: is_context_expired_def wp_simps sent_of_def split: option.split)

lemma get_key_effect:
  "case cache_get u (kc_key_cache (fst s)) of
     Some k \<Rightarrow> get_key E u s = (Ok k, s)
   | None \<Rightarrow> (let m = kc_key_cache (fst s); m' = (if cache_len m > 100 then [] else m) in
       cache_effect u m' (fst (get_key E u s)) (kc_key_cache (fst (snd (get_key E u s)))))"
proof (cases "cache_get u (kc_key_cache (fst s))")
  case None
  define m where "m = (if cache_len (kc_key_cache (fst s)) > 100 then [] else kc_key_cache (fst s))"
  let ?I = "\<lambda>t :: kms_client \<times> world. kc_key_cache (fst t) = m"
  let ?Q = "\<lambda>r t. cache_effect u m r (kc_key_cache (fst t))"
  have attempts: "wp (bindM (check_breaker E) (\<lambda>_. get_key_attempts E u as)) ?Q t" if t: "?I t" for t as
  proof (rule wp_bind_inv [where I = ?I])
    show "wp (check_breaker E) (\<lambda>r. ?I) t" using check_breaker_cache by (rule wp_weaken) (simp add: t)
  qed (simp_all add: get_key_attempts_cache)
  have handshake: "wp (bindM (if expired then initialize E else returnM ()) (\<lambda>_.
      bindM (check_breaker E) (\<lambda>_. get_key_attempts E u as))) ?Q t" if t: "?I t" for expired t as
  proof (rule wp_bind_inv [where I = ?I])
    have "wp (initialize E) (\<lambda>r. ?I) t" using initialize_cache by (rule wp_weaken) (simp add: t)
    then show "wp (if expired then initialize E else returnM ()) (\<lambda>r. ?I) t" using t by (simp add: wp_return)
  qed (simp_all add: attempts)
  have body: "wp (bindM (is_context_expired E) (\<lambda>expired. bindM (if expired then initialize E else returnM ()) (\<lambda>_.
      bindM (check_breaker E) (\<lambda>_. get_key_attempts E u as)))) ?Q t" if t: "?I t" for t as
  proof (rule wp_bind_inv [where I = ?I])
    show "wp (is_context_expired E) (\<lambda>r. ?I) t" using is_context_expired_object by (rule wp_weaken) (simp add: t)
  qed (simp_all add: handshake)
  from body have "wp (get_key E u) ?Q s"
    unfolding get_key_def by (simp add: wp_field wp_update wp_bind [of "fieldM f" for f] wp_bind [of "updateM f" for f] None
        MAX_KEY_CACHE_SIZE_def cache_clear_def m_def)
  then show ?thesis by (simp add: None wp_def Let_def m_def)
qed (auto simp: get_key_def effect_defs split_beta)

text \<open>
  C20. What a key request does to the cache. On a hit it returns the cached key and changes
  nothing, neither the client nor the world. On a miss the cache is first cleared if it has more
  than a hundred entries; then a success returns a 32-byte key and enters exactly that key under
  the URI, and any failure leaves the cache as it is.
\<close>

theorem get_key_cache:
  "case cache_get u (kc_key_cache (fst s)) of
     Some k \<Rightarrow> get_key E u s = (Ok k, s)
   | None \<Rightarrow> (let m = kc_key_cache (fst s); m' = (if cache_len m > 100 then [] else m) in
       cache_effect u m' (fst (get_key E u s)) (kc_key_cache (fst (snd (get_key E u s)))))"
  by (rule get_key_effect)

section \<open>The circuit breaker\<close>

text \<open>
  C31. With the breaker open and its cooldown not over, a key that is not cached is refused at once
  while the key context is valid: no request is sent, nothing is drawn but two readings of the
  clock, and the client is unchanged but for the clearing of an oversized cache.
\<close>

theorem get_key_breaker_open:
  assumes "cache_get u (kc_key_cache c) = None"
    and "kc_initialized c" "kc_context_expiration c = Some expiry" "clock E (w_ticks w) \<le> expiry - secs 30"
    and "kc_cb_state c = Open" "kc_cb_last_failure c = Some t" "clock E (Suc (w_ticks w)) - t < secs 30"
  shows "get_key E u (c, w) =
    (Err (kms (''KMS circuit breaker is open '' @ em_dash @ '' skipping key fetch'')),
     (if cache_len (kc_key_cache c) > 100 then c\<lparr>kc_key_cache := []\<rparr> else c, w\<lparr>w_ticks := w_ticks w + 2\<rparr>))"
  using assms
  by (auto simp: get_key_def is_context_expired_def check_breaker_def effect_defs MAX_KEY_CACHE_SIZE_def
      CB_COOLDOWN_def cache_clear_def secs_def)

definition open_client :: kms_client where
  "open_client = sample_client\<lparr>kc_initialized := True, kc_ephemeral_key := Some (replicate 32 1),
     kc_context_expiration := Some (secs 3600), kc_cb_state := Open, kc_cb_failures := 3, kc_cb_last_failure := Some 0\<rparr>"

theorem get_key_breaker_open_witness:
  "get_key sample_env ''kms://k/1'' (open_client, world_init) =
    (Err (kms (''KMS circuit breaker is open '' @ em_dash @ '' skipping key fetch'')),
     (if cache_len (kc_key_cache open_client) > 100 then open_client\<lparr>kc_key_cache := []\<rparr> else open_client,
      world_init\<lparr>w_ticks := w_ticks world_init + 2\<rparr>))"
proof -
  have "clock sample_env n = int n" for n by (simp add: sample_env_def)
  then show ?thesis
    using get_key_breaker_open [of "''kms://k/1''" open_client "secs 3600" sample_env world_init 0]
    by (simp add: open_client_def sample_client_def kms_client_new_def cache_get_def world_init_def secs_def)
qed

definition kms_details_request :: "kms_client \<Rightarrow> fetch_request" where
  "kms_details_request c = \<lparr>rq_url = kc_encryption_service_url c @ ''/kms/'' @ kc_user_id c, rq_method = ''GET'',
     rq_headers = auth_headers (kc_token c), rq_body = None\<rparr>"

lemma framed_True:
  "framed (guarded (\<lambda>_. True) (\<lambda>_. True)) (send_kms_request E r w)"
  "framed (guarded (\<lambda>_. True) (\<lambda>_. True)) (get_key_attempts E u as)"
  "framed (guarded (\<lambda>_. True) (\<lambda>_. True)) (check_breaker E)"
proof -
  show send: "framed (guarded (\<lambda>_. True) (\<lambda>_. True)) (send_kms_request E r w)" for r w
    by (rule send_kms_request_any) simp
  show "framed (guarded (\<lambda>_. True) (\<lambda>_. True)) (get_key_attempts E u as)"
  proof (induction as)
    case (Cons a as)
    show ?case unfolding get_key_attempts.simps
      by (rule encrypt_guarded send Cons.IH guarded_rules guarded_update TrueI)+
  qed (simp add: guarded.framed_throw)
  show "framed (guarded (\<lambda>_. True) (\<lambda>_. True)) (check_breaker E)"
    unfolding check_breaker_def by (rule guarded_rules guarded_update TrueI)+
qed

lemma initialize_first_request:
  "wp (initialize E) (\<lambda>r t. \<exists>rs. sent_of t = (sent_of s @ [kms_details_request (fst s)]) @ rs) s"
  unfolding initialize_def
proof (rule wp_bind_log)
  show "wp (fetch_kms_details E) (\<lambda>r t. \<exists>rs. sent_of t = (sent_of s @ [kms_details_request (fst s)]) @ rs) s"
    unfolding fetch_kms_details_def wp_bind [of "fieldM f" for f] wp_field outcome.case
    by (rule wp_bind_log) (simp add: wp_map_err wp_fetch kms_details_request_def sent_of_def, (rule guarded_rules guarded_update TrueI)+)
qed (rule framed_True encrypt_guarded guarded_rules guarded_update TrueI)+

lemma is_context_expired_True:
  assumes "\<not> kc_initialized (fst s) \<or> kc_context_expiration (fst s) = None \<or>
      (\<exists>expiry. kc_context_expiration (fst s) = Some expiry \<and> clock E (w_ticks (snd s)) > expiry - secs 30)"
  shows "wp (is_context_expired E) (\<lambda>r t. r = Ok True \<and> fst t = fst s \<and> sent_of t = sent_of s) s"
  using assms by (auto simp: is_context_expired_def wp_simps sent_of_def split: option.split)

text \<open>
  The breaker does not guard the handshake: when the key context is missing or expired, a
  key that is not cached starts by fetching the KMS details, whatever the state of the breaker.
\<close>

theorem get_key_breaker_bypassed:
  assumes "cache_get u (kc_key_cache c) = None"
    and "\<not> kc_initialized c \<or> kc_context_expiration c = None \<or>
      (\<exists>expiry. kc_context_expiration c = Some expiry \<and> clock E (w_ticks w) > expiry - secs 30)"
  shows "\<exists>rs. sent_of (snd (get_key E u (c, w))) = w_sent w @ kms_details_request c # rs"
proof -
  let ?c = "if cache_len (kc_key_cache c) > MAX_KEY_CACHE_SIZE then c\<lparr>kc_key_cache := cache_clear (kc_key_cache c)\<rparr> else c"
  let ?Q = "\<lambda>r t. \<exists>rs. sent_of t = (w_sent w @ [kms_details_request c]) @ rs"
  have hs: "wp (bindM (initialize E) (\<lambda>_. bindM (check_breaker E) (\<lambda>_. get_key_attempts E u as))) ?Q t"
    if "fst t = ?c" "sent_of t = w_sent w" for t as
  proof (rule wp_bind_log)
    have "kms_details_request ?c = kms_details_request c" by (simp add: kms_details_request_def)
    with that show "wp (initialize E) ?Q t" using initialize_first_request [of E t] by simp
  qed (rule framed_True guarded_rules)+
  have "wp (is_context_expired E) (\<lambda>r t. r = Ok True \<and> fst t = ?c \<and> sent_of t = w_sent w) (?c, w)"
    using is_context_expired_True [of "(?c, w)" E] assms(2) by simp
  then have "wp (bindM (is_context_expired E) (\<lambda>expired. bindM (if expired then initialize E else returnM ()) (\<lambda>_.
      bindM (check_breaker E) (\<lambda>_. get_key_attempts E u as)))) ?Q (?c, w)" for as
    unfolding wp_bind [of "is_context_expired E"] by (rule wp_weaken) (use hs in simp)
  then have "wp (get_key E u) ?Q (c, w)"
    by (simp only: get_key_def wp_field wp_update wp_bind [of "fieldM f" for f] wp_bind [of "updateM f" for f]
        outcome.case option.case fst_conv snd_conv assms(1))
  then show ?thesis by (simp add: wp_def)
qed

theorem get_key_breaker_bypassed_witness:
  "\<exists>rs. sent_of (snd (get_key sample_env ''kms://k/1'' (open_client\<lparr>kc_initialized := False\<rparr>, world_init))) =
     w_sent world_init @ kms_details_request (open_client\<lparr>kc_initialized := False\<rparr>) # rs"
  by (rule get_key_breaker_bypassed) (simp_all add: open_client_def sample_client_def kms_client_new_def cache_get_def)

section \<open>Traffic\<close>

lemma queue_quiet:
  "framed (guarded (\<lambda>_. True) P) (queueM f)" "framed (guarded (\<lambda>_. True) P) (arriveM g)"
  by (auto simp: queueM_def arriveM_def framed_def guarded_def requests_def effect_defs)

lemma breaker_quiet: "framed (guarded (\<lambda>_. True) P) (check_breaker E)"
  unfolding check_breaker_def by (rule guarded_rules guarded_update TrueI)+

lemmas quiet_rules = encrypt_guarded queue_quiet breaker_quiet is_context_expired_guarded guarded_rules guarded_update TrueI

lemma sends_queue: "sends_at_most any_request 0 (queueM f)"
  by (rule sends_zero queue_quiet)+

lemma sends_send: "sends_at_most any_request 1 (send_kms_request E r w)"
proof -
  have "sends_at_most any_request (0 + (0 + (1 + 0))) (send_kms_request E r w)"
    unfolding send_kms_request_def
    apply (rule sends_bind sends_pure(6) sends_option sends_queue sends_match sends_fetch)+
       apply (rule sends_mono [OF sends_pure(3)], simp)
      apply (rule sends_bind sends_queue sends_match sends_fetch)+
     apply (rule sends_zero, (rule quiet_rules)+)+
    done
  then show ?thesis by simp
qed

lemma sends_initialize: "sends_at_most any_request 2 (initialize E)"
proof -
  have "sends_at_most any_request (0 + (1 + 0)) (fetch_kms_details E)"
    unfolding fetch_kms_details_def
    by (rule sends_bind sends_pure(6) sends_map_err sends_fetch)+ (rule sends_zero, (rule quiet_rules)+)
  then have "sends_at_most any_request (1 + (0 + (0 + (0 + (0 + (1 + 0)))))) (initialize E)"
    unfolding initialize_def
    by - (rule sends_bind sends_pure sends_send | assumption | simp | (rule sends_zero, (rule quiet_rules)+))+
  then show ?thesis by (simp add: numeral_2_eq_2)
qed

lemma sends_attempts: "sends_at_most any_request (length as) (get_key_attempts E u as)"
proof (induction as)
  case (Cons a as)
  have m: "sends_at_most any_request (Suc (length as)) (matchM (send_kms_request E r w)
      (\<lambda>wr. bindM (liftM (read_content_key E ek wr)) (\<lambda>k. bindM (updateM (store_key u k)) (\<lambda>_. returnM k)))
      (\<lambda>e. if a < MAX_KMS_ATTEMPTS \<and> is_retryable_kms_error (lower E) e
         then bindM (sleepM (secs 1)) (\<lambda>_. get_key_attempts E u as)
         else bindM (nowM E) (\<lambda>now. bindM (updateM (record_failure now)) (\<lambda>_. throwM e))))" for r w ek
    unfolding plus_1_eq_Suc [symmetric]
    by (rule sends_match sends_send sends_if sends_bind_quiet Cons.IH quiet_rules | (rule sends_quiet, (rule quiet_rules)+))+
  show ?case
    unfolding get_key_attempts.simps length_Cons
    by (rule sends_if m sends_bind_quiet quiet_rules | (rule sends_quiet, (rule quiet_rules)+))+
qed (simp add: sends_pure)

lemma attempts_count: "length [1..<MAX_KMS_ATTEMPTS + 1] = 2"
  by (simp add: MAX_KMS_ATTEMPTS_def)

text \<open>
  C32. A key request sends at most four HTTP requests, two for a handshake and two attempts, and at
  most two when the key context is valid; there is no unbounded retry.
\<close>

theorem get_key_traffic:
  "length (sent_of (snd (get_key E u s))) \<le> length (sent_of s) + 4 \<and>
   (kc_initialized (fst s) \<and> (\<exists>expiry. kc_context_expiration (fst s) = Some expiry \<and> clock E (w_ticks (snd s)) \<le> expiry - secs 30) \<longrightarrow>
     length (sent_of (snd (get_key E u s))) \<le> length (sent_of s) + 2)"
proof -
  have rest: "sends_at_most any_request 2 (bindM (check_breaker E) (\<lambda>_. get_key_attempts E u [1..<MAX_KMS_ATTEMPTS + 1]))"
    by (rule sends_bind_quiet quiet_rules)+ (use sends_attempts [of "[1..<MAX_KMS_ATTEMPTS + 1]" E u] in \<open>simp only: attempts_count\<close>)
  have hs: "sends_at_most any_request (2 + 2) (bindM (if expired then initialize E else returnM ())
      (\<lambda>_. bindM (check_breaker E) (\<lambda>_. get_key_attempts E u [1..<MAX_KMS_ATTEMPTS + 1])))" for expired
    by (rule sends_bind [OF sends_if [OF sends_initialize] rest]) (rule sends_quiet, (rule quiet_rules)+)
  have four: "sends_at_most any_request (2 + 2) (get_key E u)"
    unfolding get_key_def by (rule hs sends_bind_quiet sends_option quiet_rules | (rule sends_quiet, (rule quiet_rules)+))+
  have two: "wp (get_key E u) (\<lambda>r t. length (sent_of t) \<le> length (sent_of s) + 2) s"
    if "kc_initialized (fst s)" "kc_context_expiration (fst s) = Some expiry" "clock E (w_ticks (snd s)) \<le> expiry - secs 30" for expiry
  proof -
    let ?c = "if cache_len (kc_key_cache (fst s)) > MAX_KEY_CACHE_SIZE
      then (fst s)\<lparr>kc_key_cache := cache_clear (kc_key_cache (fst s))\<rparr> else fst s"
    have "is_context_expired E (?c, snd s) = (Ok False, (?c, (snd s)\<lparr>w_ticks := Suc (w_ticks (snd s))\<rparr>))"
      using that by (auto simp: is_context_expired_def effect_defs split_beta)
    moreover have ticks_log: "w_sent ((snd s)\<lparr>w_ticks := n\<rparr>) = w_sent (snd s)" for n by simp
    have "wp (bindM (check_breaker E) (\<lambda>_. get_key_attempts E u [1..<MAX_KMS_ATTEMPTS + 1]))
        (\<lambda>r t. length (sent_of t) \<le> length (sent_of s) + 2) (?c, (snd s)\<lparr>w_ticks := Suc (w_ticks (snd s))\<rparr>)"
      using rest [unfolded sends_any, rule_format, of "(?c, (snd s)\<lparr>w_ticks := Suc (w_ticks (snd s))\<rparr>)"]
      by (simp only: wp_def sent_of_def snd_conv ticks_log)
    ultimately show ?thesis
      by (cases "cache_get u (kc_key_cache (fst s))")
        (simp_all only: get_key_def wp_field wp_update wp_bind [of "fieldM f" for f] wp_bind [of "updateM f" for f]
          wp_bind [of "is_context_expired E"] wp_def [of "is_context_expired E"] bindM_return if_False wp_return
          outcome.case option.case fst_conv snd_conv le_add1)
  qed
  show ?thesis
    using four [unfolded sends_any, rule_format, of s] two [unfolded wp_def] by auto
qed

theorem get_key_traffic_witness:
  "length (sent_of (snd (get_key sample_env ''kms://k/1'' (open_client, world_init)))) \<le> length (sent_of (open_client, world_init)) + 2"
proof -
  have "clock sample_env 0 \<le> secs 3600 - secs 30" by (simp add: sample_env_def secs_def)
  then show ?thesis using get_key_traffic [of sample_env "''kms://k/1''" "(open_client, world_init)"]
    by (simp add: open_client_def world_init_def)
qed

section \<open>Settling a wait\<close>

text \<open>Delivered and pending requests together: Mercury events move the boundary, nothing else.\<close>

definition history :: "kms_queue \<Rightarrow> string list" where
  "history q = map fst (delivered q) @ pending q"

lemma history_handle: "history (handle_kms_message d q) = history q"
  by (simp add: history_def pending_handle delivered_handle map_fst_zip_take)
    (metis append_take_drop_id min.commute take_take drop_eq_Nil nle_le take_all_iff min_def)

lemma history_fold: "history (fold handle_kms_message ds q) = history q"
  by (induction ds arbitrary: q) (simp_all add: history_handle)

lemma filter_fst: "map fst (filter (\<lambda>d. fst d \<noteq> r) ds) = filter (\<lambda>x. x \<noteq> r) (map fst ds)"
  by (induction ds) auto

lemma history_forget: "history (drop_receiver r (retain_others r q)) = filter (\<lambda>x. x \<noteq> r) (history q)"
  by (simp add: history_def queue_defs filter_fst)

lemma history_settled:
  assumes "map_of (delivered q) r = Some x" "history q = h @ [r]" "r \<notin> set h"
  shows "history (drop_receiver r q) = h"
proof -
  have "r \<in> set (map fst (delivered q))" using assms(1) by (force dest: map_of_SomeD)
  then have "0 < count_list (map fst (delivered q)) r" by (metis count_list_0_iff gr0I)
  moreover have "count_list (map fst (delivered q)) r + count_list (pending q) r = count_list h r + 1"
    using arg_cong [OF assms(2), of "\<lambda>xs. count_list xs r"] by (simp add: history_def)
  ultimately have "count_list (pending q) r = 0" using assms(3) by (simp add: count_notin)
  then have "r \<notin> set (pending q)" by (simp add: count_list_0_iff)
  then have "filter (\<lambda>x. x \<noteq> r) (pending q) = pending q" by (auto intro: filter_True)
  then have "history (drop_receiver r q) = filter (\<lambda>x. x \<noteq> r) (history q)"
    by (simp add: history_def queue_defs filter_fst)
  moreover have "filter (\<lambda>x. x \<noteq> r) h = h" using assms(3) by (auto intro: filter_True)
  ultimately show ?thesis using assms(2) by simp
qed

lemma wp_queue [wp_simps]:
  "wp (queueM f) Q s = Q (Ok ()) ((fst s)\<lparr>kc_pending_requests := f (kc_pending_requests (fst s))\<rparr>, snd s)"
  by (simp add: queueM_def wp_simps)

lemma wp_arrive [wp_simps]:
  "wp (arriveM f) Q s =
     Q (Ok ()) ((fst s)\<lparr>kc_pending_requests := fold handle_kms_message (f (w_sent (snd s))) (kc_pending_requests (fst s))\<rparr>, snd s)"
  by (simp add: arriveM_def wp_def split_beta)

text \<open>
  C23. However an exchange ends, with an answer, an HTTP error, a refused connection, a timeout or a
  full queue, its request leaves no trace in the shared queue: the other requests, answered or
  pending, are the same and in the same order.
\<close>

theorem send_kms_request_queue:
  assumes "r \<notin> set (history (kc_pending_requests (fst s)))"
  shows "history (kc_pending_requests (fst (snd (send_kms_request E r w s)))) = history (kc_pending_requests (fst s))"
proof -
  let ?h = "history (kc_pending_requests (fst s))"
  have reg: "history q = ?h @ [r]" if "register_pending r (kc_pending_requests (fst s)) = Some q" for q
    using that by (auto simp: queue_defs history_def split: if_splits)
  have f: "filter (\<lambda>x. x \<noteq> r) ?h = ?h" using assms by (auto intro: filter_True)
  have swap: "retain_others r (drop_receiver r q) = drop_receiver r (retain_others r q)" for q
    by (simp add: queue_defs)
  have lost: "r \<in> set (pending q)" if "history q = ?h @ [r]" "received r q = None" for q
  proof -
    have "r \<notin> set (map fst (delivered q))" using that(2) by (auto simp: received_def map_of_eq_None_iff)
    moreover have "r \<in> set (history q)" by (simp add: that(1))
    ultimately show ?thesis by (simp add: history_def)
  qed
  have "wp (send_kms_request E r w) (\<lambda>x t. history (kc_pending_requests (fst t)) = ?h) s"
    unfolding send_kms_request_def
    by (auto simp: wp_simps history_forget history_fold reg f swap received_def history_settled [OF _ _ assms]
        lost [unfolded received_def]
        split: option.split outcome.split)
  then show ?thesis by (simp add: wp_def)
qed

theorem send_kms_request_queue_witness:
  "history (kc_pending_requests (fst (snd (send_kms_request sample_env ''r1'' ''w'' (sample_client, world_init))))) =
   history (kc_pending_requests sample_client)"
  using send_kms_request_queue [of "''r1''" "(sample_client, world_init)" sample_env "''w''"]
  by (simp add: sample_client_def kms_client_new_def queue_init_def history_def)

lemma fold_answers:
  assumes "pending q = [r]" "delivered q = []"
  shows "fold handle_kms_message ds q =
    (case concat (map answers ds) of [] \<Rightarrow> q | a # as \<Rightarrow> q\<lparr>pending := [], delivered := [(r, a)]\<rparr>)"
proof -
  have empty: "fold handle_kms_message ds q' = q'" if "pending q' = []" for ds and q' :: kms_queue
  proof -
    have "handle_kms_message d q' = q'" for d
      by (rule kms_queue.equality) (simp_all add: that pending_handle delivered_handle)
    then show ?thesis by (induction ds) simp_all
  qed
  show ?thesis using assms
  proof (induction ds)
    case (Cons d ds)
    have "handle_kms_message d q = (case answers d of [] \<Rightarrow> q | a # as \<Rightarrow> q\<lparr>pending := [], delivered := [(r, a)]\<rparr>)"
      by (rule kms_queue.equality) (simp_all add: Cons.prems pending_handle delivered_handle split: list.split)
    then show ?case using Cons empty by (cases "answers d") simp_all
  qed simp
qed

lemma send_first_answer:
  assumes "kc_pending_requests c = queue_init"
    and "sent = w_sent w @ [kms_post E c wrapped]"
    and "http_do E (w_sent w) (kms_post E c wrapped) = Inr resp" "rs_ok resp"
  shows "send_kms_request E r wrapped (c, w) =
    (case concat (map answers (kms_during_post E sent @ kms_during_wait E sent)) of
       [] \<Rightarrow> Err (kms (''KMS request '' @ r @ '' timed out after 30s''))
     | a # as \<Rightarrow> Ok a, (c, w\<lparr>w_sent := sent\<rparr>))"
proof -
  let ?q = "\<lparr>pending = [r], delivered = []\<rparr>"
  have reg: "register_pending r (kc_pending_requests c) = Some ?q"
    by (simp add: assms(1) queue_init_def register_pending_def MAX_PENDING_REQUESTS_def)
  have clean: "c\<lparr>kc_pending_requests := \<lparr>pending = [], delivered = []\<rparr>\<rparr> = c"
    by (rule kms_client.equality) (simp_all add: assms(1) queue_init_def)
  have run: "send_kms_request E r wrapped (c, w) =
    (let q = fold handle_kms_message (kms_during_post E sent @ kms_during_wait E sent) ?q in
     case received r q of
       Some a \<Rightarrow> (Ok a, (c\<lparr>kc_pending_requests := drop_receiver r q\<rparr>, w\<lparr>w_sent := sent\<rparr>))
     | None \<Rightarrow> if r \<notin> set (pending q)
        then (Err (kms (''KMS request '' @ r @ '' channel closed'')), (c\<lparr>kc_pending_requests := drop_receiver r q\<rparr>, w\<lparr>w_sent := sent\<rparr>))
        else (Err (kms (''KMS request '' @ r @ '' timed out after 30s'')),
          (c\<lparr>kc_pending_requests := retain_others r (drop_receiver r q)\<rparr>, w\<lparr>w_sent := sent\<rparr>)))"
    using assms(3,4) by (simp add: send_kms_request_def effect_defs queueM_def arriveM_def reg assms(2) Let_def split: option.split)
  have res: "fold handle_kms_message ds ?q =
      (case concat (map answers ds) of [] \<Rightarrow> ?q | a # as \<Rightarrow> \<lparr>pending = [], delivered = [(r, a)]\<rparr>)" for ds
    using fold_answers [of ?q r ds] by (simp cong: list.case_cong)
  show ?thesis
    unfolding run res Let_def
    by (cases "concat (map answers (kms_during_post E sent @ kms_during_wait E sent))")
      (simp_all only: list.case, simp_all add: queue_defs clean)
qed


text \<open>The environment of \<open>sample_env\<close> with an HTTP function that accepts every request and given KMS traffic.\<close>

definition kms_env :: "json list \<Rightarrow> (nat, nat, nat) env" where
  "kms_env ds = sample_env\<lparr>http_do := \<lambda>sent req. Inr \<lparr>rs_status = 200, rs_ok = True, rs_body = []\<rparr>,
     kms_during_wait := \<lambda>sent. ds\<rparr>"

definition answer_event :: "string \<Rightarrow> json" where
  "answer_event a = json_obj [(''kmsMessages'', JArray [JString a])]"

lemma answers_event: "answers (answer_event a) = [a]"
  by (rule one_answer) (simp add: answer_event_def kms_messages_def json_get_obj as_array_def)


section \<open>The handshake\<close>

lemma initialize_Ok_details:
  assumes "fetch_kms_details E s = (Ok jwk, t)"
  shows "validate_webex_url (lower E) (kc_kms_cluster (fst t)) ''kms'' = Inr () \<and>
    sent_of t = sent_of s @ [kms_details_request (fst s)]"
  using assms
  by (auto simp: fetch_kms_details_def kms_details_request_def effect_defs sent_of_def
      split: prod.splits outcome.splits if_splits sum.splits)

text \<open>
  A handshake that succeeds leaves the client initialized with a 32-byte ephemeral key that
  expires one hour after a reading of the clock, with a KMS cluster that passed the URL check for
  the \<open>kms\<close> scheme; its first request fetched the KMS details of the user.
\<close>

theorem initialize_Ok:
  assumes "initialize E s = (Ok (), s')" "hkdf_length E"
  shows "kc_initialized (fst s') \<and> (\<exists>k. kc_ephemeral_key (fst s') = Some k \<and> length k = 32) \<and>
    (\<exists>i. kc_context_expiration (fst s') = Some (clock E i + secs 3600)) \<and>
    validate_webex_url (lower E) (kc_kms_cluster (fst s')) ''kms'' = Inr () \<and>
    (\<exists>rs. sent_of s' = sent_of s @ kms_details_request (fst s) # rs)"
proof -
  from assms(1) obtain jwk t where d: "fetch_kms_details E s = (Ok jwk, t)"
    by (auto simp: initialize_def bindM_Ok)
  let ?J = "\<lambda>c. validate_webex_url (lower E) (kc_kms_cluster c) ''kms'' = Inr ()"
  define K where "K = (\<lambda>rsa_jwk. bindM (drawM (sk_random E)) (\<lambda>local_secret.
     bindM (uuidM E) (\<lambda>request_id.
     bindM (fieldM (\<lambda>c. ecdh_request_body E c request_id local_secret)) (\<lambda>body.
     bindM (encrypt_rsa_oaep_a256gcm E (as_bytes (json_to_string E body)) rsa_jwk) (\<lambda>wrapped.
     bindM (send_kms_request E request_id wrapped) (\<lambda>wrapped_response.
     liftM (derive_shared E local_secret wrapped_response)))))))"
  have init: "initialize E = bindM (fetch_kms_details E) (\<lambda>jwk. bindM (K jwk) (\<lambda>(data, derived).
     bindM (updateM (\<lambda>c. c\<lparr>kc_ephemeral_key := Some derived,
        kc_ephemeral_key_kid := (case extract_key_uri data of None \<Rightarrow> [] | Some u \<Rightarrow> u), kc_initialized := True\<rparr>)) (\<lambda>_.
     bindM (nowM E) (\<lambda>now. updateM (\<lambda>c. c\<lparr>kc_context_expiration := Some (now + secs 3600)\<rparr>)))))"
    by (simp add: initialize_def K_def bindM_assoc)
  have "framed (guarded ?J (\<lambda>_. True)) (K jwk)"
    unfolding K_def by (rule encrypt_guarded guarded_rules send_kms_request_any | simp)+
  moreover from assms(1) d obtain data derived u where k: "K jwk t = (Ok (data, derived), u)"
    by (auto simp: init bindM_Ok)
  moreover note initialize_Ok_details [OF d]
  ultimately have u: "?J (fst u)" "requests (\<lambda>_. True) t u" by (auto dest: guardedD)
  have "length derived = 32" using k assms(2) derive_shared_length
    by (auto simp: K_def bindM_Ok liftM_def)
  then show ?thesis
    using assms(1) d k u initialize_Ok_details [OF d]
    by (cases u) (auto simp: init bindM_def updateM_def modifyM_def drawM_def requests_def)
qed

text \<open>An environment in which the handshake succeeds: the KMS answers with a JWS that carries its public key.\<close>

definition remote_jwk :: json where
  "remote_jwk = JObject [(''crv'', JString ''P-256''), (''kty'', JString ''EC''),
     (''x'', JString (hex_encode (replicate 32 1))), (''y'', JString (hex_encode (replicate 32 2)))]"

definition ecdh_response :: json where
  "ecdh_response = JObject [(''key'', remote_jwk)]"

definition ecdh_answer :: string where
  "ecdh_answer = ''h'' @ ''.'' @ hex_encode (as_bytes (put_json ecdh_response)) @ ''.'' @ ''s''"

definition kms_rsa_jwk :: json where
  "kms_rsa_jwk = JObject [(''e'', JString (hex_encode [3])), (''n'', JString (hex_encode [5]))]"

definition kms_details :: json where
  "kms_details = JObject [(''kmsCluster'', JString ''kms://k.wbx2.com''), (''rsaPublicKey'', kms_rsa_jwk)]"

definition handshake_env :: "(nat, nat, nat) env" where
  "handshake_env = sample_env\<lparr>
     http_do := \<lambda>sent req. Inr \<lparr>rs_status = 200, rs_ok = True, rs_body = as_bytes (put_json kms_details)\<rparr>,
     kms_during_wait := \<lambda>sent. [answer_event ecdh_answer]\<rparr>"

lemma handshake_env_fields:
  "http_do handshake_env = (\<lambda>sent req. Inr \<lparr>rs_status = 200, rs_ok = True, rs_body = as_bytes (put_json kms_details)\<rparr>)"
  "kms_during_post handshake_env = (\<lambda>sent. [])"
  "kms_during_wait handshake_env = (\<lambda>sent. [answer_event ecdh_answer])"
  "json_from_slice handshake_env = json_parse" "url_decode handshake_env = hex_decode"
  "lower handshake_env = (\<lambda>pre c post. c)"
  "rsa_new handshake_env = (\<lambda>n e. Inr (length n + length e))" "rsa_oaep_encrypt handshake_env = (\<lambda>i k m. Inr m)"
  "gcm_encrypt handshake_env = (\<lambda>k iv aad msg. Inr (msg @ replicate 16 0))"
  "fill_bytes handshake_env = (\<lambda>i n. replicate n 7)"
  "pk_from_sec1 handshake_env = (\<lambda>p. if length p = 65 then Inr (length p) else Inl ''crypto error'')"
  "hkdf_sha256 handshake_env = (\<lambda>ikm n. Inr (replicate n 5))"
  by (simp_all add: handshake_env_def sample_env_def)

lemma handshake_env_laws: "hkdf_length handshake_env"
  by (simp add: hkdf_length_def handshake_env_fields)

lemma hex_no_dot: "CHR ''.'' \<notin> set (hex_encode bs)"
  using sample_laws(3) by (simp add: url_no_dot_def sample_env_def)

lemma ecdh_answer_derives: "derive_shared handshake_env sk ecdh_answer = Ok (ecdh_response, replicate 32 5)"
proof -
  have "unwrap_kms_response handshake_env ecdh_answer (EcdhPrivate sk) = Ok (as_bytes (put_json ecdh_response))"
    unfolding ecdh_answer_def by (subst unwrap_jws) (simp_all add: hex_no_dot handshake_env_fields hex_roundtrip)
  moreover have "extract_jwk_from_response ecdh_response = Some remote_jwk"
    by (simp add: extract_jwk_from_response_def object_at_def remote_jwk_def is_object_def ecdh_response_def json_get_def)
  moreover have "parse_remote_key handshake_env remote_jwk = Ok 65"
    by (simp add: parse_remote_key_def handshake_env_fields header_str_def get_str_def json_get_def json_index_def
        decode_part_def hex_roundtrip uncompressed_point_def remote_jwk_def)
  ultimately show ?thesis
    by (simp add: derive_shared_def handshake_env_fields json_parse_put)
qed

lemma handshake_details:
  "fetch_kms_details handshake_env (sample_client, world_init) =
    (Ok kms_rsa_jwk,
     (sample_client\<lparr>kc_kms_cluster := ''kms://k.wbx2.com''\<rparr>, world_init\<lparr>w_sent := [kms_details_request sample_client]\<rparr>))"
proof -
  have "validate_webex_url (\<lambda>pre c post. c) ''kms://k.wbx2.com'' ''kms'' = Inr ()" by code_simp
  moreover have "json_index kms_details ''kmsCluster'' = JString ''kms://k.wbx2.com''"
    "json_index kms_details ''rsaPublicKey'' = kms_rsa_jwk" "rsa_jwk_of handshake_env kms_rsa_jwk = Ok kms_rsa_jwk"
    by (simp_all add: kms_details_def json_index_def json_get_def rsa_jwk_of_def kms_rsa_jwk_def)
  ultimately show ?thesis
    by (simp add: fetch_kms_details_def effect_defs handshake_env_fields json_parse_put kms_details_request_def world_init_def)
qed

lemma handshake_wraps:
  "\<exists>token t'. encrypt_rsa_oaep_a256gcm handshake_env pt kms_rsa_jwk (c, w) = (Ok token, (c, w\<lparr>w_ticks := w_ticks w + 3\<rparr>))"
proof -
  have "parse_rsa_public_key handshake_env kms_rsa_jwk = Ok 2"
    by (simp add: parse_rsa_public_key_def kms_rsa_jwk_def get_str_def json_get_def decode_part_def handshake_env_fields hex_roundtrip)
  then show ?thesis
    by (simp add: encrypt_rsa_oaep_a256gcm_def effect_defs handshake_env_fields gcm_seal_def gcm_key_init_def Let_def)
qed

lemma handshake_exchange:
  assumes "kc_pending_requests c = queue_init"
  shows "\<exists>t. send_kms_request handshake_env r wrapped (c, w) = (Ok ecdh_answer, t)"
  using send_first_answer [OF assms refl, of handshake_env w wrapped] by (simp add: handshake_env_fields answers_event)

lemma handshake_succeeds: "\<exists>s'. initialize handshake_env (sample_client, world_init) = (Ok (), s')"
proof -
  let ?c = "sample_client\<lparr>kc_kms_cluster := ''kms://k.wbx2.com''\<rparr>"
  let ?w = "world_init\<lparr>w_sent := [kms_details_request sample_client]\<rparr>"
  let ?body = "ecdh_request_body handshake_env ?c (uuid_v4 handshake_env 1) (sk_random handshake_env 0)"
  obtain token where t: "encrypt_rsa_oaep_a256gcm handshake_env (as_bytes (json_to_string handshake_env ?body)) kms_rsa_jwk
      (?c, ?w\<lparr>w_ticks := 2\<rparr>) = (Ok token, (?c, ?w\<lparr>w_ticks := 5\<rparr>))"
    using handshake_wraps [of "as_bytes (json_to_string handshake_env ?body)" ?c "?w\<lparr>w_ticks := 2\<rparr>"] by auto
  have "kc_pending_requests ?c = queue_init" by (simp add: sample_client_def kms_client_new_def)
  from handshake_exchange [OF this] obtain u where
    x: "send_kms_request handshake_env (uuid_v4 handshake_env 1) token (?c, ?w\<lparr>w_ticks := 5\<rparr>) = (Ok ecdh_answer, u)" by blast
  have draw: "drawM f (?c, v) = (Ok (f (w_ticks v)), (?c, v\<lparr>w_ticks := Suc (w_ticks v)\<rparr>))" for f v
    by (simp add: drawM_def)
  have field: "fieldM f v = (Ok (f (fst v)), v)" for f and v :: "kms_client \<times> world"
    by (simp add: fieldM_def getM_def split_beta)
  have "initialize handshake_env (sample_client, world_init) =
    (bindM (liftM (derive_shared handshake_env (sk_random handshake_env 0) ecdh_answer)) (\<lambda>(data, derived).
     bindM (updateM (\<lambda>c. c\<lparr>kc_ephemeral_key := Some derived,
        kc_ephemeral_key_kid := (case extract_key_uri data of None \<Rightarrow> [] | Some u \<Rightarrow> u),
        kc_initialized := True\<rparr>)) (\<lambda>_.
     bindM (nowM handshake_env) (\<lambda>now.
     updateM (\<lambda>c. c\<lparr>kc_context_expiration := Some (now + secs 3600)\<rparr>))))) u"
    using t x by (simp add: initialize_def bindM_def [of "fetch_kms_details E" for E] bindM_def [of "drawM f" for f]
        bindM_def [of "fieldM f" for f] bindM_def [of "encrypt_rsa_oaep_a256gcm E p j" for E p j]
        bindM_def [of "send_kms_request E r w" for E r w] handshake_details [unfolded world_init_def] draw field
        world_init_def numeral_2_eq_2)
  then show ?thesis by (cases u) (simp add: ecdh_answer_derives effect_defs)
qed

theorem initialize_Ok_witness:
  "\<exists>s'. initialize handshake_env (sample_client, world_init) = (Ok (), s') \<and>
    kc_initialized (fst s') \<and> (\<exists>k. kc_ephemeral_key (fst s') = Some k \<and> length k = 32) \<and>
    (\<exists>i. kc_context_expiration (fst s') = Some (clock handshake_env i + secs 3600)) \<and>
    validate_webex_url (lower handshake_env) (kc_kms_cluster (fst s')) ''kms'' = Inr () \<and>
    (\<exists>rs. sent_of s' = sent_of (sample_client, world_init) @ kms_details_request sample_client # rs)"
proof -
  obtain s' where "initialize handshake_env (sample_client, world_init) = (Ok (), s')" using handshake_succeeds by blast
  with initialize_Ok [OF this handshake_env_laws] show ?thesis by auto
qed

end
