(* ===== verification/Message_Decryptor.thy ===== *)
theory Message_Decryptor
  imports Kms_Props
begin

text \<open>
  \<^verbatim>\<open>message_decryptor.rs\<close>: decrypting the display name, the content and the card inputs of an
  activity with the content key the KMS client provides. A field that cannot be decrypted is left
  as it is; only a key that cannot be fetched, or a panic of the decryption, ends the call.
\<close>

definition non_empty :: "string option \<Rightarrow> string option" where
  "non_empty s = (case s of Some t \<Rightarrow> if t = [] then None else Some t | None \<Rightarrow> None)"

text \<open>The key URL: of the activity, else of its object, else of its target.\<close>

definition find_key_url :: "mercury_activity \<Rightarrow> string option" where
  "find_key_url activity =
     (case non_empty (av_encryption_key_url activity) of
        Some u \<Rightarrow> Some u
      | None \<Rightarrow>
     (case non_empty (ob_encryption_key_url (av_object activity)) of
        Some u \<Rightarrow> Some u
      | None \<Rightarrow> non_empty (tg_encryption_key_url (av_target activity))))"

text \<open>One text field: its plaintext, or itself when it is absent, empty, undecryptable or not UTF-8.\<close>

definition decrypt_text :: "('sk, 'pk, 'rsa) env \<Rightarrow> bytes \<Rightarrow> string option \<Rightarrow> string option result" where
  "decrypt_text E key txt =
     (case txt of
        None \<Rightarrow> Ok None
      | Some s \<Rightarrow>
          if s = [] then Ok (Some s)
          else
            (case decrypt_message_jwe E s key of
               Ok plaintext \<Rightarrow> Ok (Some (case from_utf8 plaintext of Inr t \<Rightarrow> t | Inl e \<Rightarrow> s))
             | Err e \<Rightarrow> Ok (Some s)
             | Panic p \<Rightarrow> Panic p))"

definition decrypt_inputs :: "('sk, 'pk, 'rsa) env \<Rightarrow> bytes \<Rightarrow> mercury_object \<Rightarrow> json option result" where
  "decrypt_inputs E key ob =
     (case ob_inputs_encrypted ob of
        None \<Rightarrow> Ok (ob_inputs ob)
      | Some s \<Rightarrow>
          if s = [] then Ok (ob_inputs ob)
          else
            (case decrypt_message_jwe E s key of
               Ok plaintext \<Rightarrow> Ok (case json_from_slice E plaintext of Inr j \<Rightarrow> Some j | Inl e \<Rightarrow> ob_inputs ob)
             | Err e \<Rightarrow> Ok (ob_inputs ob)
             | Panic p \<Rightarrow> Panic p))"

definition decrypt_object :: "('sk, 'pk, 'rsa) env \<Rightarrow> bytes \<Rightarrow> mercury_object \<Rightarrow> mercury_object result" where
  "decrypt_object E key ob =
     bind_ok (decrypt_text E key (ob_display_name ob)) (\<lambda>display_name.
     bind_ok (decrypt_text E key (ob_content ob)) (\<lambda>content.
     bind_ok (decrypt_inputs E key ob) (\<lambda>inputs.
     Ok (ob\<lparr>ob_display_name := display_name, ob_content := content, ob_inputs := inputs\<rparr>))))"

definition decrypt_activity ::
  "('sk, 'pk, 'rsa) env \<Rightarrow> mercury_activity \<Rightarrow> (kms_client \<times> world, mercury_activity) meth" where
  "decrypt_activity E activity =
     (case find_key_url activity of
        None \<Rightarrow> returnM activity
      | Some url \<Rightarrow>
          bindM (mapErrM (\<lambda>e. decryption (''Failed to fetch encryption key from '' @ url @ '': '' @ display e)) (get_key E url)) (\<lambda>key.
          bindM (liftM (decrypt_object E key (av_object activity))) (\<lambda>ob.
          returnM (activity\<lparr>av_object := ob\<rparr>))))"

section \<open>The key provider interface\<close>

text \<open>
  What the decryptor relies on: from a good state the provider ends in a good state, and a key it
  gives has 32 bytes.
\<close>

locale key_provider =
  fixes provide :: "string \<Rightarrow> ('s, webex_error, bytes) prog"
    and good :: "'s \<Rightarrow> bool"
  assumes provide_good: "good s \<Longrightarrow> good (snd (provide u s))"
    and provide_length: "good s \<Longrightarrow> provide u s = (Ok k, s') \<Longrightarrow> length k = 32"
begin

lemma provide_wp: "good s \<Longrightarrow> wp (provide u) (\<lambda>r t. good t \<and> (\<forall>k. r = Ok k \<longrightarrow> length k = 32)) s"
  unfolding wp_def using provide_good provide_length by (metis prod.collapse)

lemma decrypt_gcm_no_key_error:
  "good s \<Longrightarrow> provide u s = (Ok k, s') \<Longrightarrow> gcm_key_init k = Ok ()"
  by (simp add: gcm_key_init_def provide_length)

end

lemma get_key_length:
  assumes "kms_inv (fst s)" "get_key E u s = (Ok k, s')"
  shows "length k = 32"
proof (cases "cache_get u (kc_key_cache (fst s))")
  case None
  with get_key_effect [where u = u and s = s and E = E] assms(2) show ?thesis by (simp add: Let_def)
next
  case (Some k')
  with get_key_effect [where u = u and s = s and E = E] assms show ?thesis by (auto simp: kms_inv_def keys_ok_def)
qed

interpretation kms_keys: key_provider "get_key E" "\<lambda>s. hkdf_length E \<and> kms_inv (fst s)" for E
proof unfold_locales
  fix s u k s'
  show "hkdf_length E \<and> kms_inv (fst (snd (get_key E u s)))" if "hkdf_length E \<and> kms_inv (fst s)"
    using that kms_inv_both by blast
  show "length k = 32" if "hkdf_length E \<and> kms_inv (fst s)" "get_key E u s = (Ok k, s')"
    using that get_key_length by blast
qed

section \<open>Properties\<close>

text \<open>Everything but the three fields is the activity that came in.\<close>

definition same_envelope :: "mercury_activity \<Rightarrow> mercury_activity \<Rightarrow> bool" where
  "same_envelope a b \<longleftrightarrow> b\<lparr>av_object := (av_object b)\<lparr>ob_display_name := None, ob_content := None, ob_inputs := None\<rparr>\<rparr> =
     a\<lparr>av_object := (av_object a)\<lparr>ob_display_name := None, ob_content := None, ob_inputs := None\<rparr>\<rparr>"

lemma decrypt_object_envelope: "decrypt_object E k ob = Ok ob' \<Longrightarrow>
  ob'\<lparr>ob_display_name := None, ob_content := None, ob_inputs := None\<rparr> = ob\<lparr>ob_display_name := None, ob_content := None, ob_inputs := None\<rparr>"
  by (auto simp: decrypt_object_def bind_ok_eq_Ok)

lemma decrypt_text_not_Err: "decrypt_text E k f \<noteq> Err e"
  by (auto simp: decrypt_text_def split: option.split outcome.split)

lemma decrypt_inputs_not_Err: "decrypt_inputs E k ob \<noteq> Err e"
  by (auto simp: decrypt_inputs_def split: option.split outcome.split)

lemma decrypt_object_not_Err: "decrypt_object E k ob \<noteq> Err e"
proof -
  note n = decrypt_text_not_Err [of E k] decrypt_inputs_not_Err [of E k ob]
  show ?thesis
    by (cases "decrypt_text E k (ob_display_name ob)"; cases "decrypt_text E k (ob_content ob)"; cases "decrypt_inputs E k ob")
      (auto simp: decrypt_object_def n)
qed


definition sample_activity :: "string option \<Rightarrow> string option \<Rightarrow> mercury_activity" where
  "sample_activity name url = \<lparr>av_id = ''a1'', av_url = None, av_verb = ''post'', av_actor = actor_default,
     av_object = object_default\<lparr>ob_display_name := name\<rparr>, av_target = target_default,
     av_published = [], av_encryption_key_url = url, av_parent = None\<rparr>"


text \<open>The text a field decrypts to: the plaintext of a token sealed under the key.\<close>

lemma decrypt_text_token:
  assumes "decrypt_message_jwe E token k = Ok (as_bytes t)" "valid_str t" "token \<noteq> []"
  shows "decrypt_text E k (Some token) = Ok (Some t)"
  using assms by (simp add: decrypt_text_def)

lemma jwe_compact_nonempty: "jwe_compact a b c d e \<noteq> []"
  by (simp add: jwe_compact_def)

lemma encrypt_dir_nonempty: "encrypt_dir_a256gcm E pt k kid s = (Ok token, s') \<Longrightarrow> token \<noteq> []"
  by (auto simp: encrypt_dir_a256gcm_def effect_defs Let_def jwe_compact_nonempty split: prod.splits outcome.splits)

lemma decrypt_activity_sealed:
  assumes "jose_laws E" "length k = 32" "valid_str kid" "valid_str name" "valid_str content"
    and "encrypt_dir_a256gcm E (as_bytes name) k kid s1 = (Ok name_token, s1')"
    and "encrypt_dir_a256gcm E (as_bytes content) k kid s2 = (Ok content_token, s2')"
    and "find_key_url a = Some u" "cache_get u (kc_key_cache (fst s)) = Some k"
    and "ob_display_name (av_object a) = Some name_token" "ob_content (av_object a) = Some content_token"
    and "ob_inputs_encrypted (av_object a) = None"
  shows "decrypt_activity E a s =
    (Ok (a\<lparr>av_object := (av_object a)\<lparr>ob_display_name := Some name, ob_content := Some content\<rparr>\<rparr>), s)"
proof -
  have "get_key E u s = (Ok k, s)" using get_key_effect [where u = u and s = s and E = E] assms(9) by simp
  moreover have "decrypt_text E k (Some name_token) = Ok (Some name)" "decrypt_text E k (Some content_token) = Ok (Some content)"
    using dir_reads_back [OF assms(1-3,6)] dir_reads_back [OF assms(1-3,7)] assms(4,5)
      encrypt_dir_nonempty [OF assms(6)] encrypt_dir_nonempty [OF assms(7)] by (simp_all add: decrypt_text_token)
  ultimately show ?thesis
    using assms(8,10-12) by (simp add: decrypt_activity_def effect_defs decrypt_object_def decrypt_inputs_def)
qed

text \<open>
  End to end: an activity whose display name and content were sealed (direct encryption,
  32-byte key) is given back with the original texts when the key of its URL is cached, without any
  request; the other fields are untouched.
\<close>

theorem decrypt_activity_roundtrip:
  assumes "jose_laws E" "length k = 32" "valid_str kid" "valid_str name" "valid_str content"
    and "encrypt_dir_a256gcm E (as_bytes name) k kid s1 = (Ok name_token, s1')"
    and "encrypt_dir_a256gcm E (as_bytes content) k kid s2 = (Ok content_token, s2')"
    and "find_key_url a = Some u" "cache_get u (kc_key_cache (fst s)) = Some k"
    and "ob_display_name (av_object a) = Some name_token" "ob_content (av_object a) = Some content_token"
    and "ob_inputs_encrypted (av_object a) = None"
  shows "decrypt_activity E a s =
    (Ok (a\<lparr>av_object := (av_object a)\<lparr>ob_display_name := Some name, ob_content := Some content\<rparr>\<rparr>), s)"
  by (rule decrypt_activity_sealed [OF assms])

definition sample_key :: bytes where
  "sample_key = replicate 32 9"

definition sample_token :: "string \<Rightarrow> string" where
  "sample_token t = (case encrypt_dir_a256gcm sample_env (as_bytes t) sample_key ''k1'' ((), world_init) of
     (Ok token, s) \<Rightarrow> token | _ \<Rightarrow> [])"

lemma sample_gcm_seal: "gcm_seal sample_env sample_key nonce aad pt = Ok (pt, replicate 16 0)"
  by (simp add: gcm_seal_def gcm_key_init_def sample_key_def sample_env_def)

lemma sample_token_sealed:
  "\<exists>s'. encrypt_dir_a256gcm sample_env (as_bytes t) sample_key ''k1'' ((), world_init) = (Ok (sample_token t), s')"
proof -
  have "\<exists>token s'. encrypt_dir_a256gcm sample_env (as_bytes t) sample_key ''k1'' ((), world_init) = (Ok token, s')"
    by (simp add: encrypt_dir_a256gcm_def effect_defs Let_def sample_gcm_seal)
  then show ?thesis by (auto simp: sample_token_def)
qed

definition sealed_activity :: mercury_activity where
  "sealed_activity = \<lparr>av_id = ''a1'', av_url = None, av_verb = ''post'', av_actor = actor_default,
     av_object = object_default\<lparr>ob_display_name := Some (sample_token ''hi''), ob_content := Some (sample_token ''<b>hi</b>'')\<rparr>,
     av_target = target_default, av_published = [], av_encryption_key_url = Some ''kms://k/1'', av_parent = None\<rparr>"

theorem decrypt_activity_roundtrip_witness:
  "decrypt_activity sample_env sealed_activity (sample_client\<lparr>kc_key_cache := [(''kms://k/1'', sample_key)]\<rparr>, world_init) =
    (Ok (sealed_activity\<lparr>av_object := (av_object sealed_activity)\<lparr>ob_display_name := Some ''hi'', ob_content := Some ''<b>hi</b>''\<rparr>\<rparr>),
     (sample_client\<lparr>kc_key_cache := [(''kms://k/1'', sample_key)]\<rparr>, world_init))"
proof -
  obtain s1 where 1: "encrypt_dir_a256gcm sample_env (as_bytes ''hi'') sample_key ''k1'' ((), world_init) = (Ok (sample_token ''hi''), s1)"
    using sample_token_sealed by blast
  obtain s2 where 2: "encrypt_dir_a256gcm sample_env (as_bytes ''<b>hi</b>'') sample_key ''k1'' ((), world_init) =
      (Ok (sample_token ''<b>hi</b>''), s2)"
    using sample_token_sealed by blast
  have v: "valid_str ''k1''" "valid_str ''hi''" "valid_str ''<b>hi</b>''" by code_simp+
  have u: "find_key_url sealed_activity = Some ''kms://k/1''" by (simp add: find_key_url_def non_empty_def sealed_activity_def)
  show ?thesis
    by (rule decrypt_activity_roundtrip [OF sample_jose_laws _ v 1 2 u])
      (simp_all add: sample_key_def cache_get_def sealed_activity_def object_default_def)
qed

end
