(* ===== verification/Device_Manager.thy ===== *)
theory Device_Manager
  imports Sample_Env Url_Validation
begin

text \<open>
  \<^verbatim>\<open>device_manager.rs\<close>: discovery of the regional WDM endpoint, registration with reuse of an
  existing device, reaping of this client's own devices when the account has too many, refresh and
  unregistration. Logging is left out.
\<close>

definition WDM_API_BASE :: string where
  "WDM_API_BASE = ''https://wdm-a.wbx2.com/wdm/api/v1/devices''"

definition U2C_CATALOG_URL :: string where
  "U2C_CATALOG_URL = ''https://u2c.wbx2.com/u2c/api/v1/catalog?format=hostmap''"

definition device_body :: json where
  "device_body = json_obj
     [(''deviceName'', JString ''webex-message-handler''),
      (''deviceType'', JString ''DESKTOP''),
      (''localizedModel'', JString ''rust''),
      (''model'', JString ''rust''),
      (''name'', JString ''webex-message-handler''),
      (''systemName'', JString ''webex-message-handler''),
      (''systemVersion'', JString ''1.0.0'')]"

record device_manager =
  dv_device_url :: "string option"
  dv_wdm_devices_url :: "string option"

definition device_manager_new :: device_manager where
  "device_manager_new = \<lparr>dv_device_url = None, dv_wdm_devices_url = None\<rparr>"

definition set_wdm_devices_url :: "string \<Rightarrow> device_manager \<Rightarrow> device_manager" where
  "set_wdm_devices_url url d = d\<lparr>dv_wdm_devices_url := Some url\<rparr>"

text \<open>The requests the manager sends.\<close>

definition get_request :: "string \<Rightarrow> string \<Rightarrow> fetch_request" where
  "get_request token url = \<lparr>rq_url = url, rq_method = ''GET'', rq_headers = auth_headers token, rq_body = None\<rparr>"

definition delete_request :: "string \<Rightarrow> string \<Rightarrow> fetch_request" where
  "delete_request token url = \<lparr>rq_url = url, rq_method = ''DELETE'', rq_headers = auth_headers token, rq_body = None\<rparr>"

definition body_request :: "('sk, 'pk, 'rsa) env \<Rightarrow> string \<Rightarrow> string \<Rightarrow> string \<Rightarrow> fetch_request" where
  "body_request E verb token url =
     \<lparr>rq_url = url, rq_method = verb, rq_headers = json_headers token, rq_body = Some (json_to_string E device_body)\<rparr>"

section \<open>Discovery\<close>

text \<open>The endpoint a catalog response gives: the fallback unless it names a trusted \<open>wdm\<close> link.\<close>

definition wdm_of_response :: "('sk, 'pk, 'rsa) env \<Rightarrow> fetch_response \<Rightarrow> string" where
  "wdm_of_response E response =
     (if \<not> rs_ok response then WDM_API_BASE
      else
        (case json_from_slice E (rs_body response) of
           Inl e \<Rightarrow> WDM_API_BASE
         | Inr catalog \<Rightarrow>
             (case Option.bind (json_get ''serviceLinks'' catalog) (get_str ''wdm'') of
                None \<Rightarrow> WDM_API_BASE
              | Some wdm \<Rightarrow>
                  if wdm = [] then WDM_API_BASE
                  else if validate_webex_url (lower E) wdm ''https'' \<noteq> Inr () then WDM_API_BASE
                  else trim_end_matches (CHR ''/'') wdm @ ''/devices'')))"

definition discover_wdm_base :: "('sk, 'pk, 'rsa) env \<Rightarrow> string \<Rightarrow> (device_manager \<times> world, 'e, string) prog" where
  "discover_wdm_base E token =
     bindM (fieldM dv_wdm_devices_url) (\<lambda>cached.
     case cached of
       Some url \<Rightarrow> returnM url
     | None \<Rightarrow>
         bindM (matchM (fetchM E (get_request token U2C_CATALOG_URL))
           (\<lambda>response. returnM (wdm_of_response E response)) (\<lambda>e. returnM WDM_API_BASE)) (\<lambda>url.
         bindM (updateM (set_wdm_devices_url url)) (\<lambda>_.
         returnM url)))"

section \<open>Device operations\<close>

definition with_encryption_url :: "Types.device_registration \<Rightarrow> Types.device_registration" where
  "with_encryption_url reg =
     reg\<lparr>dr_encryption_service_url := (case dr_services reg ''encryptionServiceUrl'' of None \<Rightarrow> [] | Some u \<Rightarrow> u)\<rparr>"

text \<open>Parsing a registration from a response body and validating its URLs.\<close>

definition accept_registration :: "('sk, 'pk, 'rsa) env \<Rightarrow> bytes \<Rightarrow> Types.device_registration result" where
  "accept_registration E body =
     bind_ok (of_sum (\<lambda>e. device_registration (''Failed to parse response: '' @ e) None) (reg_from_slice E body)) (\<lambda>reg0.
     let reg = with_encryption_url reg0 in
     bind_ok (if dr_web_socket_url reg = [] then Ok ()
       else of_sum (\<lambda>e. device_registration (''Invalid web_socket_url: '' @ e) None)
              (validate_webex_url (lower E) (dr_web_socket_url reg) ''wss'')) (\<lambda>_.
     bind_ok (if dr_encryption_service_url reg = [] then Ok ()
       else of_sum (\<lambda>e. device_registration (''Invalid encryption_service_url: '' @ e) None)
              (validate_webex_url (lower E) (dr_encryption_service_url reg) ''https'')) (\<lambda>_.
     Ok reg)))"

definition create_device :: "('sk, 'pk, 'rsa) env \<Rightarrow> string \<Rightarrow> (device_manager \<times> world, Types.device_registration) meth" where
  "create_device E token =
     bindM (discover_wdm_base E token) (\<lambda>base.
     bindM (mapErrM (\<lambda>e. device_registration (''Failed to register device: '' @ e) None)
       (fetchM E (body_request E ''POST'' token (base @ ''?includeUpstreamServices=all'')))) (\<lambda>response.
     if rs_status response = 401 then throwM (auth ''Unauthorized to register device'')
     else if \<not> rs_ok response then throwM (device_registration ''Failed to register device'' (Some (rs_status response)))
     else
       bindM (liftM (accept_registration E (rs_body response))) (\<lambda>reg.
       bindM (updateM (\<lambda>d. d\<lparr>dv_device_url := Some (dr_device_url reg)\<rparr>)) (\<lambda>_.
       returnM reg))))"

definition list_devices :: "('sk, 'pk, 'rsa) env \<Rightarrow> string \<Rightarrow> (device_manager \<times> world, Types.device_registration list) meth" where
  "list_devices E token =
     bindM (discover_wdm_base E token) (\<lambda>base.
     bindM (mapErrM (\<lambda>e. device_registration (''Failed to list devices: '' @ e) None)
       (fetchM E (get_request token base))) (\<lambda>response.
     if rs_status response = 401 then throwM (auth ''Unauthorized to list devices'')
     else if \<not> rs_ok response then
       throwM (device_registration (''Failed to list devices: '' @ show_nat (unat (rs_status response))) (Some (rs_status response)))
     else
       bindM (liftM (of_sum (\<lambda>e. device_registration (''Failed to parse device list: '' @ e) None)
         (device_list_from_slice E (rs_body response)))) (\<lambda>devices.
       returnM (map with_encryption_url (List.map_filter de_registration devices)))))"

definition delete_device :: "('sk, 'pk, 'rsa) env \<Rightarrow> string \<Rightarrow> string \<Rightarrow> (device_manager \<times> world, bool) meth" where
  "delete_device E device_url token =
     bindM (mapErrM (\<lambda>e. device_registration (''Failed to delete device: '' @ e) None)
       (fetchM E (delete_request token device_url))) (\<lambda>response.
     returnM (rs_ok response \<or> rs_status response = 404))"

text \<open>A device of this client: its name, its type, and a URL to address it by.\<close>

definition own_device :: "Types.device_registration \<Rightarrow> bool" where
  "own_device d \<longleftrightarrow> dr_name d = Some ''webex-message-handler'' \<and> dr_device_type d = Some ''DESKTOP'' \<and> dr_device_url d \<noteq> []"

definition find_reusable_device :: "('sk, 'pk, 'rsa) env \<Rightarrow> string \<Rightarrow> (device_manager \<times> world, string option) meth" where
  "find_reusable_device E token =
     matchM (list_devices E token)
       (\<lambda>devices. returnM (map_option dr_device_url (List.find own_device devices)))
       (\<lambda>e. returnM None)"

fun reap_devices :: "('sk, 'pk, 'rsa) env \<Rightarrow> string \<Rightarrow> Types.device_registration list \<Rightarrow> (device_manager \<times> world, unit) meth" where
  "reap_devices E token [] = returnM ()"
| "reap_devices E token (device # devices) =
     (if \<not> own_device device then reap_devices E token devices
      else matchM (delete_device E (dr_device_url device) token)
        (\<lambda>deleted. reap_devices E token devices)
        (\<lambda>e. reap_devices E token devices))"

definition reap_own_devices :: "('sk, 'pk, 'rsa) env \<Rightarrow> string \<Rightarrow> (device_manager \<times> world, unit) meth" where
  "reap_own_devices E token =
     matchM (list_devices E token) (\<lambda>devices. reap_devices E token devices) (\<lambda>e. returnM ())"

definition refresh :: "('sk, 'pk, 'rsa) env \<Rightarrow> string \<Rightarrow> (device_manager \<times> world, Types.device_registration) meth" where
  "refresh E token =
     bindM (fieldM dv_device_url) (\<lambda>url.
     bindM (liftM (of_opt (device_registration ''Device not registered. Call register() first.'' None) url)) (\<lambda>device_url.
     bindM (mapErrM (\<lambda>e. device_registration (''Failed to refresh device: '' @ e) None)
       (fetchM E (body_request E ''PUT'' token device_url))) (\<lambda>response.
     if rs_status response = 401 then throwM (auth ''Unauthorized to refresh device'')
     else if \<not> rs_ok response then throwM (device_registration ''Failed to refresh device'' (Some (rs_status response)))
     else liftM (accept_registration E (rs_body response)))))"

fun too_many_devices :: "webex_error \<Rightarrow> bool" where
  "too_many_devices (DeviceRegistration m (Some status)) \<longleftrightarrow> status = 403"
| "too_many_devices e \<longleftrightarrow> False"

definition create_or_reap :: "('sk, 'pk, 'rsa) env \<Rightarrow> string \<Rightarrow> (device_manager \<times> world, Types.device_registration) meth" where
  "create_or_reap E token =
     matchM (create_device E token) returnM (\<lambda>e.
       if too_many_devices e then bindM (reap_own_devices E token) (\<lambda>_. create_device E token)
       else throwM e)"

definition register :: "('sk, 'pk, 'rsa) env \<Rightarrow> string \<Rightarrow> (device_manager \<times> world, Types.device_registration) meth" where
  "register E token =
     bindM (find_reusable_device E token) (\<lambda>existing.
     case existing of
       None \<Rightarrow> create_or_reap E token
     | Some existing_url \<Rightarrow>
         bindM (updateM (\<lambda>d. d\<lparr>dv_device_url := Some existing_url\<rparr>)) (\<lambda>_.
         matchM (refresh E token) returnM (\<lambda>e.
           bindM (updateM (\<lambda>d. d\<lparr>dv_device_url := None\<rparr>)) (\<lambda>_.
           create_or_reap E token))))"

definition unregister :: "('sk, 'pk, 'rsa) env \<Rightarrow> string \<Rightarrow> (device_manager \<times> world, unit) meth" where
  "unregister E token =
     bindM (fieldM dv_device_url) (\<lambda>url.
     bindM (liftM (of_opt (device_registration ''Device not registered. Call register() first.'' None) url)) (\<lambda>device_url.
     bindM (mapErrM (\<lambda>e. device_registration (''Failed to unregister device: '' @ e) None)
       (fetchM E \<lparr>rq_url = device_url, rq_method = ''DELETE'', rq_headers = json_headers token, rq_body = None\<rparr>)) (\<lambda>response.
     if rs_status response = 401 then throwM (auth ''Unauthorized to unregister device'')
     else if \<not> rs_ok response \<and> rs_status response \<noteq> 404 then
       throwM (device_registration ''Failed to unregister device'' (Some (rs_status response)))
     else updateM (\<lambda>d. d\<lparr>dv_device_url := None\<rparr>))))"

end
