(* ===== verification/Device_Props.thy ===== *)
theory Device_Props
  imports Device_Manager
begin

text \<open>
  The properties of the device manager: which requests it sends and with which credentials, what a
  registration it returns satisfies, which devices it deletes, and how often it tries.
\<close>

section \<open>What the manager sends\<close>

definition trusted_base :: "('sk, 'pk, 'rsa) env \<Rightarrow> string \<Rightarrow> bool" where
  "trusted_base E u \<longleftrightarrow> u = WDM_API_BASE \<or>
     (\<exists>wdm. validate_webex_url (lower E) wdm ''https'' = Inr () \<and> u = trim_end_matches (CHR ''/'') wdm @ ''/devices'')"

text \<open>
  A request of the manager carries the token; a GET goes to the catalog or to a trusted endpoint, a
  POST to a trusted endpoint, anything else is a PUT or DELETE of a device.
\<close>

definition wdm_request :: "('sk, 'pk, 'rsa) env \<Rightarrow> string \<Rightarrow> fetch_request \<Rightarrow> bool" where
  "wdm_request E token req \<longleftrightarrow> rq_headers req ''Authorization'' = Some (bearer token) \<and>
     (rq_method req = ''GET'' \<and> (rq_url req = U2C_CATALOG_URL \<or> trusted_base E (rq_url req)) \<or>
      rq_method req = ''POST'' \<and> (\<exists>b. trusted_base E b \<and> rq_url req = b @ ''?includeUpstreamServices=all'') \<or>
      rq_method req \<in> {''PUT'', ''DELETE''})"

definition base_ok :: "('sk, 'pk, 'rsa) env \<Rightarrow> device_manager \<Rightarrow> bool" where
  "base_ok E d \<longleftrightarrow> (\<forall>u. dv_wdm_devices_url d = Some u \<longrightarrow> trusted_base E u)"

lemma trusted_fallback: "trusted_base E WDM_API_BASE"
  by (simp add: trusted_base_def)

lemma wdm_of_response_trusted: "trusted_base E (wdm_of_response E resp)"
  by (auto simp: wdm_of_response_def trusted_base_def split: sum.split option.split)

lemma request_kinds:
  "trusted_base E u \<Longrightarrow> wdm_request E token (get_request token u)"
  "wdm_request E token (get_request token U2C_CATALOG_URL)"
  "wdm_request E token (delete_request token v)"
  "trusted_base E u \<Longrightarrow> wdm_request E token (body_request E ''POST'' token (u @ ''?includeUpstreamServices=all''))"
  "wdm_request E token (body_request E ''PUT'' token v)"
  "wdm_request E token \<lparr>rq_url = v, rq_method = ''DELETE'', rq_headers = json_headers token, rq_body = None\<rparr>"
  by (auto simp: wdm_request_def get_request_def delete_request_def body_request_def auth_headers_def json_headers_def)

lemma discover_guarded: "framed (guarded (base_ok E) (wdm_request E token)) (discover_wdm_base E token)"
proof -
  have "framed (guarded (base_ok E) (wdm_request E token)) (bindM (matchM (fetchM E (get_request token U2C_CATALOG_URL))
           (\<lambda>response. returnM (wdm_of_response E response)) (\<lambda>e. returnM WDM_API_BASE)) (\<lambda>url.
         bindM (updateM (set_wdm_devices_url url)) (\<lambda>_. returnM url)))"
  proof (rule guarded_bind_returns)
    show "returns (base_ok E) (trusted_base E) (matchM (fetchM E (get_request token U2C_CATALOG_URL))
        (\<lambda>response. returnM (wdm_of_response E response)) (\<lambda>e. returnM WDM_API_BASE))"
      by (auto simp: returns_def wp_simps wdm_of_response_trusted trusted_fallback split: outcome.split)
  qed (rule guarded_rules guarded_update | simp add: request_kinds base_ok_def set_wdm_devices_url_def)+
  then show ?thesis
    unfolding discover_wdm_base_def by - (assumption | rule guarded_rules)+
qed

lemma discover_returns: "returns (base_ok E) (trusted_base E) (discover_wdm_base E token)"
  by (auto simp: returns_def discover_wdm_base_def base_ok_def wp_simps wdm_of_response_trusted trusted_fallback
      split: outcome.split option.split)

lemmas base_rules = guarded_bind_returns [OF discover_guarded discover_returns]

lemma create_guarded: "framed (guarded (base_ok E) (wdm_request E token)) (create_device E token)"
  unfolding create_device_def
  by (rule base_rules guarded_rules guarded_update | simp add: request_kinds base_ok_def)+

lemma list_guarded: "framed (guarded (base_ok E) (wdm_request E token)) (list_devices E token)"
  unfolding list_devices_def by (rule base_rules guarded_rules | simp add: request_kinds)+

lemma reap_guarded: "framed (guarded (base_ok E) (wdm_request E token)) (reap_devices E token ds)"
proof (induction ds)
  case (Cons d ds)
  show ?case
    unfolding reap_devices.simps delete_device_def
    by (rule guarded_rules Cons.IH | simp add: request_kinds)+
qed (simp add: guarded.framed_return)

lemma refresh_guarded: "framed (guarded (base_ok E) (wdm_request E token)) (refresh E token)"
  unfolding refresh_def by (rule guarded_rules | simp add: request_kinds)+

lemma register_guarded: "framed (guarded (base_ok E) (wdm_request E token)) (register E token)"
  unfolding register_def find_reusable_device_def create_or_reap_def reap_own_devices_def
  by (rule create_guarded list_guarded reap_guarded refresh_guarded guarded_rules guarded_update | simp add: base_ok_def)+

lemma unregister_guarded: "framed (guarded (base_ok E) (wdm_request E token)) (unregister E token)"
  unfolding unregister_def by (rule guarded_rules guarded_update | simp add: request_kinds base_ok_def)+

definition wdm_traffic :: "('sk, 'pk, 'rsa) env \<Rightarrow> string \<Rightarrow> device_manager \<times> world \<Rightarrow> device_manager \<times> world \<Rightarrow> bool" where
  "wdm_traffic E token s s' \<longleftrightarrow> base_ok E (fst s') \<and>
     (\<exists>rs. sent_of s' = sent_of s @ rs \<and> list_all (wdm_request E token) rs)"

lemma guarded_traffic:
  "framed (guarded (base_ok E) (wdm_request E token)) m \<Longrightarrow> base_ok E (fst s) \<Longrightarrow> wdm_traffic E token s (snd (m s))"
  using wp_guarded [of "base_ok E" "wdm_request E token" m s] by (simp add: wp_def requests_def wdm_traffic_def)

text \<open>
  Whatever the servers answer, registering, refreshing and unregistering send only requests
  that carry this token, and discover and list and create only at the U2C catalog, at the built-in
  endpoint or at a discovered endpoint that passed the URL check; the cached endpoint stays of
  this kind.
\<close>

theorem device_requests:
  assumes "base_ok E (fst s)"
  shows "wdm_traffic E token s (snd (register E token s)) \<and> wdm_traffic E token s (snd (refresh E token s)) \<and>
    wdm_traffic E token s (snd (unregister E token s))"
  using guarded_traffic [OF register_guarded assms] guarded_traffic [OF refresh_guarded assms]
    guarded_traffic [OF unregister_guarded assms] by blast

theorem device_requests_witness:
  "wdm_traffic sample_env ''t'' (device_manager_new, world_init) (snd (register sample_env ''t'' (device_manager_new, world_init))) \<and>
   wdm_traffic sample_env ''t'' (device_manager_new, world_init) (snd (refresh sample_env ''t'' (device_manager_new, world_init))) \<and>
   wdm_traffic sample_env ''t'' (device_manager_new, world_init) (snd (unregister sample_env ''t'' (device_manager_new, world_init)))"
  by (rule device_requests) (simp add: base_ok_def device_manager_new_def)

section \<open>What a registration satisfies\<close>

definition urls_ok :: "('sk, 'pk, 'rsa) env \<Rightarrow> Types.device_registration \<Rightarrow> bool" where
  "urls_ok E reg \<longleftrightarrow>
     (dr_web_socket_url reg \<noteq> [] \<longrightarrow> validate_webex_url (lower E) (dr_web_socket_url reg) ''wss'' = Inr ()) \<and>
     (dr_encryption_service_url reg \<noteq> [] \<longrightarrow> validate_webex_url (lower E) (dr_encryption_service_url reg) ''https'' = Inr ()) \<and>
     dr_encryption_service_url reg = (case dr_services reg ''encryptionServiceUrl'' of None \<Rightarrow> [] | Some u \<Rightarrow> u)"

lemma accept_registration_Ok: "accept_registration E body = Ok reg \<Longrightarrow> urls_ok E reg"
  by (auto simp: accept_registration_def bind_ok_eq_Ok Let_def urls_ok_def with_encryption_url_def split: if_splits)

fun accepted :: "('sk, 'pk, 'rsa) env \<Rightarrow> Types.device_registration result \<Rightarrow> device_manager \<Rightarrow> bool" where
  "accepted E (Ok reg) d \<longleftrightarrow> urls_ok E reg \<and> dv_device_url d \<noteq> None"
| "accepted E (Err e) d \<longleftrightarrow> True"
| "accepted E (Panic p) d \<longleftrightarrow> True"

lemma wp_any: "(\<And>r t. Q r t) \<Longrightarrow> wp m Q s"
  by (simp add: wp_def)

lemma refresh_post: "wp (refresh E token) (\<lambda>r t. accepted E r (fst t)) s"
proof -
  have "accepted E (accept_registration E body) d" if "dv_device_url d \<noteq> None" for body d
    using that by (cases "accept_registration E body") (simp_all add: accept_registration_Ok)
  then show ?thesis
    by (cases "dv_device_url (fst s)") (auto simp: refresh_def wp_simps split: outcome.split option.split)
qed

lemma create_post: "wp (create_device E token) (\<lambda>r t. accepted E r (fst t)) s"
  unfolding create_device_def wp_bind [of "discover_wdm_base E token"]
  by (rule wp_any) (auto simp: wp_simps accept_registration_Ok split: outcome.split)

lemma create_or_reap_post: "wp (create_or_reap E token) (\<lambda>r t. accepted E r (fst t)) s"
proof -
  have "wp (bindM (reap_own_devices E token) (\<lambda>_. create_device E token)) (\<lambda>r t. accepted E r (fst t)) t" for t
    unfolding wp_bind by (rule wp_any) (simp add: create_post split: outcome.split)
  then show ?thesis unfolding create_or_reap_def wp_match
    by (intro wp_weaken [OF create_post]) (auto simp: wp_return wp_throw split: outcome.split)
qed

lemma register_refresh_post:
  "accepted E (fst (register E token s)) (fst (snd (register E token s))) \<and>
   accepted E (fst (refresh E token s)) (fst (snd (refresh E token s)))"
proof -
  have reuse: "wp (matchM (refresh E token) returnM (\<lambda>e. bindM (updateM (\<lambda>d. d\<lparr>dv_device_url := None\<rparr>)) (\<lambda>_. create_or_reap E token)))
      (\<lambda>r t. accepted E r (fst t)) t" for t
    unfolding wp_match
    by (intro wp_weaken [OF refresh_post]) (auto simp: wp_return wp_bind wp_update create_or_reap_post split: outcome.split)
  have "wp (register E token) (\<lambda>r t. accepted E r (fst t)) s"
    unfolding register_def wp_bind [of "find_reusable_device E token"]
    by (rule wp_any) (simp add: wp_bind [of "updateM f" for f] wp_update create_or_reap_post reuse split: outcome.split option.split)
  with refresh_post [of E token s] show ?thesis by (simp add: wp_def)
qed

text \<open>
  A registration that \<open>register\<close> or \<open>refresh\<close> returns has a WebSocket URL that passed the check
  for \<open>wss\<close> and an encryption service URL that passed it for \<open>https\<close>, where they are not empty, the
  latter taken from its services; and the manager then holds a device URL.
\<close>

theorem registration_validated:
  "accepted E (fst (register E token s)) (fst (snd (register E token s))) \<and>
   accepted E (fst (refresh E token s)) (fst (snd (refresh E token s)))"
  by (rule register_refresh_post)

section \<open>Reaping\<close>

text \<open>
  Reaping deletes exactly this client's devices: one DELETE per device of the list with this
  client's name and type and a URL, in the order of the list, whether or not the previous ones
  succeeded, and no other request; it always succeeds.
\<close>

theorem reap_devices_exact:
  "\<exists>w. reap_devices E token ds s = (Ok (), (fst s, w)) \<and>
     w_sent w = sent_of s @ map (\<lambda>d. delete_request token (dr_device_url d)) (filter own_device ds)"
proof (induction ds arbitrary: s)
  case Nil
  show ?case by (simp add: returnM_def sent_of_def) (metis prod.collapse)
next
  case (Cons d ds)
  show ?case
  proof (cases "own_device d")
    case True
    let ?req = "delete_request token (dr_device_url d)"
    let ?t = "(fst s, (snd s)\<lparr>w_sent := w_sent (snd s) @ [?req]\<rparr>)"
    have "reap_devices E token (d # ds) s = reap_devices E token ds ?t"
      using True by (cases "http_do E (w_sent (snd s)) ?req") (simp_all add: delete_device_def effect_defs split_beta)
    with Cons [of ?t] True show ?thesis by (simp add: sent_of_def)
  next
    case False
    with Cons [of s] show ?thesis by simp
  qed
qed

section \<open>How often it tries\<close>

abbreviation is_post :: "fetch_request \<Rightarrow> bool" where
  "is_post req \<equiv> rq_method req = ''POST''"

lemma no_post:
  "\<not> is_post (get_request token u)" "\<not> is_post (delete_request token u)" "\<not> is_post (body_request E ''PUT'' token u)"
  by (simp_all add: get_request_def delete_request_def body_request_def)

abbreviation posts_nothing :: "(device_manager \<times> world, 'e, 'a) prog \<Rightarrow> bool" where
  "posts_nothing m \<equiv> framed (guarded (\<lambda>_. True) (\<lambda>req. \<not> is_post req)) m"

lemma quiet_discover: "posts_nothing (discover_wdm_base E token)"
  unfolding discover_wdm_base_def by (rule guarded_rules guarded_update no_post TrueI)+

lemma quiet_list: "posts_nothing (list_devices E token)"
  unfolding list_devices_def by (rule quiet_discover guarded_rules no_post)+

lemma quiet_refresh: "posts_nothing (refresh E token)"
  unfolding refresh_def by (rule guarded_rules no_post)+

lemma quiet_reap: "posts_nothing (reap_devices E token ds)"
proof (induction ds)
  case (Cons d ds)
  show ?case unfolding reap_devices.simps delete_device_def by (rule guarded_rules Cons.IH no_post)+
qed (simp add: guarded.framed_return)

lemmas quiet_device = quiet_discover quiet_list quiet_refresh quiet_reap

lemma posts_create: "sends_at_most is_post 1 (create_device E token)"
proof -
  have "sends_at_most is_post (0 + (1 + 0)) (create_device E token)"
    unfolding create_device_def
    by (rule sends_bind sends_map_err sends_fetch | (rule sends_zero, (rule quiet_device guarded_rules guarded_update TrueI)+))+
  then show ?thesis by simp
qed

lemma posts_create_or_reap: "sends_at_most is_post 2 (create_or_reap E token)"
proof -
  have "sends_at_most is_post 1 (bindM (reap_own_devices E token) (\<lambda>_. create_device E token))"
    unfolding reap_own_devices_def by (rule sends_bind_quiet posts_create quiet_device guarded_rules)+
  then have "sends_at_most is_post (1 + 1) (create_or_reap E token)"
    unfolding create_or_reap_def
    by - (rule sends_match sends_if posts_create | assumption | (rule sends_quiet, (rule guarded_rules)+))+
  then show ?thesis by (simp add: numeral_2_eq_2)
qed

text \<open>
  One \<open>register\<close> creates at most two devices: it POSTs at most twice, however the listing,
  the refresh and the reaping go.
\<close>

theorem register_posts_at_most_two:
  "length (filter is_post (sent_of (snd (register E token s)))) \<le> length (filter is_post (sent_of s)) + 2"
proof -
  have "sends_at_most is_post 2 (register E token)"
    unfolding register_def find_reusable_device_def
    by (rule sends_bind_quiet sends_option posts_create_or_reap quiet_device guarded_rules guarded_update TrueI |
        (rule sends_quiet, rule guarded.framed_return) | (rule sends_match [where n = 0, simplified], rule sends_zero))+
  then show ?thesis unfolding sends_at_most_def by blast
qed

section \<open>Discovery\<close>

text \<open>
  Discovery never fails, asks the catalog at most once in the life of the manager, and gives
  a trusted endpoint: after a discovery every later one, with any token and in any environment,
  returns the same endpoint without a request.
\<close>

theorem discover_wdm_base_once:
  assumes "base_ok E (fst s)"
  shows "\<exists>u s'. discover_wdm_base E token s = (Ok u, s') \<and> trusted_base E u \<and> dv_wdm_devices_url (fst s') = Some u \<and>
    length (sent_of s') \<le> length (sent_of s) + 1 \<and> discover_wdm_base E' token' s' = (Ok u, s')"
proof (cases "dv_wdm_devices_url (fst s)")
  case None
  let ?req = "get_request token U2C_CATALOG_URL"
  let ?u = "case http_do E (w_sent (snd s)) ?req of Inl e \<Rightarrow> WDM_API_BASE | Inr r \<Rightarrow> wdm_of_response E r"
  let ?t = "((fst s)\<lparr>dv_wdm_devices_url := Some ?u\<rparr>, (snd s)\<lparr>w_sent := w_sent (snd s) @ [?req]\<rparr>)"
  have "discover_wdm_base E token s = (Ok ?u, ?t)"
    using None by (cases "http_do E (w_sent (snd s)) ?req")
      (simp_all add: discover_wdm_base_def effect_defs split_beta set_wdm_devices_url_def)
  moreover have "discover_wdm_base E' token' ?t = (Ok ?u, ?t)"
    by (simp add: discover_wdm_base_def effect_defs)
  moreover have "trusted_base E ?u" by (simp add: wdm_of_response_trusted trusted_fallback split: sum.split)
  ultimately show ?thesis by (intro exI [of _ ?u] exI [of _ ?t]) (simp add: sent_of_def)
next
  case (Some u)
  moreover have "trusted_base E u" using assms Some by (simp add: base_ok_def)
  ultimately show ?thesis
    by (intro exI [of _ u] exI [of _ s]) (simp add: discover_wdm_base_def effect_defs split_beta)
qed

theorem discover_wdm_base_once_witness:
  "\<exists>u s'. discover_wdm_base sample_env ''t'' (device_manager_new, world_init) = (Ok u, s') \<and> trusted_base sample_env u \<and>
    dv_wdm_devices_url (fst s') = Some u \<and> length (sent_of s') \<le> length (sent_of (device_manager_new, world_init)) + 1 \<and>
    discover_wdm_base sample_env ''t2'' s' = (Ok u, s')"
  by (rule discover_wdm_base_once) (simp add: base_ok_def device_manager_new_def)

section \<open>Unregistering\<close>

definition unregister_request :: "string \<Rightarrow> string \<Rightarrow> fetch_request" where
  "unregister_request token url = \<lparr>rq_url = url, rq_method = ''DELETE'', rq_headers = json_headers token, rq_body = None\<rparr>"

lemma unregister_run:
  "unregister E token (d, w) =
     (case dv_device_url d of
        None \<Rightarrow> (Err (device_registration ''Device not registered. Call register() first.'' None), (d, w))
      | Some url \<Rightarrow>
          (let req = unregister_request token url; w' = w\<lparr>w_sent := w_sent w @ [req]\<rparr> in
           case http_do E (w_sent w) req of
             Inl e \<Rightarrow> (Err (device_registration (''Failed to unregister device: '' @ e) None), (d, w'))
           | Inr resp \<Rightarrow>
               if rs_status resp = 401 then (Err (auth ''Unauthorized to unregister device''), (d, w'))
               else if rs_ok resp \<or> rs_status resp = 404 then (Ok (), (d\<lparr>dv_device_url := None\<rparr>, w'))
               else (Err (device_registration ''Failed to unregister device'' (Some (rs_status resp))), (d, w'))))"
  by (cases "dv_device_url d"; cases "http_do E (w_sent w) (unregister_request token (the (dv_device_url d)))")
    (auto simp: unregister_def effect_defs unregister_request_def Let_def)


section \<open>Reuse\<close>

lemma logged_create_or_reap: "framed (guarded (\<lambda>_. True) (\<lambda>_. True)) (create_or_reap E token)"
proof -
  have "framed (guarded (\<lambda>_. True) (\<lambda>_. True)) (reap_devices E token ds)" for ds
  proof (induction ds)
    case (Cons d ds)
    show ?case unfolding reap_devices.simps delete_device_def by (rule guarded_rules Cons.IH TrueI)+
  qed (simp add: guarded.framed_return)
  then show ?thesis
    unfolding create_or_reap_def create_device_def reap_own_devices_def list_devices_def discover_wdm_base_def
    by - (assumption | rule guarded_rules guarded_update TrueI)+
qed

text \<open>
  Reuse trusts the device list: when the list holds a device with this client's name and type,
  the next request is a PUT with the access token to the URL the list gives for it; no property of
  that URL is asked for.
\<close>

theorem register_puts_to_listed_url:
  assumes "list_devices E token s = (Ok ds, s1)" "List.find own_device ds = Some d"
  shows "\<exists>rs. sent_of (snd (register E token s)) = sent_of s1 @ body_request E ''PUT'' token (dr_device_url d) # rs"
proof -
  let ?t = "((fst s1)\<lparr>dv_device_url := Some (dr_device_url d)\<rparr>, snd s1)"
  let ?put = "body_request E ''PUT'' token (dr_device_url d)"
  have "wp (refresh E token) (\<lambda>r t. \<exists>rs. sent_of t = (sent_of s1 @ [?put]) @ rs) ?t"
    by (cases "http_do E (w_sent (snd s1)) ?put") (simp_all add: refresh_def wp_simps sent_of_def)
  then have "wp (matchM (refresh E token) returnM (\<lambda>e. bindM (updateM (\<lambda>d. d\<lparr>dv_device_url := None\<rparr>)) (\<lambda>_. create_or_reap E token)))
      (\<lambda>r t. \<exists>rs. sent_of t = (sent_of s1 @ [?put]) @ rs) ?t"
    unfolding wp_match
  proof (rule wp_weaken)
    fix r and t :: "device_manager \<times> world" assume log: "\<exists>rs. sent_of t = (sent_of s1 @ [?put]) @ rs"
    have "framed (guarded (\<lambda>_. True) (\<lambda>_. True)) (bindM (updateM (\<lambda>d. d\<lparr>dv_device_url := None\<rparr>)) (\<lambda>_. create_or_reap E token))"
      by (rule logged_create_or_reap guarded_rules guarded_update TrueI)+
    from wp_log [OF this log] log show "case r of Ok x \<Rightarrow> wp (returnM x) (\<lambda>r t. \<exists>rs. sent_of t = (sent_of s1 @ [?put]) @ rs) t
      | Err e \<Rightarrow> wp (bindM (updateM (\<lambda>d. d\<lparr>dv_device_url := None\<rparr>)) (\<lambda>_. create_or_reap E token)) (\<lambda>r t. \<exists>rs. sent_of t = (sent_of s1 @ [?put]) @ rs) t
      | Panic p \<Rightarrow> \<exists>rs. sent_of t = (sent_of s1 @ [?put]) @ rs"
      by (simp add: wp_return split: outcome.split)
  qed
  moreover have "find_reusable_device E token s = (Ok (Some (dr_device_url d)), s1)"
    using assms by (simp add: find_reusable_device_def matchM_def returnM_def)
  ultimately have "wp (register E token) (\<lambda>r t. \<exists>rs. sent_of t = (sent_of s1 @ [?put]) @ rs) s"
    by (simp add: register_def wp_bind [of "find_reusable_device E token"] wp_def [of "find_reusable_device E token"]
        wp_bind [of "updateM f" for f] wp_update)
  then show ?thesis by (simp add: wp_def)
qed

definition listed_device :: json where
  "listed_device = JObject [(''deviceType'', JString ''DESKTOP''), (''name'', JString ''webex-message-handler''),
     (''url'', JString ''https://evil.example/d''), (''userId'', JString ''u''), (''webSocketUrl'', JString [])]"

definition device_list :: json where
  "device_list = JObject [(''devices'', JArray [listed_device])]"

definition listed_env :: "(nat, nat, nat) env" where
  "listed_env = sample_env\<lparr>
     http_do := \<lambda>sent req. Inr \<lparr>rs_status = 200, rs_ok = True, rs_body = as_bytes (put_json device_list)\<rparr>\<rparr>"

lemma listed_env_fields:
  "http_do listed_env = (\<lambda>sent req. Inr \<lparr>rs_status = 200, rs_ok = True, rs_body = as_bytes (put_json device_list)\<rparr>)"
  "json_from_slice listed_env = json_parse"
  "device_list_from_slice listed_env (as_bytes (put_json device_list)) = Inr [listed_device]"
  by (simp_all add: listed_env_def sample_env_def json_parse_put)
    (simp add: device_list_def json_get_def as_array_def)

lemma listed_devices:
  "\<exists>d s1. list_devices listed_env ''t'' (device_manager_new, world_init) = (Ok [d], s1) \<and> own_device d \<and>
     dr_device_url d = ''https://evil.example/d''"
proof -
  obtain d where d: "de_registration listed_device = Some d" "dr_device_url d = ''https://evil.example/d''"
    "dr_name d = Some ''webex-message-handler''" "dr_device_type d = Some ''DESKTOP''"
    by (simp add: de_registration_def listed_device_def fields_of_def fld_req_def fld_def de_opt_def)
  have "Option.bind (json_get ''serviceLinks'' device_list) (get_str ''wdm'') = None"
    by (simp add: device_list_def json_get_def)
  then have "wdm_of_response listed_env \<lparr>rs_status = 200, rs_ok = True, rs_body = as_bytes (put_json device_list)\<rparr> = WDM_API_BASE"
    by (simp add: wdm_of_response_def listed_env_fields json_parse_put)
  then have "\<exists>s1. list_devices listed_env ''t'' (device_manager_new, world_init) = (Ok [with_encryption_url d], s1)"
    using d(1) by (simp add: list_devices_def discover_wdm_base_def effect_defs device_manager_new_def listed_env_fields map_filter_simps)
  moreover have "own_device (with_encryption_url d)" "dr_device_url (with_encryption_url d) = ''https://evil.example/d''"
    using d by (simp_all add: own_device_def with_encryption_url_def)
  ultimately show ?thesis by blast
qed

theorem register_puts_to_listed_url_witness:
  "\<exists>before rs. sent_of (snd (register listed_env ''t'' (device_manager_new, world_init))) =
     before @ body_request listed_env ''PUT'' ''t'' ''https://evil.example/d'' # rs"
proof -
  obtain d s1 where l: "list_devices listed_env ''t'' (device_manager_new, world_init) = (Ok [d], s1)"
    "own_device d" "dr_device_url d = ''https://evil.example/d''" using listed_devices by blast
  then have "List.find own_device [d] = Some d" by simp
  from register_puts_to_listed_url [OF l(1) this] l(3) show ?thesis by auto
qed

end
