(* ===== verification/Mercury_Socket.thy ===== *)
theory Mercury_Socket
  imports Sample_Env
begin

text \<open>
  \<^verbatim>\<open>mercury_socket.rs\<close>: the WebSocket connection. The record is the state its tasks share (the
  \<open>Arc<Mutex<..>>\<close> fields), with the events sent to the handler, the frames written, and how many
  read loops are reading and how many are sleeping out a reconnection backoff. \<open>connect\<close> is a
  program; what the tasks do afterwards are functions of the shared state, interleaved by the step
  relation at the end.
\<close>

datatype mercury_event =
    EvConnected
  | EvDisconnected string
  | EvReconnecting u32
  | EvActivity mercury_activity
  | EvKmsResponse json
  | EvError string

record mercury_socket =
  ms_ping_interval :: real
  ms_pong_timeout :: real
  ms_reconnect_backoff_max :: real
  ms_max_reconnect_attempts :: u32
  ms_reconnect_stability :: real
  ms_token :: string
  ms_base_url :: string
  ms_connected :: bool
  ms_should_reconnect :: bool
  ms_reconnect_attempts :: u32
  ms_stability_pending :: bool
  ms_rx_taken :: bool
  ms_events :: "mercury_event list"
  ms_frames :: "string list"
  ms_reading :: nat
  ms_sleeping :: nat

definition mercury_socket_new :: "real \<Rightarrow> real \<Rightarrow> real \<Rightarrow> u32 \<Rightarrow> real \<Rightarrow> mercury_socket" where
  "mercury_socket_new ping_interval pong_timeout reconnect_backoff_max max_reconnect_attempts reconnect_stability =
     \<lparr>ms_ping_interval = ping_interval, ms_pong_timeout = pong_timeout,
      ms_reconnect_backoff_max = reconnect_backoff_max, ms_max_reconnect_attempts = max_reconnect_attempts,
      ms_reconnect_stability = reconnect_stability,
      ms_token = [], ms_base_url = [], ms_connected = False, ms_should_reconnect = True,
      ms_reconnect_attempts = 0, ms_stability_pending = False, ms_rx_taken = False, ms_events = [],
      ms_frames = [], ms_reading = 0, ms_sleeping = 0\<rparr>"

definition take_event_rx :: "mercury_socket \<Rightarrow> bool \<times> mercury_socket" where
  "take_event_rx st = (\<not> ms_rx_taken st, st\<lparr>ms_rx_taken := True\<rparr>)"

definition emit :: "mercury_event \<Rightarrow> mercury_socket \<Rightarrow> mercury_socket" where
  "emit ev st = st\<lparr>ms_events := ms_events st @ [ev]\<rparr>"

definition write_frame :: "string \<Rightarrow> mercury_socket \<Rightarrow> mercury_socket" where
  "write_frame text st = st\<lparr>ms_frames := ms_frames st @ [text]\<rparr>"

section \<open>The stability timer\<close>

definition cancel_stability_timer :: "mercury_socket \<Rightarrow> mercury_socket" where
  "cancel_stability_timer st = st\<lparr>ms_stability_pending := False\<rparr>"

definition schedule_attempts_reset :: "mercury_socket \<Rightarrow> mercury_socket" where
  "schedule_attempts_reset st = st\<lparr>ms_stability_pending := True\<rparr>"

text \<open>The body of the timer task once its sleep is over.\<close>

definition attempts_reset_fires :: "mercury_socket \<Rightarrow> mercury_socket" where
  "attempts_reset_fires st = st\<lparr>ms_stability_pending := False,
     ms_reconnect_attempts := (if ms_reconnect_attempts st > 0 then 0 else ms_reconnect_attempts st)\<rparr>"

section \<open>Connecting\<close>

definition prepare_url :: "('sk, 'pk, 'rsa) env \<Rightarrow> string \<Rightarrow> nat \<Rightarrow> string result" where
  "prepare_url E base_url millis =
     of_sum (\<lambda>e. mercury_connection (''Invalid URL: '' @ e) None)
       (url_append E base_url
          [(''outboundWireFormat'', ''text''), (''bufferStates'', ''true''), (''aliasHttpStatus'', ''true''),
           (''clientTimestamp'', show_nat millis)])"

definition event_type_of :: "json \<Rightarrow> string option" where
  "event_type_of message = Option.bind (json_get ''data'' message) (get_str ''eventType'')"

definition is_connection_ready :: "json \<Rightarrow> bool" where
  "is_connection_ready message =
     (let event_type = (case event_type_of message of None \<Rightarrow> [] | Some t \<Rightarrow> t) in
      str_contains ''mercury.buffer_state'' event_type \<or> str_contains ''mercury.registration_status'' event_type)"

text \<open>The loop that waits for the ready message, over what is read before the timeout.\<close>

fun wait_ready :: "('sk, 'pk, 'rsa) env \<Rightarrow> ws_item list \<Rightarrow> bool \<Rightarrow> json result" where
  "wait_ready E [] timed_out =
     Err (mercury_connection (if timed_out then ''Mercury connection timeout'' else ''WebSocket closed during setup'') None)"
| "wait_ready E (msg # msgs) timed_out =
     (case msg of
        WsText text \<Rightarrow>
          (case json_from_slice E (as_bytes text) of
             Inr parsed \<Rightarrow> if is_connection_ready parsed then Ok parsed else wait_ready E msgs timed_out
           | Inl e \<Rightarrow> wait_ready E msgs timed_out)
      | WsErr e \<Rightarrow> Err (mercury_connection (''WebSocket error during setup: '' @ e) None)
      | _ \<Rightarrow> wait_ready E msgs timed_out)"

definition auth_message :: "string \<Rightarrow> string \<Rightarrow> json" where
  "auth_message msg_id token = json_obj
     [(''id'', JString msg_id), (''type'', JString ''authorization''),
      (''data'', json_obj [(''token'', JString (''Bearer '' @ token))])]"

definition connect_internal :: "('sk, 'pk, 'rsa) env \<Rightarrow> (mercury_socket \<times> world, unit) meth" where
  "connect_internal E =
     bindM (fieldM ms_base_url) (\<lambda>base_url.
     bindM (drawM (unix_millis E)) (\<lambda>millis.
     bindM (liftM (prepare_url E base_url millis)) (\<lambda>prepared_url.
     bindM (updateM (\<lambda>st. st\<lparr>ms_connected := False\<rparr>)) (\<lambda>_.
     bindM (drawM (\<lambda>i. ws_open E i prepared_url)) (\<lambda>opened.
     bindM (liftM (of_sum (\<lambda>e. mercury_connection (''Failed to connect: '' @ e) None) opened)) (\<lambda>_.
     bindM (fieldM ms_token) (\<lambda>token.
     bindM (uuidM E) (\<lambda>msg_id.
     let text = json_to_string E (auth_message msg_id token) in
     bindM (drawM (\<lambda>i. ws_send E i text)) (\<lambda>sent.
     bindM (liftM (of_sum (\<lambda>e. mercury_connection (''Failed to send auth: '' @ e) None) sent)) (\<lambda>_.
     bindM (updateM (write_frame text)) (\<lambda>_.
     bindM (drawM (ws_setup E)) (\<lambda>(msgs, timed_out).
     bindM (liftM (wait_ready E msgs timed_out)) (\<lambda>_.
     updateM (\<lambda>st. st\<lparr>ms_connected := True, ms_reading := ms_reading st + 1\<rparr>))))))))))))))"

definition connect :: "('sk, 'pk, 'rsa) env \<Rightarrow> string \<Rightarrow> string \<Rightarrow> (mercury_socket \<times> world, unit) meth" where
  "connect E ws_url token =
     bindM (updateM (\<lambda>st. st\<lparr>ms_token := token, ms_base_url := ws_url, ms_should_reconnect := True\<rparr>)) (\<lambda>_.
     bindM (updateM cancel_stability_timer) (\<lambda>_.
     bindM (connect_internal E) (\<lambda>_.
     updateM schedule_attempts_reset)))"

section \<open>The ping loop\<close>

text \<open>One tick: nothing once disconnected, else a ping frame.\<close>

definition ping_tick :: "('sk, 'pk, 'rsa) env \<Rightarrow> string \<Rightarrow> mercury_socket \<Rightarrow> mercury_socket" where
  "ping_tick E ping_id st =
     (if \<not> ms_connected st then st
      else write_frame (json_to_string E (json_obj [(''id'', JString ping_id), (''type'', JString ''ping'')])) st)"

section \<open>Messages\<close>

definition ack_message :: "string \<Rightarrow> json" where
  "ack_message msg_id = json_obj [(''messageId'', JString msg_id), (''type'', JString ''ack'')]"

definition handle_message_static :: "('sk, 'pk, 'rsa) env \<Rightarrow> json \<Rightarrow> mercury_socket \<Rightarrow> mercury_socket" where
  "handle_message_static E message st =
     (let msg_type = (case get_str ''type'' message of None \<Rightarrow> [] | Some t \<Rightarrow> t) in
      if msg_type = ''pong'' then st
      else if msg_type = ''shutdown'' then st
      else
        (case json_get ''data'' message of
           None \<Rightarrow> st
         | Some data \<Rightarrow>
             (case get_str ''eventType'' data of
                None \<Rightarrow> st
              | Some event_type \<Rightarrow>
                  let st = (case get_str ''id'' message of
                        None \<Rightarrow> st
                      | Some msg_id \<Rightarrow> write_frame (json_to_string E (ack_message msg_id)) st) in
                  if starts_with ''encryption.'' event_type then emit (EvKmsResponse data) st
                  else if event_type = ''conversation.activity'' then
                    (case json_get ''activity'' data of
                       None \<Rightarrow> st
                     | Some activity_raw \<Rightarrow>
                         (case de_activity activity_raw of
                            None \<Rightarrow> st
                          | Some activity \<Rightarrow>
                              emit (EvActivity (activity\<lparr>av_object := finalize_inputs (av_object activity)\<rparr>)) st))
                  else st)))"

definition MAX_MESSAGE_BYTES :: nat where
  "MAX_MESSAGE_BYTES = 1048576"

definition read_text :: "('sk, 'pk, 'rsa) env \<Rightarrow> string \<Rightarrow> mercury_socket \<Rightarrow> mercury_socket" where
  "read_text E text st =
     (if length text > MAX_MESSAGE_BYTES then st
      else
        (case json_from_slice E (as_bytes text) of
           Inl e \<Rightarrow> st
         | Inr parsed \<Rightarrow> handle_message_static E parsed st))"

section \<open>Closing\<close>

text \<open>\<open>2.0f64.powi(n)\<close>\<close>

definition powi2 :: "int \<Rightarrow> real" where
  "powi2 n = (if 0 \<le> n then 2 ^ nat n else 1 / 2 ^ nat (- n))"

definition backoff_delay :: "real \<Rightarrow> u32 \<Rightarrow> real" where
  "backoff_delay backoff_max attempt = min (powi2 (sint (attempt - 1))) backoff_max"

definition show_u16 :: "u16 \<Rightarrow> string" where
  "show_u16 w = show_nat (unat w)"

text \<open>
  \<open>handle_close_static\<close> up to its sleep: the state, and the delay in seconds when it goes to sleep.
  \<open>reconnect_needed\<close> is what it does after the sleep.
\<close>

definition handle_close_static :: "u16 \<Rightarrow> mercury_socket \<Rightarrow> mercury_socket \<times> real option" where
  "handle_close_static close_code st0 =
     (let st = cancel_stability_timer (st0\<lparr>ms_connected := False\<rparr>) in
      if close_code = 4401 then
        (emit (EvDisconnected ''auth-failed'')
          (emit (EvError ''Mercury authorization failed'') (st\<lparr>ms_should_reconnect := False\<rparr>)), None)
      else if close_code = 4400 \<or> close_code = 4403 then
        (emit (EvDisconnected ''permanent-failure'')
          (emit (EvError (''Mercury permanent failure (code '' @ show_u16 close_code @ '')'')) (st\<lparr>ms_should_reconnect := False\<rparr>)), None)
      else if ms_should_reconnect st then
        (if ms_reconnect_attempts st \<ge> ms_max_reconnect_attempts st then
           (emit (EvDisconnected ''max-attempts-exceeded'') (st\<lparr>ms_should_reconnect := False\<rparr>), None)
         else
           let attempt = ms_reconnect_attempts st + 1 in
           (emit (EvReconnecting attempt) (st\<lparr>ms_reconnect_attempts := attempt\<rparr>),
            Some (backoff_delay (ms_reconnect_backoff_max st) attempt)))
      else (emit (EvDisconnected ''manual'') st, None))"

definition reconnect_needed :: "mercury_socket \<Rightarrow> mercury_socket" where
  "reconnect_needed st = emit (EvDisconnected ''reconnect-needed'') st"

text \<open>A close frame ends its read loop, at once or after the backoff.\<close>

definition read_close :: "(u16 \<times> string) option \<Rightarrow> mercury_socket \<Rightarrow> mercury_socket" where
  "read_close frame st =
     (let close_code = (case frame of None \<Rightarrow> 1000 | Some (c, reason) \<Rightarrow> c);
          (st', delay) = handle_close_static close_code st in
      st'\<lparr>ms_reading := ms_reading st' - 1,
          ms_sleeping := (case delay of None \<Rightarrow> ms_sleeping st' | Some d \<Rightarrow> ms_sleeping st' + 1)\<rparr>)"

definition read_error :: "string \<Rightarrow> mercury_socket \<Rightarrow> mercury_socket" where
  "read_error e st = (emit (EvError e) st)\<lparr>ms_connected := False, ms_reading := ms_reading st - 1\<rparr>"

text \<open>The stream ends without a close frame: the loop ends and nothing else happens.\<close>

definition read_end :: "mercury_socket \<Rightarrow> mercury_socket" where
  "read_end st = st\<lparr>ms_reading := ms_reading st - 1\<rparr>"

definition wake :: "mercury_socket \<Rightarrow> mercury_socket" where
  "wake st = (reconnect_needed st)\<lparr>ms_sleeping := ms_sleeping st - 1\<rparr>"

definition disconnect :: "mercury_socket \<Rightarrow> mercury_socket" where
  "disconnect st =
     emit (EvDisconnected ''client'')
       (cancel_stability_timer (st\<lparr>ms_should_reconnect := False, ms_connected := False\<rparr>))"

text \<open>The accessors \<open>connected\<close> and \<open>current_reconnect_attempts\<close>.\<close>

definition socket_connected :: "mercury_socket \<Rightarrow> bool" where
  "socket_connected st = ms_connected st"

definition current_reconnect_attempts :: "mercury_socket \<Rightarrow> u32" where
  "current_reconnect_attempts st = ms_reconnect_attempts st"

end
