(* ===== verification/Mercury_Props.thy ===== *)
theory Mercury_Props
  imports Mercury_Socket
begin

text \<open>
  The properties of the Mercury socket: what one message, one close and one connect do, and the
  invariants of every interleaving of its tasks.
\<close>

section \<open>One message\<close>

lemma emit_simps [simp]:
  "ms_events (emit ev st) = ms_events st @ [ev]" "ms_frames (emit ev st) = ms_frames st"
  "ms_connected (emit ev st) = ms_connected st" "ms_should_reconnect (emit ev st) = ms_should_reconnect st"
  "ms_reconnect_attempts (emit ev st) = ms_reconnect_attempts st" "ms_max_reconnect_attempts (emit ev st) = ms_max_reconnect_attempts st"
  "ms_stability_pending (emit ev st) = ms_stability_pending st" "ms_sleeping (emit ev st) = ms_sleeping st"
  "ms_reading (emit ev st) = ms_reading st" "ms_reconnect_backoff_max (emit ev st) = ms_reconnect_backoff_max st"
  by (simp_all add: emit_def)

lemma write_frame_simps [simp]:
  "ms_frames (write_frame t st) = ms_frames st @ [t]" "ms_events (write_frame t st) = ms_events st"
  "ms_connected (write_frame t st) = ms_connected st" "ms_should_reconnect (write_frame t st) = ms_should_reconnect st"
  "ms_reconnect_attempts (write_frame t st) = ms_reconnect_attempts st"
  "ms_max_reconnect_attempts (write_frame t st) = ms_max_reconnect_attempts st"
  "ms_stability_pending (write_frame t st) = ms_stability_pending st" "ms_sleeping (write_frame t st) = ms_sleeping st"
  "ms_reading (write_frame t st) = ms_reading st"
  by (simp_all add: write_frame_def)

text \<open>The acknowledgement and the event that a message calls for.\<close>

definition acked_id :: "json \<Rightarrow> string option" where
  "acked_id message =
     (if get_str ''type'' message \<in> {Some ''pong'', Some ''shutdown''} \<or> event_type_of message = None then None
      else get_str ''id'' message)"

definition event_of :: "json \<Rightarrow> mercury_event option" where
  "event_of message =
     (if get_str ''type'' message \<in> {Some ''pong'', Some ''shutdown''} then None
      else
        (case (json_get ''data'' message, event_type_of message) of
           (Some data, Some t) \<Rightarrow>
             if starts_with ''encryption.'' t then Some (EvKmsResponse data)
             else if t = ''conversation.activity'' then
               map_option (\<lambda>a. EvActivity (a\<lparr>av_object := finalize_inputs (av_object a)\<rparr>))
                 (Option.bind (json_get ''activity'' data) de_activity)
             else None
         | _ \<Rightarrow> None))"

definition opt_list :: "'a option \<Rightarrow> 'a list" where
  "opt_list x = (case x of None \<Rightarrow> [] | Some a \<Rightarrow> [a])"

lemma opt_list_simps [simp]: "opt_list None = []" "opt_list (Some a) = [a]"
  by (simp_all add: opt_list_def)

lemma handle_message_shape:
  "handle_message_static E message st =
     st\<lparr>ms_frames := ms_frames st @ map (\<lambda>i. json_to_string E (ack_message i)) (opt_list (acked_id message)),
       ms_events := ms_events st @ opt_list (event_of message)\<rparr>"
proof (cases "get_str ''type'' message \<in> {Some ''pong'', Some ''shutdown''}")
  case True
  then show ?thesis by (auto simp: handle_message_static_def acked_id_def event_of_def)
next
  case False
  then have t: "(case get_str ''type'' message of None \<Rightarrow> [] | Some t \<Rightarrow> t) \<notin> {''pong'', ''shutdown''}"
    by (auto split: option.split)
  show ?thesis
  proof (cases "event_type_of message")
    case None
    with False t show ?thesis
      by (auto simp: handle_message_static_def acked_id_def event_of_def event_type_of_def Let_def split: option.split)
  next
    case (Some et)
    then obtain data where d: "json_get ''data'' message = Some data" "get_str ''eventType'' data = Some et"
      by (auto simp: event_type_of_def bind_eq_Some_conv)
    with False t Some show ?thesis
      by (cases "get_str ''id'' message"; cases "json_get ''activity'' data")
        (auto simp: handle_message_static_def acked_id_def event_of_def Let_def emit_def write_frame_def split: option.split)
  qed
qed

text \<open>
  A message that arrives does exactly this: it is acknowledged once, by its identifier, when it
  carries an event and an identifier, and it yields at most one event: the data of an
  \<open>encryption.\<close> event for the KMS, or the activity of a \<open>conversation.activity\<close> event with its
  encrypted inputs split out. Nothing else of the socket changes; oversized and malformed texts do
  nothing.
\<close>

theorem handle_message_exact:
  "handle_message_static E message st =
     st\<lparr>ms_frames := ms_frames st @ map (\<lambda>i. json_to_string E (ack_message i)) (opt_list (acked_id message)),
       ms_events := ms_events st @ opt_list (event_of message)\<rparr>"
  by (rule handle_message_shape)

section \<open>Connecting\<close>

lemma connect_post:
  "case connect E url token (st, w) of (r, (st', w')) \<Rightarrow>
     ms_reconnect_attempts st' = ms_reconnect_attempts st \<and> ms_max_reconnect_attempts st' = ms_max_reconnect_attempts st \<and>
     ms_events st' = ms_events st \<and> ms_sleeping st' = ms_sleeping st \<and>
     ms_should_reconnect st' \<and> ms_token st' = token \<and> ms_base_url st' = url \<and>
     (if r = Ok () then ms_connected st' \<and> ms_reading st' = ms_reading st + 1 \<and> ms_stability_pending st'
      else ms_reading st' = ms_reading st \<and> \<not> ms_stability_pending st' \<and>
        ms_connected st' = (ms_connected st \<and> \<not> is_ok (prepare_url E url (unix_millis E (w_ticks w)))))"
  (is "case ?run of (r, (st', w')) \<Rightarrow> ?post r st'")
proof -
  have "wp (connect E url token) (\<lambda>r t. ?post r (fst t)) (st, w)"
    unfolding connect_def connect_internal_def Let_def
    by (simp add: wp_simps cancel_stability_timer_def schedule_attempts_reset_def write_frame_def
        split: outcome.split prod.split)
  then show ?thesis by (simp add: wp_def split_beta)
qed

text \<open>
  Connecting never forgives reconnection attempts and emits no event, on success or failure. On
  success the socket is connected, one more read loop runs and the stability timer is set; on any
  failure it is not connected, no loop was started and no timer is set, unless the URL itself was
  refused, which leaves the connected flag as it was.
\<close>

theorem connect_cases:
  "case connect E url token (st, w) of (r, (st', w')) \<Rightarrow>
     ms_reconnect_attempts st' = ms_reconnect_attempts st \<and> ms_max_reconnect_attempts st' = ms_max_reconnect_attempts st \<and>
     ms_events st' = ms_events st \<and> ms_sleeping st' = ms_sleeping st \<and>
     ms_should_reconnect st' \<and> ms_token st' = token \<and> ms_base_url st' = url \<and>
     (if r = Ok () then ms_connected st' \<and> ms_reading st' = ms_reading st + 1 \<and> ms_stability_pending st'
      else ms_reading st' = ms_reading st \<and> \<not> ms_stability_pending st' \<and>
        ms_connected st' = (ms_connected st \<and> \<not> is_ok (prepare_url E url (unix_millis E (w_ticks w)))))"
  by (rule connect_post)

section \<open>The tasks interleaved\<close>

text \<open>
  A step of the socket: a call of \<open>connect\<close> or \<open>disconnect\<close> by its owner, something read by one of
  the read loops, the end of a backoff sleep, a ping, or the stability timer firing.
\<close>

inductive task_step :: "('sk, 'pk, 'rsa) env \<Rightarrow> mercury_socket \<Rightarrow> mercury_socket \<Rightarrow> bool" for E where
  step_text: "0 < ms_reading st \<Longrightarrow> task_step E st (read_text E text st)"
| step_close: "0 < ms_reading st \<Longrightarrow> task_step E st (read_close frame st)"
| step_error: "0 < ms_reading st \<Longrightarrow> task_step E st (read_error e st)"
| step_end: "0 < ms_reading st \<Longrightarrow> task_step E st (read_end st)"
| step_wake: "0 < ms_sleeping st \<Longrightarrow> task_step E st (wake st)"
| step_ping: "task_step E st (ping_tick E ping_id st)"
| step_stable: "ms_stability_pending st \<Longrightarrow> task_step E st (attempts_reset_fires st)"

inductive mercury_step :: "('sk, 'pk, 'rsa) env \<Rightarrow> mercury_socket \<Rightarrow> mercury_socket \<Rightarrow> bool" for E where
  step_connect: "connect E url token (st, w) = (r, (st', w')) \<Longrightarrow> mercury_step E st st'"
| step_disconnect: "mercury_step E st (disconnect st)"
| step_task: "task_step E st st' \<Longrightarrow> mercury_step E st st'"

inductive mercury_reach :: "('sk, 'pk, 'rsa) env \<Rightarrow> mercury_socket \<Rightarrow> mercury_socket \<Rightarrow> bool" for E where
  reach_refl: "mercury_reach E st st"
| reach_step: "mercury_reach E st st' \<Longrightarrow> mercury_step E st' st'' \<Longrightarrow> mercury_reach E st st''"

fun is_reconnecting :: "mercury_event \<Rightarrow> bool" where
  "is_reconnecting (EvReconnecting n) = True"
| "is_reconnecting ev = False"

text \<open>
  The invariant: the attempt counter is within its limit, every announced reconnection was
  followed by its \<open>reconnect-needed\<close> or is still in its backoff, every announced attempt number is
  within the limit, and \<open>Connected\<close> is never emitted.
\<close>

definition event_ok :: "u32 \<Rightarrow> mercury_event \<Rightarrow> bool" where
  "event_ok n ev \<longleftrightarrow> ev \<noteq> EvConnected \<and> (\<forall>k. ev = EvReconnecting k \<longrightarrow> 1 \<le> k \<and> k \<le> n)"

definition mercury_inv :: "mercury_socket \<Rightarrow> bool" where
  "mercury_inv st \<longleftrightarrow>
     ms_reconnect_attempts st \<le> ms_max_reconnect_attempts st \<and>
     length (filter is_reconnecting (ms_events st)) =
       length (filter (\<lambda>ev. ev = EvDisconnected ''reconnect-needed'') (ms_events st)) + ms_sleeping st \<and>
     list_all (event_ok (ms_max_reconnect_attempts st)) (ms_events st)"

fun from_server :: "mercury_event \<Rightarrow> bool" where
  "from_server (EvActivity a) = True"
| "from_server (EvKmsResponse d) = True"
| "from_server ev = False"

lemma read_text_cases:
  obtains fs es where "read_text E t st = st\<lparr>ms_frames := ms_frames st @ fs, ms_events := ms_events st @ es\<rparr>"
    "list_all from_server es"
proof (cases "length t > MAX_MESSAGE_BYTES \<or> (\<exists>e. json_from_slice E (as_bytes t) = Inl e)")
  case True
  then have "read_text E t st = st\<lparr>ms_frames := ms_frames st @ [], ms_events := ms_events st @ []\<rparr>"
    by (auto simp: read_text_def)
  then show ?thesis by (rule that) simp
next
  case False
  then obtain j where j: "json_from_slice E (as_bytes t) = Inr j" by (cases "json_from_slice E (as_bytes t)") auto
  have "list_all from_server (opt_list (event_of j))"
    by (cases "json_get ''data'' j"; cases "event_type_of j"; cases "Option.bind (json_get ''activity'' (the (json_get ''data'' j))) de_activity")
      (simp_all add: event_of_def)
  moreover from False j have "read_text E t st = handle_message_static E j st" by (auto simp: read_text_def)
  ultimately show ?thesis using that handle_message_shape [of E j st] by metis
qed

lemma from_server_ok:
  "from_server ev \<Longrightarrow> event_ok n ev" "from_server ev \<Longrightarrow> \<not> is_reconnecting ev" "\<not> from_server (EvDisconnected r)"
  by (cases ev; simp add: event_ok_def)+

lemma filter_from_server:
  assumes "list_all from_server es"
  shows "filter is_reconnecting es = []" "filter (\<lambda>ev. ev = EvDisconnected r) es = []" "list_all (event_ok n) es"
proof -
  from assms have es: "from_server ev" if "ev \<in> set es" for ev using that by (simp add: list_all_iff)
  show "filter is_reconnecting es = []" using es from_server_ok(2) by (simp add: filter_empty_conv)
  show "filter (\<lambda>ev. ev = EvDisconnected r) es = []" using es from_server_ok(3) by (metis (mono_tags) filter_False)
  show "list_all (event_ok n) es" using es from_server_ok(1) by (simp add: list_all_iff)
qed

lemma word_succ_le:
  assumes "a < (b :: u32)"
  shows "a + 1 \<le> b" "1 \<le> a + 1" "a + 1 \<noteq> 0"
proof -
  show "a + 1 \<le> b" using assms by (rule inc_le)
  have "a \<noteq> - 1" using assms word_order.extremum_strict by blast
  then show "a + 1 \<noteq> 0" by (simp add: eq_neg_iff_add_eq_0)
  then show "1 \<le> a + 1" by (metis not_le word_less_1)
qed

lemma task_step_inv: "task_step E st st' \<Longrightarrow> mercury_inv st \<Longrightarrow> mercury_inv st'"
proof (induction rule: task_step.induct)
  case (step_text st msg)
  obtain fs es where "read_text E msg st = st\<lparr>ms_frames := ms_frames st @ fs, ms_events := ms_events st @ es\<rparr>"
    "list_all from_server es" by (rule read_text_cases)
  with step_text show ?case by (simp add: mercury_inv_def filter_from_server)
next
  case (step_close st frame)
  let ?c = "case frame of None \<Rightarrow> 1000 | Some (c, reason) \<Rightarrow> c"
  show ?case
  proof (cases "?c \<in> {4401, 4400, 4403} \<or> \<not> ms_should_reconnect st \<or> ms_reconnect_attempts st \<ge> ms_max_reconnect_attempts st")
    case True
    with step_close show ?thesis
      by (auto simp: mercury_inv_def read_close_def handle_close_static_def cancel_stability_timer_def event_ok_def Let_def)
  next
    case False
    then have "ms_reconnect_attempts st < ms_max_reconnect_attempts st" by (simp add: not_le)
    note this word_succ_le [OF this]
    with False step_close show ?thesis
      by (simp add: mercury_inv_def read_close_def handle_close_static_def cancel_stability_timer_def event_ok_def Let_def)
  qed
next
  case (step_wake st)
  then show ?case by (simp add: mercury_inv_def wake_def reconnect_needed_def event_ok_def)
qed (auto simp: mercury_inv_def read_error_def read_end_def ping_tick_def attempts_reset_fires_def event_ok_def)

lemma mercury_step_inv: "mercury_step E st st' \<Longrightarrow> mercury_inv st \<Longrightarrow> mercury_inv st'"
proof (induction rule: mercury_step.induct)
  case (step_connect url token st w r st' w')
  with connect_post [where E = E and url = url and token = token and st = st and w = w] show ?case by (simp add: mercury_inv_def split: if_splits)
next
  case (step_disconnect st)
  then show ?case by (simp add: mercury_inv_def disconnect_def cancel_stability_timer_def event_ok_def)
qed (rule task_step_inv)

lemma mercury_reach_inv: "mercury_reach E st st' \<Longrightarrow> mercury_inv st \<Longrightarrow> mercury_inv st'"
  by (induction rule: mercury_reach.induct) (auto dest: mercury_step_inv)

lemma mercury_inv_new: "mercury_inv (mercury_socket_new ping pong backoff n stability)"
  by (simp add: mercury_inv_def mercury_socket_new_def)

text \<open>
  C26. In every interleaving of connects, disconnects, messages, closes, errors, backoffs, pings and
  the stability timer, from a new socket: the attempt counter never exceeds the configured limit,
  every announced reconnection is followed by exactly one \<open>reconnect-needed\<close> (or is still in its
  backoff), every announced attempt number is between one and the limit, and \<open>Connected\<close> is never
  emitted.
\<close>

theorem mercury_invariant:
  assumes "mercury_reach E (mercury_socket_new ping pong backoff n stability) st"
  shows "mercury_inv st"
  using mercury_reach_inv [OF assms mercury_inv_new] .

theorem mercury_invariant_witness:
  "mercury_inv (disconnect (mercury_socket_new 15 14 32 10 60))"
proof (rule mercury_invariant)
  show "mercury_reach sample_env (mercury_socket_new 15 14 32 10 60) (disconnect (mercury_socket_new 15 14 32 10 60))"
    by (rule reach_step [OF reach_refl step_disconnect])
qed

section \<open>Flapping\<close>

text \<open>
  \<open>k\<close> rounds of a connection that is opened and closed again by the server before the stability
  timer fires, each followed or not by the end of its backoff.
\<close>

definition transient :: "u16 \<Rightarrow> bool" where
  "transient c \<longleftrightarrow> c \<notin> {4401, 4400, 4403}"

inductive flaps :: "('sk, 'pk, 'rsa) env \<Rightarrow> nat \<Rightarrow> mercury_socket \<Rightarrow> mercury_socket \<Rightarrow> bool" for E where
  flaps_0: "flaps E 0 st st"
| flaps_Suc: "flaps E k st st1 \<Longrightarrow> connect E url token (st1, w) = (Ok (), (st2, w')) \<Longrightarrow> transient c \<Longrightarrow>
     st3 \<in> {read_close (Some (c, reason)) st2, wake (read_close (Some (c, reason)) st2)} \<Longrightarrow> flaps E (Suc k) st st3"

lemma read_close_transient:
  assumes "transient c" "ms_should_reconnect st" "st' \<in> {read_close (Some (c, reason)) st, wake (read_close (Some (c, reason)) st)}"
  shows "ms_max_reconnect_attempts st' = ms_max_reconnect_attempts st"
    and "ms_reconnect_attempts st < ms_max_reconnect_attempts st \<Longrightarrow> ms_reconnect_attempts st' = ms_reconnect_attempts st + 1"
    and "ms_max_reconnect_attempts st \<le> ms_reconnect_attempts st \<Longrightarrow>
      ms_reconnect_attempts st' = ms_reconnect_attempts st \<and> \<not> ms_should_reconnect st' \<and>
      EvDisconnected ''max-attempts-exceeded'' \<in> set (ms_events st')"
  using assms
  by (auto simp: transient_def read_close_def handle_close_static_def cancel_stability_timer_def wake_def
      reconnect_needed_def Let_def not_less [symmetric])

lemma unat_succ: "a < (b :: u32) \<Longrightarrow> unat (a + 1) = Suc (unat a)"
  using word_succ_le(3) [of a b] unatSuc [of a] by (simp add: add.commute)

text \<open>
  C27. A flap storm ends. While the connection keeps being closed before the stability timer fires,
  reconnecting does not forgive attempts: after \<open>k\<close> rounds the counter has grown by \<open>k\<close>, and the
  first round beyond the limit gives up with \<open>max-attempts-exceeded\<close> and turns reconnection off.
\<close>

theorem flap_storm:
  assumes "flaps E k st st'" "ms_reconnect_attempts st \<le> ms_max_reconnect_attempts st"
  shows "unat (ms_reconnect_attempts st') = min (unat (ms_reconnect_attempts st) + k) (unat (ms_max_reconnect_attempts st)) \<and>
    (unat (ms_max_reconnect_attempts st) < unat (ms_reconnect_attempts st) + k \<longrightarrow>
       \<not> ms_should_reconnect st' \<and> EvDisconnected ''max-attempts-exceeded'' \<in> set (ms_events st'))"
proof -
  let ?a = "ms_reconnect_attempts" and ?m = "ms_max_reconnect_attempts"
  have "?m st' = ?m st \<and> unat (?a st') = min (unat (?a st) + k) (unat (?m st)) \<and>
    (unat (?m st) < unat (?a st) + k \<longrightarrow> \<not> ms_should_reconnect st' \<and> EvDisconnected ''max-attempts-exceeded'' \<in> set (ms_events st'))"
    using assms
  proof (induction rule: flaps.induct)
    case (flaps_0 st)
    then show ?case by (simp add: word_le_nat_alt)
  next
    case (flaps_Suc k st st1 url token w st2 w' c st3 reason)
    have 2: "?a st2 = ?a st1" "?m st2 = ?m st1" "ms_should_reconnect st2"
      using connect_post [where E = E and url = url and token = token and st = st1 and w = w] flaps_Suc.hyps(2) by simp_all
    note close = read_close_transient [OF flaps_Suc.hyps(3) 2(3) flaps_Suc.hyps(4), unfolded 2]
    show ?case
    proof (cases "?a st1 < ?m st1")
      case True
      then have "unat (?a st1) < unat (?m st1)" by (simp add: word_less_nat_alt)
      with True close flaps_Suc.IH [OF flaps_Suc.prems] show ?thesis by (auto simp: unat_succ [OF True])
    next
      case False
      then have "unat (?m st1) \<le> unat (?a st1)" by (simp add: word_less_nat_alt)
      with False close flaps_Suc.IH [OF flaps_Suc.prems] show ?thesis by (auto simp: not_less)
    qed
  qed
  then show ?thesis by blast
qed

text \<open>An environment in which every connection becomes ready.\<close>

definition ready_message :: json where
  "ready_message = JObject [(''data'', JObject [(''eventType'', JString ''mercury.buffer_state'')])]"

definition ready_env :: "(nat, nat, nat) env" where
  "ready_env = sample_env\<lparr>ws_setup := \<lambda>i. ([WsText (put_json ready_message)], False)\<rparr>"

lemma ready_env_fields:
  "ws_setup ready_env = (\<lambda>i. ([WsText (put_json ready_message)], False))" "ws_open ready_env = (\<lambda>i u. Inr ())"
  "ws_send ready_env = (\<lambda>i t. Inr ())" "url_append ready_env = (\<lambda>u ps. Inr u)" "json_from_slice ready_env = json_parse"
  by (simp_all add: ready_env_def sample_env_def)

lemma ready_env_connects: "\<exists>st' w'. connect ready_env url token (st, w) = (Ok (), (st', w'))"
proof -
  have "is_connection_ready ready_message" by code_simp
  then have "wait_ready ready_env [WsText (put_json ready_message)] False = Ok ready_message"
    by (simp add: ready_env_fields json_parse_put)
  then show ?thesis
    by (simp add: connect_def connect_internal_def effect_defs prepare_url_def Let_def ready_env_fields json_parse_put
        del: wait_ready.simps)
qed

theorem flap_storm_witness:
  "\<exists>st'. flaps ready_env 2 (mercury_socket_new 15 14 32 1 60) st' \<and> \<not> ms_should_reconnect st' \<and>
     EvDisconnected ''max-attempts-exceeded'' \<in> set (ms_events st')"
proof -
  let ?st = "mercury_socket_new 15 14 32 1 60"
  have t: "transient 1006" by (simp add: transient_def)
  obtain s1 w1 where 1: "connect ready_env [] [] (?st, world_init) = (Ok (), (s1, w1))" using ready_env_connects by blast
  let ?c1 = "read_close (Some (1006, [])) s1"
  have f1: "flaps ready_env (Suc 0) ?st ?c1" by (rule flaps_Suc [OF flaps_0 1 t, where reason = "[]"]) simp
  obtain s2 w2 where 2: "connect ready_env [] [] (?c1, world_init) = (Ok (), (s2, w2))" using ready_env_connects by blast
  have "flaps ready_env (Suc (Suc 0)) ?st (read_close (Some (1006, [])) s2)"
    by (rule flaps_Suc [OF f1 2 t, where reason = "[]"]) simp
  from this flap_storm [OF this] show ?thesis by (auto simp: mercury_socket_new_def numeral_2_eq_2)
qed

section \<open>Backoff\<close>

lemma sint_small: "n < 2 ^ 31 \<Longrightarrow> sint (word_of_nat n :: u32) = int n"
  by (simp add: signed_of_nat signed_take_bit_int_eq_self)



section \<open>Silence\<close>

lemma task_step_silent:
  assumes "task_step E st st'" "ms_reading st = 0" "ms_sleeping st = 0"
  shows "ms_events st' = ms_events st \<and> ms_connected st' = ms_connected st \<and> ms_reading st' = 0 \<and> ms_sleeping st' = 0"
  using assms by (cases rule: task_step.cases) (simp_all add: ping_tick_def attempts_reset_fires_def)

text \<open>
  A stream that ends without a close frame is not noticed: the read loop ends, the socket still
  reports itself connected, and from then on no task of the socket ever emits an event again or
  changes that report; only the owner calling \<open>connect\<close> or \<open>disconnect\<close> does.
\<close>

theorem ended_stream_unnoticed:
  assumes "ms_connected st" "ms_reading st = 1" "ms_sleeping st = 0"
    and "rtranclp (task_step E) (read_end st) st'"
  shows "task_step E st (read_end st) \<and> ms_connected st' \<and> ms_events st' = ms_events st"
proof -
  from assms(4) have "ms_connected st' \<and> ms_events st' = ms_events st \<and> ms_reading st' = 0 \<and> ms_sleeping st' = 0"
  proof (induction rule: rtranclp_induct)
    case base
    from assms(1-3) show ?case by (simp add: read_end_def)
  next
    case (step y z)
    then show ?case using task_step_silent by metis
  qed
  moreover have "task_step E st (read_end st)" using assms(2) by (intro step_end) simp
  ultimately show ?thesis by blast
qed

definition live_socket :: mercury_socket where
  "live_socket = (mercury_socket_new 15 14 32 10 60)\<lparr>ms_connected := True, ms_reading := 1\<rparr>"

theorem ended_stream_unnoticed_witness:
  "task_step sample_env live_socket (read_end live_socket) \<and> ms_connected (read_end live_socket) \<and>
   ms_events (read_end live_socket) = ms_events live_socket"
  by (rule ended_stream_unnoticed) (simp_all add: live_socket_def mercury_socket_new_def)

end
