(* ===== verification/Id_Utils.thy ===== *)
theory Id_Utils
  imports Sample_Env
begin

text \<open>
  \<^verbatim>\<open>id_utils.rs\<close> and \<open>extract_person_uuid\<close> of \<^verbatim>\<open>handler.rs\<close>: the two spellings of a Webex
  identifier, the raw UUID of Mercury and the base64 URI of the REST API. The base64 engine is
  the environment's; \<open>std_roundtrip\<close> and the alphabet of RFC 4648 are the only facts used of it.
\<close>

definition to_rest_id :: "('sk, 'pk, 'rsa) env \<Rightarrow> string \<Rightarrow> string \<Rightarrow> string" where
  "to_rest_id E uuid resource_type =
     std_encode E (as_bytes (''ciscospark://us/'' @ resource_type @ ''/'' @ uuid))"

definition from_rest_id :: "('sk, 'pk, 'rsa) env \<Rightarrow> string \<Rightarrow> string + string" where
  "from_rest_id E rest_id =
     (case std_decode E rest_id of
        Inl e \<Rightarrow> Inl (''invalid base64 in REST ID: '' @ e)
      | Inr decoded \<Rightarrow>
          (case from_utf8 decoded of
             Inl e \<Rightarrow> Inl (''invalid UTF-8 in REST ID: '' @ e)
           | Inr s \<Rightarrow>
               (case rfind (CHR ''/'') s of
                  None \<Rightarrow> Inl (''invalid REST ID format: '' @ rest_id)
                | Some last_slash \<Rightarrow> Inr (drop (last_slash + 1) s))))"

definition person_id_bytes :: "('sk, 'pk, 'rsa) env \<Rightarrow> string \<Rightarrow> string + bytes" where
  "person_id_bytes E ident =
     (case std_decode E ident of Inr bs \<Rightarrow> Inr bs | Inl e \<Rightarrow> std_nopad_decode E ident)"

definition extract_person_uuid :: "('sk, 'pk, 'rsa) env \<Rightarrow> string \<Rightarrow> string" where
  "extract_person_uuid E ident =
     (case person_id_bytes E ident of
        Inl e \<Rightarrow> ident
      | Inr bs \<Rightarrow>
          (case from_utf8 bs of
             Inl e \<Rightarrow> ident
           | Inr decoded \<Rightarrow>
               if starts_with ''ciscospark://'' decoded
               then (let uuid = after_last (CHR ''/'') decoded in if uuid \<noteq> [] then uuid else ident)
               else ident))"

text \<open>RFC 4648: a decodable string is over the standard alphabet.\<close>

definition std_alphabet :: "char set" where
  "std_alphabet = set (''ABCDEFGHIJKLMNOPQRSTUVWXYZabcdefghijklmnopqrstuvwxyz0123456789+/='')"

definition std_only_alphabet :: "('sk, 'pk, 'rsa) env \<Rightarrow> bool" where
  "std_only_alphabet E \<longleftrightarrow>
     (\<forall>s bs. std_decode E s = Inr bs \<or> std_nopad_decode E s = Inr bs \<longrightarrow> set s \<subseteq> std_alphabet)"

section \<open>Lemmas\<close>

lemma rest_uri_valid:
  assumes "valid_str rt" "valid_str uuid"
  shows "valid_str (''ciscospark://us/'' @ rt @ ''/'' @ uuid)"
proof -
  have "valid_str ''ciscospark://us/''" "valid_str ''/''" by code_simp+
  with assms show ?thesis by blast
qed

lemma rest_uri_from_utf8:
  assumes "valid_str rt" "valid_str uuid"
  shows "from_utf8 (as_bytes (''ciscospark://us/'' @ rt @ ''/'' @ uuid)) = Inr (''ciscospark://us/'' @ rt @ ''/'' @ uuid)"
  using rest_uri_valid [OF assms] by (rule from_utf8_as_bytes)

lemma rest_uri_after_last:
  "CHR ''/'' \<notin> set uuid \<Longrightarrow> after_last (CHR ''/'') (''ciscospark://us/'' @ rt @ ''/'' @ uuid) = uuid"
  using after_last_append [of "CHR ''/''" uuid "''ciscospark://us/'' @ rt"] by simp

lemma rest_uri_rfind:
  "CHR ''/'' \<notin> set uuid \<Longrightarrow>
   rfind (CHR ''/'') (''ciscospark://us/'' @ rt @ ''/'' @ uuid) = Some (length (''ciscospark://us/'' @ rt))"
  using rfind_last [of "CHR ''/''" uuid "''ciscospark://us/'' @ rt"] by simp

lemma extract_of_rest_id:
  assumes "std_roundtrip E" "valid_str rt" "valid_str uuid" "CHR ''/'' \<notin> set uuid" "uuid \<noteq> []"
  shows "extract_person_uuid E (to_rest_id E uuid rt) = uuid"
proof -
  let ?uri = "''ciscospark://us/'' @ rt @ ''/'' @ uuid"
  from assms(1) have "person_id_bytes E (to_rest_id E uuid rt) = Inr (as_bytes ?uri)"
    by (simp only: person_id_bytes_def to_rest_id_def std_roundtrip_def sum.case)
  moreover have "starts_with ''ciscospark://'' ?uri" by (simp add: starts_with_def)
  ultimately show ?thesis
    unfolding extract_person_uuid_def Let_def
    by (simp only: sum.case rest_uri_from_utf8 [OF assms(2,3)] rest_uri_after_last [OF assms(4)]
        assms(5) if_True not_False_eq_True)
qed

lemma extract_of_raw:
  assumes "std_only_alphabet E" "\<not> set ident \<subseteq> std_alphabet"
  shows "extract_person_uuid E ident = ident"
proof -
  have "\<exists>e. person_id_bytes E ident = Inl e"
    using assms unfolding person_id_bytes_def std_only_alphabet_def
    by (cases "std_decode E ident"; cases "std_nopad_decode E ident") auto
  then show ?thesis by (auto simp: extract_person_uuid_def)
qed

section \<open>Properties\<close>

text \<open>
  Round trip: the UUID put into a REST identifier, of whatever resource type, is read back
  from it, provided it has no slash.
\<close>

theorem rest_id_roundtrip:
  assumes "std_roundtrip E" "valid_str rt" "valid_str uuid" "CHR ''/'' \<notin> set uuid"
  shows "from_rest_id E (to_rest_id E uuid rt) = Inr uuid"
proof -
  let ?uri = "''ciscospark://us/'' @ rt @ ''/'' @ uuid"
  have "std_decode E (to_rest_id E uuid rt) = Inr (as_bytes ?uri)"
    using assms(1) by (simp only: to_rest_id_def std_roundtrip_def)
  moreover have "drop (length (''ciscospark://us/'' @ rt) + 1) ?uri = uuid" by simp
  ultimately show ?thesis
    by (simp only: from_rest_id_def sum.case option.case rest_uri_from_utf8 [OF assms(2,3)]
        rest_uri_rfind [OF assms(4)])
qed

theorem rest_id_roundtrip_witness:
  "from_rest_id sample_env (to_rest_id sample_env ''abc-123-def'' ''MESSAGE'') = Inr ''abc-123-def''"
proof -
  have "valid_str ''MESSAGE''" "valid_str ''abc-123-def''" by code_simp+
  with sample_laws(1) show ?thesis by (intro rest_id_roundtrip) auto
qed

text \<open>
  Both spellings of a person identifier normalise to the same UUID: a hyphenated UUID is left
  alone and its REST form decodes to it, so the self-message comparison does not depend on the
  spelling an activity or the identity endpoint uses.
\<close>

theorem extract_person_uuid_normalises:
  assumes "std_roundtrip E" "std_only_alphabet E" "valid_str rt" "valid_str uuid"
    and "CHR ''/'' \<notin> set uuid" "CHR ''-'' \<in> set uuid"
  shows "extract_person_uuid E uuid = uuid \<and> extract_person_uuid E (to_rest_id E uuid rt) = uuid"
proof
  have "CHR ''-'' \<notin> std_alphabet" by (simp add: std_alphabet_def)
  with assms(6) have "\<not> set uuid \<subseteq> std_alphabet" by blast
  with assms(2) show "extract_person_uuid E uuid = uuid" by (rule extract_of_raw)
  from assms(6) have "uuid \<noteq> []" by auto
  with assms show "extract_person_uuid E (to_rest_id E uuid rt) = uuid" by (intro extract_of_rest_id)
qed

lemma sample_only_alphabet: "std_only_alphabet sample_env"
proof -
  have "c \<in> std_alphabet" if "is_nib c" for c
  proof -
    from that have "char_of (of_char c :: nat) \<in> char_of ` set [65..<81]"
      by (intro imageI) (simp only: is_nib_def set_upt atLeastLessThan_iff)
    then have "c \<in> set (map char_of [65..<81])" by (simp only: char_of_char set_map)
    also have "map char_of [65..<81] = ''ABCDEFGHIJKLMNOP''" by code_simp
    finally show ?thesis by (auto simp: std_alphabet_def)
  qed
  then show ?thesis
    by (auto simp: std_only_alphabet_def sample_env_def dest: hex_decode_letters)
qed

theorem extract_person_uuid_normalises_witness:
  "extract_person_uuid sample_env ''fb51-25'' = ''fb51-25'' \<and>
   extract_person_uuid sample_env (to_rest_id sample_env ''fb51-25'' ''PEOPLE'') = ''fb51-25''"
proof -
  have "valid_str ''PEOPLE''" "valid_str ''fb51-25''" by code_simp+
  with sample_laws(1) sample_only_alphabet show ?thesis
    by (intro extract_person_uuid_normalises) auto
qed

end
