(* ===== verification/Mention_Parser.thy ===== *)
theory Mention_Parser
  imports Sample_Env
begin

text \<open>
  \<^verbatim>\<open>mention_parser.rs\<close>: collecting the people and groups mentioned in a message. The three regular
  expressions run in the \<open>regex\<close> crate: \<open>mention_re\<close> gives, in order, the matched tag and its
  object type, \<open>person_id_re\<close> and \<open>group_type_re\<close> the captured attribute of a tag. The loop over
  the captures, with its shared \<open>seen\<close> set, is the code's own.
\<close>

record parsed_mentions =
  mentioned_people :: "string list"
  mentioned_groups :: "string list"

definition parsed_mentions_default :: parsed_mentions where
  "parsed_mentions_default = \<lparr>mentioned_people = [], mentioned_groups = []\<rparr>"

definition group_key :: "string \<Rightarrow> string" where
  "group_key group_type = ''group:'' @ group_type"

fun mention_step ::
  "('sk, 'pk, 'rsa) env \<Rightarrow> string list \<times> parsed_mentions \<Rightarrow> string \<times> string \<Rightarrow> string list \<times> parsed_mentions" where
  "mention_step E (seen, result) (tag, object_type) =
    (if object_type = ''person'' then
       (case person_id_re E tag of
          None \<Rightarrow> (seen, result)
        | Some ident \<Rightarrow>
            if ident \<noteq> [] \<and> ident \<notin> set seen
            then (ident # seen, result\<lparr>mentioned_people := mentioned_people result @ [ident]\<rparr>)
            else (seen, result))
     else if object_type = ''groupMention'' then
       (case group_type_re E tag of
          None \<Rightarrow> (seen, result)
        | Some group_type \<Rightarrow>
            if group_type \<noteq> [] \<and> group_key group_type \<notin> set seen
            then (group_key group_type # seen,
                  result\<lparr>mentioned_groups := mentioned_groups result @ [group_type]\<rparr>)
            else (seen, result))
     else (seen, result))"

definition parse_mentions :: "('sk, 'pk, 'rsa) env \<Rightarrow> string option \<Rightarrow> parsed_mentions" where
  "parse_mentions E html =
     (case html of
        None \<Rightarrow> parsed_mentions_default
      | Some h \<Rightarrow>
          if h = [] then parsed_mentions_default
          else snd (foldl (mention_step E) ([], parsed_mentions_default) (mention_re E h)))"

section \<open>Specification\<close>

text \<open>The identifiers the captures name, in order, and the list of first occurrences.\<close>

definition person_ids :: "('sk, 'pk, 'rsa) env \<Rightarrow> (string \<times> string) list \<Rightarrow> string list" where
  "person_ids E caps =
     List.map_filter (\<lambda>(tag, ty). if ty = ''person'' \<and> person_id_re E tag \<noteq> Some [] then person_id_re E tag else None) caps"

definition group_types :: "('sk, 'pk, 'rsa) env \<Rightarrow> (string \<times> string) list \<Rightarrow> string list" where
  "group_types E caps =
     List.map_filter (\<lambda>(tag, ty). if ty = ''groupMention'' \<and> group_type_re E tag \<noteq> Some [] then group_type_re E tag else None) caps"

definition firsts :: "'a list \<Rightarrow> 'a list" where
  "firsts xs = rev (remdups (rev xs))"

lemma firsts_simps [simp]: "firsts [] = []"
  "firsts (xs @ [x]) = (if x \<in> set xs then firsts xs else firsts xs @ [x])"
  by (simp_all add: firsts_def)

lemma set_firsts [simp]: "set (firsts xs) = set xs"
  by (simp add: firsts_def)

lemma distinct_firsts [simp]: "distinct (firsts xs)"
  by (simp add: firsts_def)

section \<open>Lemmas\<close>

lemma person_ids_simps [simp]: "person_ids E [] = []"
  "person_ids E (caps @ [(tag, ty)]) = person_ids E caps @
     (case person_id_re E tag of None \<Rightarrow> [] | Some i \<Rightarrow> if ty = ''person'' \<and> i \<noteq> [] then [i] else [])"
  by (auto simp: person_ids_def List.map_filter_def split: option.splits)

lemma group_types_simps [simp]: "group_types E [] = []"
  "group_types E (caps @ [(tag, ty)]) = group_types E caps @
     (case group_type_re E tag of None \<Rightarrow> [] | Some g \<Rightarrow> if ty = ''groupMention'' \<and> g \<noteq> [] then [g] else [])"
  by (auto simp: group_types_def List.map_filter_def split: option.splits)

text \<open>
  The state of the loop after any captures: \<open>seen\<close> is exactly what was pushed, people as they
  are and groups under their prefix; nothing is pushed twice or empty.
\<close>

definition mention_inv :: "string set \<Rightarrow> string set \<Rightarrow> string list \<times> parsed_mentions \<Rightarrow> bool" where
  "mention_inv P G = (\<lambda>(seen, r).
     set seen = set (mentioned_people r) \<union> group_key ` set (mentioned_groups r) \<and>
     distinct (mentioned_people r) \<and> distinct (mentioned_groups r) \<and>
     set (mentioned_people r) \<subseteq> P \<and> set (mentioned_groups r) \<subseteq> G \<and>
     P \<subseteq> set seen \<and> group_key ` G \<subseteq> set seen)"

lemma mention_inv_person:
  assumes "mention_inv P G (seen, r)"
  shows "i \<notin> set seen \<Longrightarrow> mention_inv (insert i P) G (i # seen, r\<lparr>mentioned_people := mentioned_people r @ [i]\<rparr>)"
    and "i \<in> set seen \<Longrightarrow> mention_inv (insert i P) G (seen, r)"
  using assms by (auto simp: mention_inv_def)

lemma mention_inv_group:
  assumes "mention_inv P G (seen, r)"
  shows "group_key g \<notin> set seen \<Longrightarrow>
      mention_inv P (insert g G) (group_key g # seen, r\<lparr>mentioned_groups := mentioned_groups r @ [g]\<rparr>)"
    and "group_key g \<in> set seen \<Longrightarrow> mention_inv P (insert g G) (seen, r)"
  using assms by (auto simp: mention_inv_def)

lemma mention_fold_inv:
  "mention_inv (set (person_ids E caps)) (set (group_types E caps))
     (foldl (mention_step E) ([], parsed_mentions_default) caps)"
proof (induction caps rule: rev_induct)
  case Nil
  show ?case by (simp add: mention_inv_def parsed_mentions_default_def)
next
  case (snoc c caps)
  obtain tag ty where c: "c = (tag, ty)" by force
  obtain seen r where st: "foldl (mention_step E) ([], parsed_mentions_default) caps = (seen, r)" by force
  note inv = snoc.IH [unfolded st]
  show ?case
    using inv mention_inv_person [OF inv] mention_inv_group [OF inv]
    by (cases "person_id_re E tag"; cases "group_type_re E tag";
        cases "person_id_re E tag = Some []"; cases "group_type_re E tag = Some []") (simp_all add: c st)
qed

lemma mention_fold_firsts:
  assumes "\<forall>i \<in> set (person_ids E caps). \<not> starts_with ''group:'' i"
  shows "snd (foldl (mention_step E) ([], parsed_mentions_default) caps) =
    \<lparr>mentioned_people = firsts (person_ids E caps), mentioned_groups = firsts (group_types E caps)\<rparr>"
  using assms
proof (induction caps rule: rev_induct)
  case Nil
  show ?case by (simp add: parsed_mentions_default_def)
next
  case (snoc c caps)
  obtain tag ty where c: "c = (tag, ty)" by force
  obtain seen r where st: "foldl (mention_step E) ([], parsed_mentions_default) caps = (seen, r)" by force
  have r: "r = \<lparr>mentioned_people = firsts (person_ids E caps),
      mentioned_groups = firsts (group_types E caps)\<rparr>"
    using snoc st by (simp add: c)
  have seen: "set seen = set (person_ids E caps) \<union> group_key ` set (group_types E caps)"
    using mention_fold_inv [of E caps] by (simp add: mention_inv_def st r)
  have fresh: "group_key g \<notin> set (person_ids E (caps @ [c]))" for g
    using snoc.prems starts_with_append [of "''group:''" g] unfolding group_key_def by blast
  have inj: "group_key g \<in> group_key ` A \<longleftrightarrow> g \<in> A" for g A
    by (auto simp: group_key_def)
  show ?case
    using fresh by (auto simp: c st r seen inj split: option.split) blast+
qed

section \<open>Properties\<close>

text \<open>
  Whatever the captures, the mention lists are free of duplicates and of empty entries, and
  every entry is the captured attribute of a mention tag of its kind.
\<close>

theorem parse_mentions_clean:
  "distinct (mentioned_people (parse_mentions E html)) \<and>
   distinct (mentioned_groups (parse_mentions E html)) \<and>
   [] \<notin> set (mentioned_people (parse_mentions E html) @ mentioned_groups (parse_mentions E html)) \<and>
   set (mentioned_people (parse_mentions E html)) \<subseteq>
     (case html of None \<Rightarrow> {} | Some h \<Rightarrow> set (person_ids E (mention_re E h))) \<and>
   set (mentioned_groups (parse_mentions E html)) \<subseteq>
     (case html of None \<Rightarrow> {} | Some h \<Rightarrow> set (group_types E (mention_re E h)))"
proof (cases "html = None \<or> html = Some []")
  case True
  then show ?thesis by (auto simp: parse_mentions_def parsed_mentions_default_def)
next
  case False
  then obtain h where h: "html = Some h" "h \<noteq> []" by (cases html) auto
  have ne: "[] \<notin> set (person_ids E caps)" "[] \<notin> set (group_types E caps)" for caps
    by (auto simp: person_ids_def group_types_def List.map_filter_def split: if_splits)
  show ?thesis
    using mention_fold_inv [of E "mention_re E h"] ne [of "mention_re E h"] h
    by (auto simp: parse_mentions_def mention_inv_def split: prod.splits)
qed

text \<open>
  When no person identifier starts with \<open>group:\<close>, the result is exactly the first occurrences,
  in order of appearance, of the non-empty person identifiers and group types.
\<close>

theorem parse_mentions_firsts:
  assumes "h \<noteq> []" and "\<forall>i \<in> set (person_ids E (mention_re E h)). \<not> starts_with ''group:'' i"
  shows "parse_mentions E (Some h) =
    \<lparr>mentioned_people = firsts (person_ids E (mention_re E h)),
     mentioned_groups = firsts (group_types E (mention_re E h))\<rparr>"
  using assms by (simp add: parse_mentions_def mention_fold_firsts)

text \<open>
  People and groups share one \<open>seen\<close> set, so a person whose identifier reads \<open>group:g\<close>
  suppresses a later mention of the group \<open>g\<close>.
\<close>

theorem parse_mentions_group_hidden:
  assumes "h \<noteq> []" and "mention_re E h = [(t, ''person''), (u, ''groupMention'')]"
    and "person_id_re E t = Some (''group:'' @ g)" and "group_type_re E u = Some g" and "g \<noteq> []"
  shows "parse_mentions E (Some h) = \<lparr>mentioned_people = [''group:'' @ g], mentioned_groups = []\<rparr>"
  using assms by (simp add: parse_mentions_def parsed_mentions_default_def group_key_def)

section \<open>Witnesses\<close>

definition mention_env :: "(nat, nat, nat) env" where
  "mention_env = sample_env\<lparr>
     mention_re := (\<lambda>h. [(''A'', ''person''), (''B'', ''groupMention''), (''A'', ''person'')]),
     person_id_re := (\<lambda>t. Some ''p1''), group_type_re := (\<lambda>t. Some ''all'')\<rparr>"

theorem parse_mentions_firsts_witness:
  "parse_mentions mention_env (Some ''<p>'') = \<lparr>mentioned_people = [''p1''], mentioned_groups = [''all'']\<rparr>"
proof -
  have h: "\<forall>i \<in> set (person_ids mention_env (mention_re mention_env ''<p>'')). \<not> starts_with ''group:'' i"
    by (simp add: mention_env_def person_ids_def List.map_filter_def starts_with_def)
  show ?thesis
    using parse_mentions_firsts [OF _ h]
    by (simp add: mention_env_def person_ids_def group_types_def List.map_filter_def firsts_def)
qed

theorem parse_mentions_group_hidden_witness:
  "parse_mentions (sample_env\<lparr>
     mention_re := (\<lambda>h. [(''A'', ''person''), (''B'', ''groupMention'')]),
     person_id_re := (\<lambda>t. Some ''group:all''), group_type_re := (\<lambda>t. Some ''all'')\<rparr>) (Some ''<p>'') =
   \<lparr>mentioned_people = [''group:all''], mentioned_groups = []\<rparr>"
  by (rule parse_mentions_group_hidden [of _ _ "''A''" "''B''" "''all''", simplified]) simp_all

end
