(* ===== verification/Handler.thy ===== *)
theory Handler
  imports Message_Decryptor Device_Props Mercury_Props Id_Utils Mention_Parser
begin

text \<open>
  \<^verbatim>\<open>handler.rs\<close>: the orchestrator. It validates the configuration, registers the device, connects
  Mercury, performs the KMS handshake, and turns Mercury events into events for the consumer.

  The record holds what the \<open>Arc<Mutex<..>>\<close> fields share. \<open>kms_response_handler\<close> is the shared
  queue of the current KMS client, so only its presence is a field. Three fields stand for the
  tasks: whether the event loop runs, how many Mercury events it has received, and the activities
  whose spawned task has not run yet. \<open>wh_events\<close> is what was handed to the event channel, by
  \<open>send\<close> or \<open>try_send\<close>; a closed channel, and for \<open>try_send\<close> a full one, only causes a warning.
  Logging is left out.
\<close>

section \<open>A program on a part of the object\<close>

definition partM :: "('x \<Rightarrow> 'y) \<Rightarrow> ('y \<Rightarrow> 'x \<Rightarrow> 'x) \<Rightarrow> ('y \<times> world, 'e, 'a) prog \<Rightarrow> ('x \<times> world, 'e, 'a) prog" where
  "partM get put m = zoomM (\<lambda>(x, w). (get x, w)) (\<lambda>(y, w') (x, w). (put y x, w')) m"

lemma wp_part [wp_simps]:
  "wp (partM get put m) Q s = wp m (\<lambda>r t. Q r (put (fst t) (fst s), snd t)) (get (fst s), snd s)"
  by (simp add: wp_def partM_def zoomM_def split_beta)

lemma guarded_part:
  assumes "framed (guarded J' P) m" "\<And>x. J x \<Longrightarrow> J' (get x)" "\<And>x y. J x \<Longrightarrow> J' y \<Longrightarrow> J (put y x)"
  shows "framed (guarded J P) (partM get put m)"
  using assms by (auto simp: framed_def guarded_def requests_def partM_def zoomM_def sent_of_def split_beta)

section \<open>Events and state\<close>

datatype handler_event =
    MessageCreated decrypted_message
  | MessageUpdated decrypted_message
  | MessageDeleted deleted_message
  | MembershipCreated membership_activity
  | AttachmentActionCreated attachment_action
  | RoomCreated room_activity
  | RoomUpdated room_activity
  | HandlerConnected
  | HandlerDisconnected string
  | HandlerReconnecting u32
  | HandlerError string

text \<open>Where the HTTP function comes from: the native client or the injected function.\<close>

datatype http_adapter = NativeAdapter "handle option" | FetchAdapter handle

record webex_message_handler =
  wh_token :: string
  wh_http :: http_adapter
  wh_device_manager :: device_manager
  wh_mercury :: mercury_socket
  wh_kms_client :: "kms_client option"
  wh_kms_response_handler :: bool
  wh_registration :: "Types.device_registration option"
  wh_connected :: bool
  wh_connecting :: bool
  wh_ignore_self_messages :: bool
  wh_bot_person_id :: "string option"
  wh_recent_activity_ids :: "(string \<times> instant) list"
  wh_config :: config
  wh_metrics_callback :: "handle option"
  wh_rx_taken :: bool
  wh_events :: "handler_event list"
  wh_loop :: bool
  wh_seen :: nat
  wh_tasks :: "mercury_activity list"

section \<open>The native HTTP adapter\<close>

text \<open>
  \<open>send\<close> is the \<open>reqwest\<close> client: for a request it gives an error, or a status and the body, whose
  transfer may fail too. \<open>is_success\<close> is the range from 200 to 299.
\<close>

definition create_native_http_adapter ::
  "(fetch_request list \<Rightarrow> fetch_request \<Rightarrow> string + u16 \<times> (string + bytes)) \<Rightarrow>
   fetch_request list \<Rightarrow> fetch_request \<Rightarrow> string + fetch_response" where
  "create_native_http_adapter send sent req =
     (if rq_method req \<notin> {''GET'', ''POST'', ''PUT'', ''DELETE''}
      then Inl (''Unsupported HTTP method: '' @ rq_method req)
      else
        (case send sent req of
           Inl e \<Rightarrow> Inl e
         | Inr (status, body) \<Rightarrow>
             (case body of
                Inl e \<Rightarrow> Inl e
              | Inr bytes \<Rightarrow> Inr \<lparr>rs_status = status, rs_ok = (200 \<le> status \<and> status \<le> 299), rs_body = bytes\<rparr>)))"

section \<open>Construction\<close>

text \<open>
  \<open>Duration::from_secs_f64\<close> panics on a negative value and on one that does not fit 64 bits of
  seconds; \<open>mpsc::channel\<close> panics on a capacity of zero and above the permits of its semaphore.
\<close>

definition from_secs_f64 :: "real \<Rightarrow> real result" where
  "from_secs_f64 x =
     (if x < 0 then Panic ''cannot convert float seconds to Duration: value is negative''
      else if 2 ^ 64 \<le> x then Panic ''cannot convert float seconds to Duration: value is either too big or NaN''
      else Ok x)"

definition channel_capacity :: "nat \<Rightarrow> nat result" where
  "channel_capacity n =
     (if n = 0 then Panic ''mpsc bounded channel requires buffer > 0''
      else if 2 ^ 61 \<le> n then Panic ''a semaphore may not have more than MAX_PERMITS permits''
      else Ok n)"

definition validate_mode :: "config \<Rightarrow> unit result" where
  "validate_mode config =
     (case cf_mode config of
        Injected \<Rightarrow>
          if cf_fetch config = None \<or> cf_web_socket_factory config = None
          then Err (Internal ''Injected mode requires both fetch and web_socket_factory'')
          else if cf_client config \<noteq> None
          then Err (Internal ''Cannot use native proxy parameters (client) in injected mode'')
          else Ok ()
      | Native \<Rightarrow>
          if cf_fetch config \<noteq> None \<or> cf_web_socket_factory config \<noteq> None
          then Err (Internal (''Cannot provide fetch/web_socket_factory in native mode '' @ em_dash @ '' set mode to Injected''))
          else Ok ())"

definition http_adapter_of :: "config \<Rightarrow> http_adapter result" where
  "http_adapter_of config =
     (case cf_mode config of
        Native \<Rightarrow> Ok (NativeAdapter (cf_client config))
      | Injected \<Rightarrow>
          (case cf_fetch config of
             None \<Rightarrow> Panic ''Injected mode requires fetch adapter''
           | Some f \<Rightarrow> Ok (FetchAdapter f)))"

definition handler_new :: "config \<Rightarrow> webex_message_handler result" where
  "handler_new config =
     (if cf_token config = [] then Err (Internal ''WebexMessageHandler requires a non-empty token string'')
      else
        bind_ok (validate_mode config) (\<lambda>_.
        bind_ok (http_adapter_of config) (\<lambda>http.
        bind_ok (from_secs_f64 (cf_ping_interval config)) (\<lambda>ping_interval.
        bind_ok (from_secs_f64 (cf_pong_timeout config)) (\<lambda>pong_timeout.
        bind_ok (from_secs_f64 (cf_reconnect_backoff_max config)) (\<lambda>backoff_max.
        bind_ok (from_secs_f64 (cf_reconnect_stability_seconds config)) (\<lambda>stability.
        bind_ok (channel_capacity (cf_event_channel_capacity config)) (\<lambda>capacity.
        Ok \<lparr>wh_token = cf_token config, wh_http = http, wh_device_manager = device_manager_new,
            wh_mercury = mercury_socket_new ping_interval pong_timeout backoff_max
              (cf_max_reconnect_attempts config) stability,
            wh_kms_client = None, wh_kms_response_handler = False, wh_registration = None,
            wh_connected = False, wh_connecting = False,
            wh_ignore_self_messages = cf_ignore_self_messages config, wh_bot_person_id = None,
            wh_recent_activity_ids = [], wh_config = config,
            wh_metrics_callback = cf_metrics_callback config, wh_rx_taken = False,
            wh_events = [], wh_loop = False, wh_seen = 0, wh_tasks = []\<rparr>))))))))"

definition handler_take_event_rx :: "webex_message_handler \<Rightarrow> bool \<times> webex_message_handler" where
  "handler_take_event_rx h = (\<not> wh_rx_taken h, h\<lparr>wh_rx_taken := True\<rparr>)"

text \<open>A metric is reported, with the time since \<open>start\<close>, when a callback is configured.\<close>

definition callbackM ::
  "('sk, 'pk, 'rsa) env \<Rightarrow> handle option \<Rightarrow> string \<Rightarrow> instant \<Rightarrow> bool \<Rightarrow> ('x \<times> world, 'e, unit) prog" where
  "callbackM E callback name start success =
     (case callback of
        None \<Rightarrow> returnM ()
      | Some f \<Rightarrow>
          bindM (nowM E) (\<lambda>now. \<lambda>(x, w).
            (Ok (), (x, w\<lparr>w_metrics := w_metrics w @
               [\<lparr>me_name = name, me_duration_ms = real_of_int (max 0 (now - start)) / 10 ^ 6,
                 me_success = success, me_metadata = None\<rparr>]\<rparr>))))"

definition report_metric ::
  "('sk, 'pk, 'rsa) env \<Rightarrow> string \<Rightarrow> instant \<Rightarrow> bool \<Rightarrow> (webex_message_handler \<times> world, 'e, unit) prog" where
  "report_metric E name start success =
     bindM (fieldM wh_metrics_callback) (\<lambda>callback. callbackM E callback name start success)"

definition sendM :: "handler_event \<Rightarrow> (webex_message_handler \<times> world, 'e, unit) prog" where
  "sendM ev = updateM (\<lambda>h. h\<lparr>wh_events := wh_events h @ [ev]\<rparr>)"

section \<open>Activities\<close>

definition infer_room_type :: "mercury_activity \<Rightarrow> string option" where
  "infer_room_type activity =
     (let tags = tg_tags (av_target activity) in
      if ''ONE_ON_ONE'' \<in> set tags then Some ''direct''
      else if ''TEAM'' \<in> set tags \<or> ''LOCKED'' \<in> set tags \<or> ''GROUP'' \<in> set tags then Some ''group''
      else None)"

definition unwrap_or :: "'a \<Rightarrow> 'a option \<Rightarrow> 'a" where
  "unwrap_or d x = (case x of None \<Rightarrow> d | Some v \<Rightarrow> v)"

definition is_message_activity :: "mercury_activity \<Rightarrow> bool" where
  "is_message_activity activity \<longleftrightarrow>
     av_verb activity \<in> {''post'', ''update'', ''share''} \<and> ob_object_type (av_object activity) \<in> {''comment'', ''content''}"

definition message_of :: "('sk, 'pk, 'rsa) env \<Rightarrow> mercury_activity \<Rightarrow> decrypted_message" where
  "message_of E decrypted =
     (let mentions = parse_mentions E (ob_content (av_object decrypted)) in
      \<lparr>dm_id = av_id decrypted, dm_url = av_url decrypted,
       dm_parent_id = map_option pa_id (av_parent decrypted),
       dm_mentioned_people = mentioned_people mentions, dm_mentioned_groups = mentioned_groups mentions,
       dm_room_id = tg_id (av_target decrypted), dm_person_id = ac_id (av_actor decrypted),
       dm_person_email = unwrap_or [] (ac_email_address (av_actor decrypted)),
       dm_text = unwrap_or [] (ob_display_name (av_object decrypted)),
       dm_html = ob_content (av_object decrypted), dm_created = av_published decrypted,
       dm_room_type = infer_room_type decrypted,
       dm_files = unwrap_or [] (ob_files (av_object decrypted)), dm_raw = decrypted\<rparr>)"

definition is_self :: "('sk, 'pk, 'rsa) env \<Rightarrow> string option \<Rightarrow> decrypted_message \<Rightarrow> bool" where
  "is_self E bot_person_id msg \<longleftrightarrow>
     (case bot_person_id of None \<Rightarrow> False | Some bot_id \<Rightarrow> extract_person_uuid E (dm_person_id msg) = bot_id)"

definition membership_of :: "mercury_activity \<Rightarrow> membership_activity" where
  "membership_of activity =
     \<lparr>mb_id = av_id activity, mb_actor_id = ac_id (av_actor activity), mb_person_id = ob_id (av_object activity),
      mb_room_id = tg_id (av_target activity), mb_action = av_verb activity, mb_created = av_published activity,
      mb_room_type = infer_room_type activity, mb_raw = activity\<rparr>"

definition attachment_action_of :: "mercury_activity \<Rightarrow> attachment_action" where
  "attachment_action_of decrypted =
     \<lparr>at_id = av_id decrypted, at_message_id = unwrap_or [] (map_option pa_id (av_parent decrypted)),
      at_person_id = ac_id (av_actor decrypted),
      at_person_email = unwrap_or [] (ac_email_address (av_actor decrypted)),
      at_room_id = tg_id (av_target decrypted),
      at_inputs = unwrap_or (JObject []) (ob_inputs (av_object decrypted)),
      at_created = av_published decrypted, at_raw = decrypted\<rparr>"

definition room_activity_of :: "string \<Rightarrow> mercury_activity \<Rightarrow> room_activity" where
  "room_activity_of action activity =
     \<lparr>rm_id = av_id activity, rm_room_id = tg_id (av_target activity), rm_actor_id = ac_id (av_actor activity),
      rm_action = action, rm_created = av_published activity, rm_raw = activity\<rparr>"

text \<open>
  \<open>handle_activity_static\<close> works on the KMS client it was given and the event channel: the object of
  the program is this pair.
\<close>

type_synonym activity_ctx = "kms_client \<times> handler_event list"

definition postM :: "handler_event \<Rightarrow> (activity_ctx \<times> world, 'e, unit) prog" where
  "postM ev = updateM (\<lambda>(k, evs). (k, evs @ [ev]))"

definition decryptM :: "('sk, 'pk, 'rsa) env \<Rightarrow> mercury_activity \<Rightarrow> (activity_ctx \<times> world, mercury_activity) meth" where
  "decryptM E activity = partM fst (\<lambda>k (k0, evs). (k, evs)) (decrypt_activity E activity)"

definition handle_activity_static ::
  "('sk, 'pk, 'rsa) env \<Rightarrow> mercury_activity \<Rightarrow> string option \<Rightarrow> handle option \<Rightarrow> (activity_ctx \<times> world, unit) meth" where
  "handle_activity_static E activity bot_person_id metrics_callback =
     (let verb = av_verb activity; object_type = ob_object_type (av_object activity) in
      if is_message_activity activity then
        bindM (nowM E) (\<lambda>decrypt_start.
        matchM (decryptM E activity)
          (\<lambda>decrypted.
             bindM (callbackM E metrics_callback ''decrypt'' decrypt_start True) (\<lambda>_.
             let msg = message_of E decrypted in
             if is_self E bot_person_id msg then returnM ()
             else postM (if verb = ''update'' then MessageUpdated msg else MessageCreated msg)))
          (\<lambda>e.
             bindM (callbackM E metrics_callback ''decrypt'' decrypt_start False) (\<lambda>_.
             postM (HandlerError (display e)))))
      else if verb = ''delete'' \<and> object_type = ''activity'' then
        postM (MessageDeleted \<lparr>dl_message_id = ob_id (av_object activity), dl_room_id = tg_id (av_target activity),
          dl_person_id = ac_id (av_actor activity)\<rparr>)
      else if verb \<in> {''add'', ''leave'', ''assignModerator'', ''unassignModerator''} \<and> object_type = ''person'' then
        postM (MembershipCreated (membership_of activity))
      else if verb = ''cardAction'' \<and> object_type = ''submit'' then
        bindM (nowM E) (\<lambda>decrypt_start.
        bindM (matchM (decryptM E activity)
          (\<lambda>decrypted.
             bindM (callbackM E metrics_callback ''decrypt'' decrypt_start True) (\<lambda>_. returnM decrypted))
          (\<lambda>e.
             bindM (callbackM E metrics_callback ''decrypt'' decrypt_start False) (\<lambda>_. returnM activity))) (\<lambda>decrypted.
        postM (AttachmentActionCreated (attachment_action_of decrypted))))
      else if (verb = ''create'' \<or> verb = ''update'') \<and> object_type = ''conversation'' then
        postM (if verb = ''create'' then RoomCreated (room_activity_of ''created'' activity)
               else RoomUpdated (room_activity_of ''updated'' activity))
      else returnM ())"

section \<open>Connecting\<close>

abbreviation dmM :: "(device_manager \<times> world, 'e, 'a) prog \<Rightarrow> (webex_message_handler \<times> world, 'e, 'a) prog" where
  "dmM \<equiv> partM wh_device_manager (\<lambda>d h. h\<lparr>wh_device_manager := d\<rparr>)"

abbreviation mercuryM :: "(mercury_socket \<times> world, 'e, 'a) prog \<Rightarrow> (webex_message_handler \<times> world, 'e, 'a) prog" where
  "mercuryM \<equiv> partM wh_mercury (\<lambda>m h. h\<lparr>wh_mercury := m\<rparr>)"

text \<open>A program on the KMS client, when there is one; the lock on it is held throughout.\<close>

definition with_kms ::
  "(kms_client \<times> world, 'e, unit) prog \<Rightarrow> (webex_message_handler \<times> world, 'e, unit) prog" where
  "with_kms m =
     bindM (fieldM wh_kms_client) (\<lambda>kms_guard.
     case kms_guard of
       None \<Rightarrow> returnM ()
     | Some client \<Rightarrow> partM (\<lambda>h. client) (\<lambda>k h. h\<lparr>wh_kms_client := Some k\<rparr>) m)"

definition me_request :: "string \<Rightarrow> fetch_request" where
  "me_request token =
     \<lparr>rq_url = ''https://webexapis.com/v1/people/me'', rq_method = ''GET'', rq_headers = json_headers token, rq_body = None\<rparr>"

definition self_check_hint :: string where
  "self_check_hint =
     ''. Set ignore_self_messages to false to skip this check (not recommended '' @ em_dash @ '' may cause message loops).''"

definition fetch_bot_person_id :: "('sk, 'pk, 'rsa) env \<Rightarrow> (webex_message_handler \<times> world, unit) meth" where
  "fetch_bot_person_id E =
     bindM (fieldM wh_token) (\<lambda>token.
     bindM (mapErrM (\<lambda>e. Internal (''Failed to fetch bot identity for self-message filtering: '' @ e @ self_check_hint))
       (fetchM E (me_request token))) (\<lambda>resp.
     if \<not> rs_ok resp then
       throwM (Internal (''Failed to fetch bot identity for self-message filtering: HTTP '' @
         show_nat (unat (rs_status resp)) @ self_check_hint))
     else
       bindM (liftM (of_sum (\<lambda>e. Internal (''Failed to parse bot identity response: '' @ e)) (json_from_slice E (rs_body resp)))) (\<lambda>data.
       bindM (liftM (of_opt (Internal ''Bot identity response missing 'id' field'') (get_str ''id'' data))) (\<lambda>ident.
       updateM (\<lambda>h. h\<lparr>wh_bot_person_id := Some (extract_person_uuid E ident)\<rparr>)))))"

definition start_mercury_event_loop :: "webex_message_handler \<Rightarrow> webex_message_handler" where
  "start_mercury_event_loop h =
     (let (fresh, mercury) = take_event_rx (wh_mercury h) in
      if fresh then h\<lparr>wh_mercury := mercury, wh_loop := True\<rparr> else h\<lparr>wh_mercury := mercury\<rparr>)"

definition install_kms :: "string \<Rightarrow> Types.device_registration \<Rightarrow> webex_message_handler \<Rightarrow> webex_message_handler" where
  "install_kms token reg h =
     h\<lparr>wh_kms_response_handler := True,
       wh_kms_client := Some (kms_client_new token (dr_device_url reg) (dr_user_id reg) (dr_encryption_service_url reg))\<rparr>"

definition handler_connect_internal :: "('sk, 'pk, 'rsa) env \<Rightarrow> (webex_message_handler \<times> world, unit) meth" where
  "handler_connect_internal E =
     bindM (fieldM wh_token) (\<lambda>token.
     bindM (dmM (register E token)) (\<lambda>reg.
     bindM (fieldM wh_ignore_self_messages) (\<lambda>ignore_self.
     bindM (if ignore_self then fetch_bot_person_id E else returnM ()) (\<lambda>_.
     bindM (updateM (install_kms token reg)) (\<lambda>_.
     bindM (mercuryM (connect E (dr_web_socket_url reg) token)) (\<lambda>_.
     bindM (updateM start_mercury_event_loop) (\<lambda>_.
     bindM (with_kms (initialize E)) (\<lambda>_.
     updateM (\<lambda>h. h\<lparr>wh_registration := Some reg\<rparr>)))))))))"

definition handler_connect :: "('sk, 'pk, 'rsa) env \<Rightarrow> (webex_message_handler \<times> world, unit) meth" where
  "handler_connect E =
     bindM (fieldM id) (\<lambda>h.
     if wh_connecting h then throwM (Internal ''connect() already in progress'')
     else if wh_connected h then throwM (Internal ''Already connected. Call disconnect() first, or use reconnect().'')
     else
       bindM (updateM (\<lambda>h. h\<lparr>wh_connecting := True\<rparr>)) (\<lambda>_.
       bindM (nowM E) (\<lambda>connect_start.
       matchM (handler_connect_internal E)
         (\<lambda>_.
            bindM (updateM (\<lambda>h. h\<lparr>wh_connecting := False, wh_connected := True\<rparr>)) (\<lambda>_.
            bindM (report_metric E ''connect'' connect_start True) (\<lambda>_.
            sendM HandlerConnected)))
         (\<lambda>e.
            bindM (updateM (\<lambda>h. h\<lparr>wh_connecting := False\<rparr>)) (\<lambda>_.
            bindM (report_metric E ''connect'' connect_start False) (\<lambda>_.
            throwM e))))))"

definition handler_disconnect :: "('sk, 'pk, 'rsa) env \<Rightarrow> (webex_message_handler \<times> world, unit) meth" where
  "handler_disconnect E =
     bindM (updateM (\<lambda>h. h\<lparr>wh_connected := False\<rparr>)) (\<lambda>_.
     bindM (updateM (\<lambda>h. h\<lparr>wh_mercury := disconnect (wh_mercury h)\<rparr>)) (\<lambda>_.
     bindM (fieldM wh_token) (\<lambda>token.
     bindM (fieldM wh_registration) (\<lambda>reg.
     bindM (case reg of
         None \<Rightarrow> returnM ()
       | Some r \<Rightarrow> matchM (dmM (unregister E token)) (\<lambda>_. returnM ()) (\<lambda>e. returnM ())) (\<lambda>_.
     updateM (\<lambda>h. h\<lparr>wh_registration := None, wh_kms_client := None, wh_kms_response_handler := False,
       wh_bot_person_id := None\<rparr>))))))"

definition handler_reconnect :: "('sk, 'pk, 'rsa) env \<Rightarrow> string \<Rightarrow> (webex_message_handler \<times> world, unit) meth" where
  "handler_reconnect E new_token =
     (if new_token = [] then throwM (Internal ''reconnect() requires a non-empty token string'')
      else
        bindM (handler_disconnect E) (\<lambda>_.
        bindM (updateM (\<lambda>h. h\<lparr>wh_token := new_token\<rparr>)) (\<lambda>_.
        handler_connect E)))"

section \<open>The event loop\<close>

text \<open>
  The environment while the event loop itself waits for a handshake: it is the loop that hands KMS
  messages to the response handler, so none is handed over meanwhile.
\<close>

definition loop_blocked :: "('sk, 'pk, 'rsa) env \<Rightarrow> ('sk, 'pk, 'rsa) env" where
  "loop_blocked E = E\<lparr>kms_during_post := \<lambda>_. [], kms_during_wait := \<lambda>_. []\<rparr>"

text \<open>One iteration of the loop on a received event.\<close>

fun loop_event :: "('sk, 'pk, 'rsa) env \<Rightarrow> mercury_event \<Rightarrow> (webex_message_handler \<times> world, unit) meth" where
  "loop_event E (EvKmsResponse data) =
     bindM (fieldM wh_kms_response_handler) (\<lambda>present.
     if present
     then with_kms (queueM (handle_kms_message data))
     else returnM ())"
| "loop_event E (EvActivity activity) = updateM (\<lambda>h. h\<lparr>wh_tasks := wh_tasks h @ [activity]\<rparr>)"
| "loop_event E EvConnected =
     bindM (fieldM wh_token) (\<lambda>tok.
     bindM (fieldM wh_registration) (\<lambda>reg_guard.
     bindM (case reg_guard of
         None \<Rightarrow> returnM ()
       | Some reg \<Rightarrow>
           matchM (dmM (refresh E tok))
             (\<lambda>new_reg. updateM (\<lambda>h. h\<lparr>wh_registration := Some new_reg\<rparr>)) (\<lambda>e. returnM ())) (\<lambda>_.
     bindM (matchM (with_kms (initialize (loop_blocked E))) (\<lambda>_. returnM ()) (\<lambda>e. returnM ())) (\<lambda>_.
     bindM (updateM (\<lambda>h. h\<lparr>wh_connected := True\<rparr>)) (\<lambda>_.
     sendM HandlerConnected)))))"
| "loop_event E (EvDisconnected reason) =
     bindM (updateM (\<lambda>h. h\<lparr>wh_connected := False\<rparr>)) (\<lambda>_. sendM (HandlerDisconnected reason))"
| "loop_event E (EvReconnecting attempt) = sendM (HandlerReconnecting attempt)"
| "loop_event E (EvError msg) = sendM (HandlerError msg)"

text \<open>The task spawned for an activity: it takes the lock on the KMS client and handles it.\<close>

definition activity_task :: "('sk, 'pk, 'rsa) env \<Rightarrow> mercury_activity \<Rightarrow> (webex_message_handler \<times> world, unit) meth" where
  "activity_task E activity =
     bindM (fieldM id) (\<lambda>h.
     case wh_kms_client h of
       None \<Rightarrow> returnM ()
     | Some client \<Rightarrow>
         partM (\<lambda>h. (client, wh_events h)) (\<lambda>(k, evs) h. h\<lparr>wh_kms_client := Some k, wh_events := evs\<rparr>)
           (handle_activity_static E activity (wh_bot_person_id h) (wh_metrics_callback h)))"

definition sweep :: "instant \<Rightarrow> webex_message_handler \<Rightarrow> webex_message_handler" where
  "sweep now h = h\<lparr>wh_recent_activity_ids := filter (\<lambda>(i, t). t > now - secs 300) (wh_recent_activity_ids h)\<rparr>"

section \<open>Status\<close>

definition handler_connected :: "webex_message_handler \<Rightarrow> bool" where
  "handler_connected h \<longleftrightarrow> wh_connected h \<and> ms_connected (wh_mercury h)"

definition status_of :: "webex_message_handler \<Rightarrow> handler_status" where
  "status_of h =
     (let reconnect_attempt = ms_reconnect_attempts (wh_mercury h);
          ws_open = ms_connected (wh_mercury h) in
      \<lparr>hs_status =
         (if wh_connected h \<and> ws_open then Connected
          else if wh_connecting h then Connecting
          else if reconnect_attempt > 0 then Reconnecting
          else Disconnected),
       hs_web_socket_open = ws_open,
       hs_kms_initialized = (wh_kms_client h \<noteq> None),
       hs_device_registered = (wh_registration h \<noteq> None),
       hs_reconnect_attempt = reconnect_attempt\<rparr>)"

definition handler_device_registration :: "webex_message_handler \<Rightarrow> Types.device_registration option" where
  "handler_device_registration h = wh_registration h"

definition service_url :: "string \<Rightarrow> webex_message_handler \<Rightarrow> string option" where
  "service_url name h = Option.bind (wh_registration h) (\<lambda>reg. dr_services reg name)"

end
