(* ===== verification/Handler_Inv.thy ===== *)
theory Handler_Inv
  imports Handler
begin

text \<open>
  The invariant of the orchestrator under every interleaving of its calls and tasks, and which
  requests each of them may send.
\<close>

section \<open>Frame rules at a state\<close>

text \<open>
  A frame says something of every state; where a method first looks at the object and then acts on
  what it saw, the rules below follow the one run from the state that was seen.
\<close>

lemma framed_from: "(\<And>s. J (fst s) \<Longrightarrow> guarded J P s (snd (m s))) \<Longrightarrow> framed (guarded J P) m"
  unfolding framed_def guarded_def by blast

lemma from_framed: "framed (guarded J P) m \<Longrightarrow> guarded J P s (snd (m s))"
  unfolding framed_def by blast

lemma from_read:
  "guarded J P s (snd (g (f (fst s)) s)) \<Longrightarrow> guarded J P s (snd (bindM (fieldM f) g s))"
  by (simp add: bindM_def effect_defs split_beta)

lemma from_update:
  assumes "K (u (fst s))" "\<And>x. K x \<Longrightarrow> J x" "framed (guarded K P) (g ())"
  shows "guarded J P s (snd (bindM (updateM u) g s))"
proof -
  have "guarded K P (u (fst s), snd s) (snd (g () (u (fst s), snd s)))" using assms(3) by (rule from_framed)
  with assms(1,2) show ?thesis by (simp add: bindM_def effect_defs split_beta guarded_def requests_def sent_of_def)
qed

lemma from_part:
  assumes "framed (guarded J' P) m" "J' (get (fst s))" "\<And>y. J' y \<Longrightarrow> J (put y (fst s))"
  shows "guarded J P s (snd (partM get put m s))"
proof -
  have "guarded J' P (get (fst s), snd s) (snd (m (get (fst s), snd s)))" using assms(1) by (rule from_framed)
  with assms(2,3) show ?thesis
    by (simp add: guarded_def requests_def partM_def zoomM_def sent_of_def split_beta)
qed

lemma from_ok:
  assumes "framed (guarded J P) m" "J (fst s)" "wp m (\<lambda>r t. \<forall>x. r = Ok x \<longrightarrow> K x t) s"
    and "\<And>x t. J (fst t) \<Longrightarrow> K x t \<Longrightarrow> guarded J P t (snd (f x t))" "m s = (Ok x, t)"
  shows "guarded J P s (snd (f x t))"
proof -
  have st: "guarded J P s t" using from_framed [OF assms(1), of s] assms(5) by simp
  with assms(2) have "J (fst t)" by (simp add: guarded_def)
  moreover have "K x t" using wpD [OF assms(3,5)] by blast
  ultimately have "guarded J P t (snd (f x t))" by (rule assms(4))
  with st show ?thesis by (rule guarded.frame_trans)
qed

lemma from_bind:
  assumes "framed (guarded J P) m" "J (fst s)" "wp m (\<lambda>r t. \<forall>x. r = Ok x \<longrightarrow> K x t) s"
    and "\<And>x t. J (fst t) \<Longrightarrow> K x t \<Longrightarrow> guarded J P t (snd (f x t))"
  shows "guarded J P s (snd (bindM m f s))"
proof -
  obtain r t where m: "m s = (r, t)" using prod.exhaust by blast
  have "guarded J P s (snd (f x t))" if "r = Ok x" for x
    by (rule from_ok [OF assms(1-3), where f = f]) (use assms(4) m that in auto)
  with m from_framed [OF assms(1), of s] show ?thesis by (cases r) (simp_all add: bindM_def)
qed

lemma from_match:
  assumes "framed (guarded J P) m" "J (fst s)" "wp m (\<lambda>r t. \<forall>x. r = Ok x \<longrightarrow> K x t) s"
    and "\<And>x t. J (fst t) \<Longrightarrow> K x t \<Longrightarrow> guarded J P t (snd (f x t))" "\<And>e. framed (guarded J P) (g e)"
  shows "guarded J P s (snd (matchM m f g s))"
proof -
  obtain r t where m: "m s = (r, t)" using prod.exhaust by blast
  have "guarded J P s t" using from_framed [OF assms(1), of s] m by simp
  with from_framed [OF assms(5)] have "guarded J P s (snd (g e t))" for e by (rule guarded.frame_trans [rotated])
  moreover have "guarded J P s (snd (f x t))" if "r = Ok x" for x
    by (rule from_ok [OF assms(1-3), where f = f]) (use assms(4) m that in auto)
  ultimately show ?thesis using m from_framed [OF assms(1), of s] by (cases r) (simp_all add: matchM_def)
qed

lemma guarded_weaken:
  assumes "framed (guarded J P) m" "\<And>req. P req \<Longrightarrow> P' req"
  shows "framed (guarded J P') m"
proof -
  have "list_all P' rs" if "list_all P rs" for rs using that assms(2) by (auto simp: list_all_iff)
  with assms(1) show ?thesis unfolding framed_def guarded_def requests_def by blast
qed

section \<open>The invariant\<close>

definition trusted_service :: "('sk, 'pk, 'rsa) env \<Rightarrow> string \<Rightarrow> bool" where
  "trusted_service E u \<longleftrightarrow> u = [] \<or> validate_webex_url (lower E) u ''https'' = Inr ()"

text \<open>
  A request of the handler: it carries the token, uses a method the native adapter supports, and is
  one of the device manager, the identity request, or one below a trusted encryption service.
\<close>

definition handler_request :: "('sk, 'pk, 'rsa) env \<Rightarrow> string \<Rightarrow> fetch_request \<Rightarrow> bool" where
  "handler_request E token req \<longleftrightarrow>
     rq_headers req ''Authorization'' = Some (bearer token) \<and>
     rq_method req \<in> {''GET'', ''POST'', ''PUT'', ''DELETE''} \<and>
     (wdm_request E token req \<or> req = me_request token \<or>
      (\<exists>service. trusted_service E service \<and> starts_with (service @ ''/kms/'') (rq_url req)))"

definition client_ok :: "('sk, 'pk, 'rsa) env \<Rightarrow> string \<Rightarrow> kms_client \<Rightarrow> bool" where
  "client_ok E token k \<longleftrightarrow> kms_inv k \<and> kc_token k = token \<and> trusted_service E (kc_encryption_service_url k)"

definition handler_inv :: "('sk, 'pk, 'rsa) env \<Rightarrow> webex_message_handler \<Rightarrow> bool" where
  "handler_inv E h \<longleftrightarrow>
     base_ok E (wh_device_manager h) \<and>
     (\<forall>k. wh_kms_client h = Some k \<longrightarrow> client_ok E (wh_token h) k) \<and>
     (\<forall>reg. wh_registration h = Some reg \<longrightarrow> urls_ok E reg) \<and>
     (wh_kms_response_handler h \<longleftrightarrow> wh_kms_client h \<noteq> None) \<and>
     (wh_registration h \<noteq> None \<longrightarrow> wh_kms_client h \<noteq> None) \<and>
     (wh_connected h \<longrightarrow> wh_registration h \<noteq> None) \<and>
     (wh_ignore_self_messages h \<and> wh_kms_client h \<noteq> None \<longrightarrow> wh_bot_person_id h \<noteq> None) \<and>
     wh_recent_activity_ids h = [] \<and>
     mercury_inv (wh_mercury h)"

text \<open>With a fixed token, as within one call.\<close>

definition token_inv :: "('sk, 'pk, 'rsa) env \<Rightarrow> string \<Rightarrow> webex_message_handler \<Rightarrow> bool" where
  "token_inv E token h \<longleftrightarrow> handler_inv E h \<and> wh_token h = token"

lemma request_cases:
  "wdm_request E token req \<Longrightarrow> handler_request E token req"
  "handler_request E token (me_request token)"
  "trusted_service E service \<Longrightarrow> to_kms (token, device, user, service) req \<Longrightarrow> handler_request E token req"
  by (auto simp: handler_request_def wdm_request_def me_request_def json_headers_def)

lemma device_frames:
  "framed (guarded (base_ok E) (handler_request E token)) (register E token)"
  "framed (guarded (base_ok E) (handler_request E token)) (refresh E token)"
  "framed (guarded (base_ok E) (handler_request E token)) (unregister E token)"
  by (rule guarded_weaken [OF register_guarded request_cases(1)] guarded_weaken [OF refresh_guarded request_cases(1)]
      guarded_weaken [OF unregister_guarded request_cases(1)], assumption)+

lemma dm_frame:
  "framed (guarded (base_ok E) P) m \<Longrightarrow> framed (guarded (token_inv E token) P) (dmM m)"
  by (erule guarded_part) (auto simp: token_inv_def handler_inv_def)

lemma client_frame:
  assumes "\<And>i. framed (guarded (kms_ok i) (to_kms i)) m"
  shows "framed (guarded (client_ok E token) (handler_request E token)) m"
proof (rule framed_from)
  fix s :: "kms_client \<times> world" assume s: "client_ok E token (fst s)"
  obtain device user service where i: "kms_ident (fst s) = (token, device, user, service)" "trusted_service E service"
    using s by (auto simp: client_ok_def kms_ident_def)
  then have "framed (guarded (kms_ok (kms_ident (fst s))) (handler_request E token)) m"
    using guarded_weaken [OF assms [of "kms_ident (fst s)"]] request_cases(3) by metis
  from from_framed [OF this, of s] i s
  show "guarded (client_ok E token) (handler_request E token) s (snd (m s))"
    by (auto simp: guarded_def kms_ok_def client_ok_def kms_ident_def)
qed

lemma token_inv_client:
  "token_inv E token h \<Longrightarrow> wh_kms_client h = Some k \<Longrightarrow> client_ok E token k"
  "token_inv E token h \<Longrightarrow> wh_kms_client h = Some k \<Longrightarrow> client_ok E token k' \<Longrightarrow> token_inv E token (h\<lparr>wh_kms_client := Some k'\<rparr>)"
  by (auto simp: token_inv_def handler_inv_def)

lemma with_kms_from:
  assumes "framed (guarded C P) m" "\<And>h k. J h \<Longrightarrow> wh_kms_client h = Some k \<Longrightarrow> C k"
    and "\<And>h k k'. J h \<Longrightarrow> wh_kms_client h = Some k \<Longrightarrow> C k' \<Longrightarrow> J (h\<lparr>wh_kms_client := Some k'\<rparr>)"
  shows "framed (guarded J P) (with_kms m)"
proof (rule framed_from)
  fix s :: "webex_message_handler \<times> world" assume J: "J (fst s)"
  show "guarded J P s (snd (with_kms m s))"
  proof (cases "wh_kms_client (fst s)")
    case None
    then show ?thesis unfolding with_kms_def by (intro from_read) (simp add: returnM_def guarded.frame_refl)
  next
    case (Some k)
    then show ?thesis unfolding with_kms_def
      by (intro from_read) (simp add: from_part [OF assms(1)] assms(2,3) [OF J])
  qed
qed

lemma with_kms_frame:
  "framed (guarded (client_ok E token) P) m \<Longrightarrow> framed (guarded (token_inv E token) P) (with_kms m)"
  by (erule with_kms_from) (auto intro: token_inv_client)

text \<open>Updates that the invariant does not see.\<close>

lemma harmless_updates:
  "token_inv E token h \<Longrightarrow> mercury_inv m \<Longrightarrow> token_inv E token (h\<lparr>wh_mercury := m\<rparr>)"
  "token_inv E token h \<Longrightarrow> token_inv E token (h\<lparr>wh_events := evs\<rparr>)"
  "token_inv E token h \<Longrightarrow> token_inv E token (h\<lparr>wh_tasks := as\<rparr>)"
  "token_inv E token h \<Longrightarrow> token_inv E token (h\<lparr>wh_connecting := b\<rparr>)"
  "token_inv E token h \<Longrightarrow> token_inv E token (h\<lparr>wh_connected := False\<rparr>)"
  "token_inv E token h \<Longrightarrow> token_inv E token (h\<lparr>wh_seen := n\<rparr>)"
  "token_inv E token h \<Longrightarrow> token_inv E token (h\<lparr>wh_loop := b\<rparr>)"
  "token_inv E token h \<Longrightarrow> token_inv E token (h\<lparr>wh_rx_taken := b\<rparr>)"
  "token_inv E token h \<Longrightarrow> token_inv E token (h\<lparr>wh_bot_person_id := Some i\<rparr>)"
  "token_inv E token h \<Longrightarrow> token_inv E token (start_mercury_event_loop h)"
  by (auto simp: token_inv_def handler_inv_def start_mercury_event_loop_def take_event_rx_def mercury_inv_def)

lemma mercury_frame: "framed (guarded mercury_inv P) (connect E url token)"
proof -
  have "framed (guarded (\<lambda>_. True) P) (connect E url token)"
    unfolding connect_def connect_internal_def Let_def by (rule guarded_rules guarded_update TrueI)+
  moreover have "mercury_inv (fst t)" if "connect E url token s = (r, t)" "mercury_inv (fst s)" for r s t
    using mercury_step_inv [OF step_connect [of E url token "fst s" "snd s" r "fst t" "snd t"]] that by simp
  ultimately show ?thesis unfolding framed_def guarded_def by (metis prod.collapse)
qed

lemma metric_frame: "framed (guarded J P) (callbackM E cb name start ok)"
  unfolding callbackM_def
  by (rule guarded_rules | (auto simp: framed_def guarded_def requests_def sent_of_def))+

lemma report_frame: "framed (guarded J P) (report_metric E name start ok)"
  unfolding report_metric_def by (rule guarded_rules metric_frame)+

lemma send_frame: "framed (guarded (token_inv E token) P) (sendM ev)"
  unfolding sendM_def by (rule guarded_update) (rule harmless_updates)

lemma bot_frame: "framed (guarded (token_inv E token) (handler_request E token)) (fetch_bot_person_id E)"
  unfolding fetch_bot_person_id_def
  by (rule guarded_rules guarded_update harmless_updates | simp add: token_inv_def request_cases(2))+

lemma bot_post: "wp (fetch_bot_person_id E) (\<lambda>r t. \<forall>x. r = Ok x \<longrightarrow> wh_bot_person_id (fst t) \<noteq> None \<and>
    wh_ignore_self_messages (fst t) = wh_ignore_self_messages (fst s)) s"
  by (auto simp: fetch_bot_person_id_def wp_simps split: outcome.split)

lemma register_urls: "register E token s = (Ok reg, t) \<Longrightarrow> urls_ok E reg"
  using register_refresh_post [of E token s] by simp

lemma refresh_urls: "refresh E token s = (Ok reg, t) \<Longrightarrow> urls_ok E reg"
  using register_refresh_post [of E token s] by simp

lemma returns_part: "(\<And>s x t. m s = (Ok x, t) \<Longrightarrow> Q x) \<Longrightarrow> returns J Q (partM get put m)"
  unfolding returns_def wp_part by (blast intro: wpI)

lemmas device_returns =
  returns_part [OF register_urls] returns_part [OF refresh_urls]

lemma client_new_ok:
  assumes "urls_ok E reg"
  shows "client_ok E token (kms_client_new token (dr_device_url reg) (dr_user_id reg) (dr_encryption_service_url reg))"
  using assms by (auto simp: client_ok_def kms_inv_new trusted_service_def urls_ok_def) (simp_all add: kms_client_new_def)

lemma install_kms_inv:
  assumes "token_inv E token h" "urls_ok E reg" "wh_ignore_self_messages h \<longrightarrow> wh_bot_person_id h \<noteq> None"
  shows "token_inv E token (install_kms token reg h)"
  using assms client_new_ok [OF assms(2), of token] by (auto simp: token_inv_def handler_inv_def install_kms_def)

text \<open>With a KMS client in place, as in the second half of \<open>connect_internal\<close>.\<close>

definition armed_inv :: "('sk, 'pk, 'rsa) env \<Rightarrow> string \<Rightarrow> webex_message_handler \<Rightarrow> bool" where
  "armed_inv E token h \<longleftrightarrow> token_inv E token h \<and> wh_kms_client h \<noteq> None"

lemma armed_token: "armed_inv E token h \<Longrightarrow> token_inv E token h"
  by (simp add: armed_inv_def)

lemma initialize_frame:
  "hkdf_length E \<Longrightarrow> framed (guarded (client_ok E token) (handler_request E token)) (initialize E)"
  by (rule client_frame) (rule initialize_guarded)

lemma connect_tail_frame:
  assumes "hkdf_length E" "urls_ok E reg"
  shows "framed (guarded (armed_inv E token) (handler_request E token))
    (bindM (mercuryM (connect E (dr_web_socket_url reg) token)) (\<lambda>_.
     bindM (updateM start_mercury_event_loop) (\<lambda>_.
     bindM (with_kms (initialize E)) (\<lambda>_.
     updateM (\<lambda>h. h\<lparr>wh_registration := Some reg\<rparr>)))))"
proof -
  have "framed (guarded (armed_inv E token) P) (mercuryM (connect E url token))" for P url
    by (rule guarded_part [OF mercury_frame]) (auto simp: armed_inv_def token_inv_def handler_inv_def)
  moreover have "framed (guarded (armed_inv E token) (handler_request E token)) (with_kms (initialize E))"
    by (rule with_kms_from [OF initialize_frame [OF assms(1)]]) (auto simp: armed_inv_def intro: token_inv_client)
  moreover have "armed_inv E token (start_mercury_event_loop h)" "armed_inv E token (h\<lparr>wh_registration := Some reg\<rparr>)"
    if "armed_inv E token h" for h
    using that assms(2) harmless_updates(10) [of E token h]
    by (auto simp: armed_inv_def start_mercury_event_loop_def split_beta) (auto simp: token_inv_def handler_inv_def)
  ultimately show ?thesis by (intro guarded.framed_bind guarded_update) simp_all
qed

lemma connect_internal_frame:
  assumes "hkdf_length E"
  shows "framed (guarded (token_inv E token) (handler_request E token)) (handler_connect_internal E)"
  unfolding handler_connect_internal_def
proof (rule guarded_read, rule guarded_bind_returns)
  fix h reg assume t: "token_inv E token h" and reg: "urls_ok E reg"
  let ?tail = "\<lambda>_. bindM (updateM (install_kms (wh_token h) reg)) (\<lambda>_.
     bindM (mercuryM (connect E (dr_web_socket_url reg) (wh_token h))) (\<lambda>_.
     bindM (updateM start_mercury_event_loop) (\<lambda>_.
     bindM (with_kms (initialize E)) (\<lambda>_.
     updateM (\<lambda>h. h\<lparr>wh_registration := Some reg\<rparr>)))))"
  have tok: "wh_token h = token" using t by (simp add: token_inv_def)
  have tail: "guarded (token_inv E token) (handler_request E token) s (snd (?tail x s))"
    if "token_inv E token (fst s)" "wh_ignore_self_messages (fst s) \<longrightarrow> wh_bot_person_id (fst s) \<noteq> None" for s x
  proof (rule from_update [where K = "armed_inv E token"])
    show "armed_inv E token (install_kms (wh_token h) reg (fst s))"
      using install_kms_inv [OF that(1) reg that(2)] tok by (simp add: armed_inv_def install_kms_def)
  qed (simp_all add: armed_token connect_tail_frame [OF assms reg] tok)
  show "framed (guarded (token_inv E token) (handler_request E token)) (bindM (fieldM wh_ignore_self_messages) (\<lambda>ignore_self.
     bindM (if ignore_self then fetch_bot_person_id E else returnM ()) ?tail))"
  proof (rule framed_from, rule from_read, rule from_bind)
    fix s :: "webex_message_handler \<times> world"
    let ?m = "if wh_ignore_self_messages (fst s) then fetch_bot_person_id E else returnM ()"
    show "framed (guarded (token_inv E token) (handler_request E token)) ?m"
      by (simp add: bot_frame guarded.framed_return)
    show "wp ?m (\<lambda>r t. \<forall>x. r = Ok x \<longrightarrow> wh_ignore_self_messages (fst t) \<longrightarrow> wh_bot_person_id (fst t) \<noteq> None) s"
      by (auto simp: wp_return intro: wp_weaken [OF bot_post])
  qed (simp_all add: tail)
qed (simp_all add: device_returns dm_frame device_frames token_inv_def)

lemma connect_internal_registers:
  "handler_connect_internal E s = (Ok (), t) \<Longrightarrow> wh_registration (fst t) \<noteq> None"
  by (auto simp: handler_connect_internal_def bindM_Ok updateM_def modifyM_def)

lemma handler_connect_frame:
  assumes "hkdf_length E"
  shows "framed (guarded (token_inv E token) (handler_request E token)) (handler_connect E)"
proof -
  let ?J = "token_inv E token" and ?P = "handler_request E token"
  have ok: "guarded ?J ?P t (snd (bindM (updateM (\<lambda>h. h\<lparr>wh_connecting := False, wh_connected := True\<rparr>)) (\<lambda>_.
            bindM (report_metric E ''connect'' start True) (\<lambda>_. sendM HandlerConnected)) t))"
    if "?J (fst t)" "wh_registration (fst t) \<noteq> None" for start t
  proof (rule from_update [where K = ?J])
    show "?J ((fst t)\<lparr>wh_connecting := False, wh_connected := True\<rparr>)"
      using that by (auto simp: token_inv_def handler_inv_def)
  qed (simp_all add: guarded.framed_bind report_frame send_frame)
  have err: "framed (guarded ?J ?P) (bindM (updateM (\<lambda>h. h\<lparr>wh_connecting := False\<rparr>)) (\<lambda>_.
            bindM (report_metric E ''connect'' start False) (\<lambda>_. throwM e)))" for start e
    by (rule guarded_update guarded.framed_bind report_frame guarded.framed_throw harmless_updates | assumption)+
  have run: "framed (guarded ?J ?P) (matchM (handler_connect_internal E)
         (\<lambda>_. bindM (updateM (\<lambda>h. h\<lparr>wh_connecting := False, wh_connected := True\<rparr>)) (\<lambda>_.
            bindM (report_metric E ''connect'' start True) (\<lambda>_. sendM HandlerConnected)))
         (\<lambda>e. bindM (updateM (\<lambda>h. h\<lparr>wh_connecting := False\<rparr>)) (\<lambda>_.
            bindM (report_metric E ''connect'' start False) (\<lambda>_. throwM e))))" for start
    by (rule framed_from, rule from_match [OF connect_internal_frame [OF assms], where K = "\<lambda>_ t. wh_registration (fst t) \<noteq> None"])
      (auto simp: err ok intro: wpI dest: connect_internal_registers)
  show ?thesis
    unfolding handler_connect_def by (rule run guarded_rules guarded_update harmless_updates | assumption)+
qed

definition offline_inv :: "('sk, 'pk, 'rsa) env \<Rightarrow> string \<Rightarrow> webex_message_handler \<Rightarrow> bool" where
  "offline_inv E token h \<longleftrightarrow> token_inv E token h \<and> \<not> wh_connected h"

lemma handler_disconnect_frame:
  "framed (guarded (token_inv E token) (handler_request E token)) (handler_disconnect E)"
proof -
  let ?J = "offline_inv E token" and ?P = "handler_request E token"
  have clear: "?J (h\<lparr>wh_registration := None, wh_kms_client := None, wh_kms_response_handler := False, wh_bot_person_id := None\<rparr>)"
    and merc: "?J (h\<lparr>wh_mercury := disconnect (wh_mercury h)\<rparr>)" if "?J h" for h
    using that mercury_step_inv [OF step_disconnect] by (auto simp: offline_inv_def token_inv_def handler_inv_def)
  have dm: "framed (guarded ?J ?P) (dmM (unregister E token))"
    by (rule guarded_part [OF device_frames(3)]) (auto simp: offline_inv_def token_inv_def handler_inv_def)
  have tok: "wh_token h = token" if "?J h" for h using that by (simp add: offline_inv_def token_inv_def)
  have rest: "framed (guarded ?J ?P) (bindM (updateM (\<lambda>h. h\<lparr>wh_mercury := disconnect (wh_mercury h)\<rparr>)) (\<lambda>_.
     bindM (fieldM wh_token) (\<lambda>token.
     bindM (fieldM wh_registration) (\<lambda>reg.
     bindM (case reg of
         None \<Rightarrow> returnM ()
       | Some r \<Rightarrow> matchM (dmM (unregister E token)) (\<lambda>_. returnM ()) (\<lambda>e. returnM ())) (\<lambda>_.
     updateM (\<lambda>h. h\<lparr>wh_registration := None, wh_kms_client := None, wh_kms_response_handler := False,
       wh_bot_person_id := None\<rparr>))))))"
    by (rule guarded_rules guarded_update clear merc dm | assumption | simp add: tok)+
  show ?thesis
    unfolding handler_disconnect_def
  proof (rule framed_from, rule from_update [where K = ?J])
    fix s :: "webex_message_handler \<times> world" assume "token_inv E token (fst s)"
    then show "?J ((fst s)\<lparr>wh_connected := False\<rparr>)" by (simp add: offline_inv_def harmless_updates)
  qed (rule rest | simp add: offline_inv_def)+
qed

text \<open>The activity task.\<close>

lemma decrypt_frame:
  "hkdf_length E \<Longrightarrow> framed (guarded (client_ok E token) (handler_request E token)) (decrypt_activity E a)"
  unfolding decrypt_activity_def
  by (rule guarded_rules | (rule client_frame, rule get_key_guarded, assumption))+

lemma handle_activity_frame:
  assumes "hkdf_length E"
  shows "framed (guarded (\<lambda>(k, evs). client_ok E token k) (handler_request E token)) (handle_activity_static E a b cb)"
proof -
  let ?R = "guarded (\<lambda>(k, evs :: handler_event list). client_ok E token k) (handler_request E token)"
  have "framed ?R (decryptM E a)"
    unfolding decryptM_def by (rule guarded_part [OF decrypt_frame [OF assms]]) auto
  moreover have "framed ?R (postM ev)" for ev
    unfolding postM_def by (rule guarded_update) auto
  ultimately show ?thesis
    unfolding handle_activity_static_def Let_def
    by - (rule metric_frame guarded_rules | assumption)+
qed

lemma activity_task_from:
  assumes "\<And>b cb. framed (guarded (\<lambda>(k, evs). C k) P) (handle_activity_static E a b cb)"
    and "\<And>h k. J h \<Longrightarrow> wh_kms_client h = Some k \<Longrightarrow> C k"
    and "\<And>h k k' evs. J h \<Longrightarrow> wh_kms_client h = Some k \<Longrightarrow> C k' \<Longrightarrow> J (h\<lparr>wh_kms_client := Some k', wh_events := evs\<rparr>)"
  shows "framed (guarded J P) (activity_task E a)"
proof (rule framed_from)
  fix s :: "webex_message_handler \<times> world" assume J: "J (fst s)"
  show "guarded J P s (snd (activity_task E a s))"
  proof (cases "wh_kms_client (fst s)")
    case None
    then show ?thesis unfolding activity_task_def by (intro from_read) (simp add: returnM_def guarded.frame_refl)
  next
    case (Some k)
    then show ?thesis unfolding activity_task_def
      by (intro from_read) (auto intro!: from_part [OF assms(1)] assms(2,3) [OF J])
  qed
qed

lemma activity_task_frame:
  assumes "hkdf_length E"
  shows "framed (guarded (token_inv E token) (handler_request E token)) (activity_task E a)"
  by (rule activity_task_from [OF handle_activity_frame [OF assms]])
    (auto dest: token_inv_client harmless_updates(2) [OF token_inv_client(2)])

text \<open>The event loop, for every event the socket emits.\<close>

lemma queue_frame: "framed (guarded (client_ok E token) P) (queueM (handle_kms_message d))"
  unfolding queueM_def
  by (rule guarded_update) (auto simp: client_ok_def kms_inv_def pending_handle)

lemma loop_event_frame:
  "ev \<noteq> EvConnected \<Longrightarrow> framed (guarded (token_inv E token) P) (loop_event E ev)"
  by (cases ev)
    (simp_all add: guarded.framed_bind guarded_update guarded_pure harmless_updates send_frame framed_if
      guarded.framed_return with_kms_frame [OF queue_frame])

section \<open>The system\<close>

text \<open>
  A step of the handler: a call of its consumer, a task of the socket, the event loop receiving the
  next event or sweeping, or the task of some received activity. The event loop ends with a panic
  of its body.
\<close>

definition loop_after :: "unit result \<Rightarrow> webex_message_handler \<times> world \<Rightarrow> webex_message_handler \<times> world" where
  "loop_after r s = (if is_panic r then ((fst s)\<lparr>wh_loop := False\<rparr>, snd s) else s)"

text \<open>Who acts: a call of the consumer, the event loop, or one of the other tasks.\<close>

datatype action = ConnectCall | DisconnectCall | ReconnectCall | LoopStep | OtherStep

inductive handler_step ::
  "('sk, 'pk, 'rsa) env \<Rightarrow> action \<Rightarrow> webex_message_handler \<times> world \<Rightarrow> webex_message_handler \<times> world \<Rightarrow> bool" for E where
  call_connect: "handler_connect E s = (r, s') \<Longrightarrow> handler_step E ConnectCall s s'"
| call_disconnect: "handler_disconnect E s = (r, s') \<Longrightarrow> handler_step E DisconnectCall s s'"
| call_reconnect: "handler_reconnect E new_token s = (r, s') \<Longrightarrow> handler_step E ReconnectCall s s'"
| call_take_rx: "handler_step E OtherStep (h, w) (snd (handler_take_event_rx h), w)"
| socket_task: "task_step E (wh_mercury h) m \<Longrightarrow> handler_step E OtherStep (h, w) (h\<lparr>wh_mercury := m\<rparr>, w)"
| loop_receives: "wh_loop h \<Longrightarrow> wh_seen h < length (ms_events (wh_mercury h)) \<Longrightarrow>
    loop_event E (ms_events (wh_mercury h) ! wh_seen h) (h\<lparr>wh_seen := wh_seen h + 1\<rparr>, w) = (r, s') \<Longrightarrow>
    handler_step E LoopStep (h, w) (loop_after r s')"
| loop_sweeps: "wh_loop h \<Longrightarrow> handler_step E LoopStep (h, w) (sweep now h, w)"
| task_runs: "wh_tasks h = as @ a # bs \<Longrightarrow> activity_task E a (h\<lparr>wh_tasks := as @ bs\<rparr>, w) = (r, s') \<Longrightarrow>
    handler_step E OtherStep (h, w) s'"

inductive handler_reach ::
  "('sk, 'pk, 'rsa) env \<Rightarrow> config \<Rightarrow> webex_message_handler \<times> world \<Rightarrow> bool" for E config where
  start: "handler_new config = Ok h \<Longrightarrow> handler_reach E config (h, w)"
| step: "handler_reach E config s \<Longrightarrow> handler_step E l s s' \<Longrightarrow> handler_reach E config s'"

text \<open>What a step may send: requests with the token before it or, for a reconnect, after it.\<close>

definition step_ok :: "('sk, 'pk, 'rsa) env \<Rightarrow> webex_message_handler \<times> world \<Rightarrow> webex_message_handler \<times> world \<Rightarrow> bool" where
  "step_ok E s s' \<longleftrightarrow> handler_inv E (fst s') \<and>
     requests (\<lambda>req. handler_request E (wh_token (fst s)) req \<or> handler_request E (wh_token (fst s')) req) s s'"

lemma requests_mono: "requests P s t \<Longrightarrow> (\<And>req. P req \<Longrightarrow> Q req) \<Longrightarrow> requests Q s t"
  unfolding requests_def by (metis list_all_iff)

lemma frame_step_ok:
  assumes "framed (guarded (token_inv E (wh_token (fst s))) (handler_request E (wh_token (fst s)))) m"
    and "handler_inv E (fst s)" "m s = (r, s')"
  shows "step_ok E s s'" "wh_token (fst s') = wh_token (fst s)"
  using guardedD [OF assms(1,3)] assms(2) by (auto simp: step_ok_def token_inv_def elim: requests_mono)

lemma quiet_step_ok:
  "token_inv E (wh_token h) h' \<Longrightarrow> step_ok E (h, w) (h', w)"
  by (auto simp: step_ok_def token_inv_def requests_def)

lemma same_log_step_ok:
  "step_ok E (h', w) s' \<Longrightarrow> wh_token h' = wh_token h \<Longrightarrow> step_ok E (h, w) s'"
  by (simp add: step_ok_def requests_def)

lemma inv_token: "handler_inv E h \<longleftrightarrow> token_inv E (wh_token h) h"
  by (simp add: token_inv_def)

text \<open>Disconnecting always succeeds; this is the state it leaves.\<close>

definition unregistered :: "('sk, 'pk, 'rsa) env \<Rightarrow> webex_message_handler \<times> world \<Rightarrow> device_manager \<times> world" where
  "unregistered E s =
     (case wh_registration (fst s) of
        None \<Rightarrow> (wh_device_manager (fst s), snd s)
      | Some reg \<Rightarrow> snd (unregister E (wh_token (fst s)) (wh_device_manager (fst s), snd s)))"

lemma unregister_no_panic: "\<not> is_panic (fst (unregister E token s))"
  using unregister_run [of E token "fst s" "snd s"] by (auto simp: Let_def split: option.splits sum.splits if_splits)

lemma handler_disconnect_run:
  "handler_disconnect E s =
    (Ok (), ((fst s)\<lparr>wh_connected := False, wh_mercury := disconnect (wh_mercury (fst s)),
       wh_device_manager := fst (unregistered E s), wh_registration := None, wh_kms_client := None,
       wh_kms_response_handler := False, wh_bot_person_id := None\<rparr>, snd (unregistered E s)))"
proof (cases "wh_registration (fst s)")
  case None
  then show ?thesis by (simp add: handler_disconnect_def unregistered_def effect_defs split_beta)
next
  case (Some reg)
  obtain r t where u: "unregister E (wh_token (fst s)) (wh_device_manager (fst s), snd s) = (r, t)" using prod.exhaust by blast
  with unregister_no_panic [of E "wh_token (fst s)" "(wh_device_manager (fst s), snd s)"] have "\<not> is_panic r" by simp
  with u Some show ?thesis
    by (cases r) (simp_all add: handler_disconnect_def unregistered_def effect_defs partM_def zoomM_def split_beta)
qed

lemma reconnect_run:
  "new_token \<noteq> [] \<Longrightarrow> handler_reconnect E new_token s =
    handler_connect E ((fst (snd (handler_disconnect E s)))\<lparr>wh_token := new_token\<rparr>, snd (snd (handler_disconnect E s)))"
  by (simp add: handler_reconnect_def handler_disconnect_run bindM_def updateM_def modifyM_def)

lemma reconnect_ok:
  assumes "hkdf_length E" "handler_inv E (fst s)" "handler_reconnect E new_token s = (r, s')"
  shows "step_ok E s s'"
proof (cases "new_token = []")
  case True
  with assms show ?thesis by (auto simp: handler_reconnect_def throwM_def step_ok_def)
next
  case False
  define t where "t = snd (handler_disconnect E s)"
  let ?t = "((fst t)\<lparr>wh_token := new_token\<rparr>, snd t)"
  have d: "step_ok E s t" "wh_token (fst t) = wh_token (fst s)"
    using frame_step_ok [OF handler_disconnect_frame assms(2)] t_def by (metis prod.collapse)+
  then have "handler_inv E (fst ?t)"
    by (auto simp: step_ok_def t_def handler_disconnect_run handler_inv_def)
  moreover have "handler_connect E ?t = (r, s')" using assms(3) unfolding reconnect_run [OF False] t_def .
  ultimately have c: "step_ok E ?t s'" "wh_token (fst s') = new_token"
    using frame_step_ok [OF handler_connect_frame [OF assms(1)], where s = ?t] by simp_all
  let ?P = "\<lambda>req. handler_request E (wh_token (fst s)) req \<or> handler_request E (wh_token (fst s')) req"
  have "requests ?P s t" using d by (auto simp: step_ok_def elim: requests_mono)
  moreover have "requests ?P ?t s'" using c by (auto simp: step_ok_def elim: requests_mono)
  then have "requests ?P t s'" by (simp add: requests_def sent_of_def)
  ultimately have "requests ?P s s'" by (rule requests_trans)
  with c show ?thesis by (simp add: step_ok_def)
qed

lemma received_event:
  assumes "handler_inv E h" "n < length (ms_events (wh_mercury h))"
  shows "ms_events (wh_mercury h) ! n \<noteq> EvConnected"
proof -
  have "event_ok (ms_max_reconnect_attempts (wh_mercury h)) (ms_events (wh_mercury h) ! n)"
    using assms by (auto simp: handler_inv_def mercury_inv_def list_all_length)
  then show ?thesis by (auto simp: event_ok_def)
qed

lemma handler_step_ok:
  assumes "handler_step E l s s'" "hkdf_length E" "handler_inv E (fst s)"
  shows "step_ok E s s'"
  using assms(1,3)
proof (induction rule: handler_step.induct)
  case (call_connect s r s')
  with frame_step_ok(1) [OF handler_connect_frame [OF assms(2)]] show ?case by blast
next
  case (call_disconnect s r s')
  with frame_step_ok(1) [OF handler_disconnect_frame] show ?case by blast
next
  case (call_reconnect new_token s r s')
  with reconnect_ok [OF assms(2)] show ?case by blast
next
  case (call_take_rx h w)
  then show ?case by (intro quiet_step_ok) (simp add: handler_take_event_rx_def harmless_updates inv_token)
next
  case (socket_task h m w)
  then show ?case by (intro quiet_step_ok) (auto simp: handler_inv_def token_inv_def intro: task_step_inv)
next
  case (loop_receives h w r s')
  let ?h = "h\<lparr>wh_seen := wh_seen h + 1\<rparr>" and ?ev = "ms_events (wh_mercury h) ! wh_seen h"
  have ev: "?ev \<noteq> EvConnected" using loop_receives by (intro received_event) auto
  have "handler_inv E (fst (?h, w))" using loop_receives harmless_updates(6) by (simp add: inv_token)
  from frame_step_ok [OF loop_event_frame [OF ev] this loop_receives.hyps(3)]
  have "step_ok E (h, w) s'" by (auto intro: same_log_step_ok)
  then show ?case using harmless_updates(7) [of E "wh_token (fst s')" "fst s'" False]
    by (auto simp: loop_after_def step_ok_def requests_def sent_of_def inv_token)
next
  case (loop_sweeps h w now)
  then show ?case by (intro quiet_step_ok) (auto simp: sweep_def handler_inv_def token_inv_def)
next
  case (task_runs h as a bs w r s')
  have "handler_inv E (fst (h\<lparr>wh_tasks := as @ bs\<rparr>, w))" using task_runs harmless_updates(3) by (simp add: inv_token)
  from frame_step_ok [OF activity_task_frame [OF assms(2)] this task_runs.hyps(2)]
  show ?case by (auto intro: same_log_step_ok)
qed

lemma handler_new_inv:
  assumes "handler_new config = Ok h"
  shows "handler_inv E h"
  using assms mercury_inv_new
  by (auto simp: handler_new_def bind_ok_eq_Ok handler_inv_def base_ok_def device_manager_new_def split: if_splits)

lemma handler_reach_inv:
  assumes "handler_reach E config s" "hkdf_length E"
  shows "handler_inv E (fst s)"
  using assms(1)
proof (induction rule: handler_reach.induct)
  case (start h w)
  then show ?case by (simp add: handler_new_inv)
next
  case (step s l s')
  with handler_step_ok [OF step.hyps(2) assms(2)] show ?case by (simp add: step_ok_def)
qed

end
