(* ===== verification/Handler_Dispatch.thy ===== *)
theory Handler_Dispatch
  imports Handler
begin

text \<open>
  What handling one activity does: a table of activity classes, the events each class calls for,
  and that \<open>handle_activity_static\<close> is exactly that table.
\<close>

section \<open>Dispatch of activities\<close>

text \<open>
  The documented table of activities: what a pair of verb and object type means. Every other pair
  is ignored.
\<close>

datatype activity_class = NewMessage | EditedMessage | Deletion | Membership | CardAction | NewRoom | EditedRoom

definition class_table :: "((string \<times> string) \<times> activity_class) list" where
  "class_table =
     [((''post'', ''comment''), NewMessage), ((''post'', ''content''), NewMessage),
      ((''share'', ''comment''), NewMessage), ((''share'', ''content''), NewMessage),
      ((''update'', ''comment''), EditedMessage), ((''update'', ''content''), EditedMessage),
      ((''delete'', ''activity''), Deletion),
      ((''add'', ''person''), Membership), ((''leave'', ''person''), Membership),
      ((''assignModerator'', ''person''), Membership), ((''unassignModerator'', ''person''), Membership),
      ((''cardAction'', ''submit''), CardAction),
      ((''create'', ''conversation''), NewRoom), ((''update'', ''conversation''), EditedRoom)]"

definition class_of :: "mercury_activity \<Rightarrow> activity_class option" where
  "class_of a = map_of class_table (av_verb a, ob_object_type (av_object a))"

text \<open>The events of an activity of a class, given how its decryption ended.\<close>

fun message_events ::
  "('sk, 'pk, 'rsa) env \<Rightarrow> string option \<Rightarrow> (decrypted_message \<Rightarrow> handler_event) \<Rightarrow> mercury_activity result \<Rightarrow> handler_event list" where
  "message_events E b ev (Ok d) = (if is_self E b (message_of E d) then [] else [ev (message_of E d)])"
| "message_events E b ev (Err e) = [HandlerError (display e)]"
| "message_events E b ev (Panic p) = []"

fun card_events :: "mercury_activity \<Rightarrow> mercury_activity result \<Rightarrow> handler_event list" where
  "card_events a (Ok d) = [AttachmentActionCreated (attachment_action_of d)]"
| "card_events a (Err e) = [AttachmentActionCreated (attachment_action_of a)]"
| "card_events a (Panic p) = []"

fun class_events ::
  "('sk, 'pk, 'rsa) env \<Rightarrow> string option \<Rightarrow> mercury_activity \<Rightarrow> mercury_activity result \<Rightarrow> activity_class \<Rightarrow> handler_event list" where
  "class_events E b a d NewMessage = message_events E b MessageCreated d"
| "class_events E b a d EditedMessage = message_events E b MessageUpdated d"
| "class_events E b a d Deletion = [MessageDeleted \<lparr>dl_message_id = ob_id (av_object a), dl_room_id = tg_id (av_target a),
     dl_person_id = ac_id (av_actor a)\<rparr>]"
| "class_events E b a d Membership = [MembershipCreated (membership_of a)]"
| "class_events E b a d CardAction = card_events a d"
| "class_events E b a d NewRoom = [RoomCreated (room_activity_of ''created'' a)]"
| "class_events E b a d EditedRoom = [RoomUpdated (room_activity_of ''updated'' a)]"

definition events_for :: "('sk, 'pk, 'rsa) env \<Rightarrow> string option \<Rightarrow> mercury_activity \<Rightarrow> mercury_activity result \<Rightarrow> handler_event list" where
  "events_for E b a d = (case class_of a of None \<Rightarrow> [] | Some c \<Rightarrow> class_events E b a d c)"

definition encrypted_class :: "mercury_activity \<Rightarrow> bool" where
  "encrypted_class a \<longleftrightarrow> class_of a \<in> {Some NewMessage, Some EditedMessage, Some CardAction}"

lemma wp_metric [wp_simps]:
  "wp (callbackM E cb name start ok :: ('x \<times> world, 'e, unit) prog) Q s \<longleftrightarrow>
     Q (Ok ()) (snd ((callbackM E cb name start ok :: ('x \<times> world, 'e, unit) prog) s))"
  by (cases cb) (simp_all add: wp_def callbackM_def effect_defs split_beta)

lemma metric_state [simp]:
  "fst (snd (callbackM E cb name start ok s)) = fst s"
  "w_sent (snd (snd (callbackM E cb name start ok s))) = w_sent (snd s)"
  by (cases cb; simp add: callbackM_def effect_defs split_beta)+

definition activity_run :: "('sk, 'pk, 'rsa) env \<Rightarrow> mercury_activity \<Rightarrow> string option \<Rightarrow> activity_ctx \<times> world \<Rightarrow>
    unit result \<Rightarrow> activity_ctx \<times> world \<Rightarrow> bool" where
  "activity_run E a b s r t \<longleftrightarrow>
     (if encrypted_class a then
        (case decrypt_activity E a (fst (fst s), (snd s)\<lparr>w_ticks := Suc (w_ticks (snd s))\<rparr>) of (d, u) \<Rightarrow>
           fst t = (fst u, snd (fst s) @ events_for E b a d) \<and> sent_of t = sent_of u \<and> is_panic r = is_panic d \<and> (\<forall>e. r \<noteq> Err e))
      else r = Ok () \<and> t = ((fst (fst s), snd (fst s) @ events_for E b a (Ok a)), snd s))"

lemma class_cases:
  "is_message_activity a \<longleftrightarrow> class_of a \<in> {Some NewMessage, Some EditedMessage}"
  "av_verb a = ''delete'' \<and> ob_object_type (av_object a) = ''activity'' \<longleftrightarrow> class_of a = Some Deletion"
  "av_verb a \<in> {''add'', ''leave'', ''assignModerator'', ''unassignModerator''} \<and> ob_object_type (av_object a) = ''person'' \<longleftrightarrow>
     class_of a = Some Membership"
  "av_verb a = ''cardAction'' \<and> ob_object_type (av_object a) = ''submit'' \<longleftrightarrow> class_of a = Some CardAction"
  "av_verb a = ''create'' \<and> ob_object_type (av_object a) = ''conversation'' \<longleftrightarrow> class_of a = Some NewRoom"
  "av_verb a = ''update'' \<and> ob_object_type (av_object a) = ''conversation'' \<longleftrightarrow> class_of a = Some EditedRoom"
  by (auto simp: class_of_def class_table_def is_message_activity_def)

lemma message_verb: "is_message_activity a \<Longrightarrow> class_of a = (if av_verb a = ''update'' then Some EditedMessage else Some NewMessage)"
  by (auto simp: class_of_def class_table_def is_message_activity_def)

lemma wp_decrypt:
  "decrypt_activity E a (fst (fst s), snd s) = (d, u) \<Longrightarrow> wp (decryptM E a) Q s = Q d ((fst u, snd (fst s)), snd u)"
  by (simp add: decryptM_def wp_def partM_def zoomM_def split_beta)

lemma wp_post: "wp (postM ev) Q s = Q (Ok ()) ((fst (fst s), snd (fst s) @ [ev]), snd s)"
  by (simp add: postM_def wp_simps split_beta)

lemma message_exact:
  assumes "is_message_activity a"
  shows "wp (handle_activity_static E a b cb) (activity_run E a b s) s"
proof -
  have e: "encrypted_class a" using assms class_cases(1) [of a] by (auto simp: encrypted_class_def)
  obtain d u where d: "decrypt_activity E a (fst (fst s), (snd s)\<lparr>w_ticks := Suc (w_ticks (snd s))\<rparr>) = (d, u)"
    using prod.exhaust by blast
  have "events_for E b a d = message_events E b (if av_verb a = ''update'' then MessageUpdated else MessageCreated) d"
    using message_verb [OF assms] by (simp add: events_for_def)
  with e d show ?thesis
    by (cases d) (auto simp: handle_activity_static_def Let_def assms wp_simps wp_decrypt wp_post activity_run_def sent_of_def)
qed

lemma card_exact:
  assumes "class_of a = Some CardAction"
  shows "wp (handle_activity_static E a b cb) (activity_run E a b s) s"
proof -
  have e: "encrypted_class a" by (simp add: encrypted_class_def assms)
  obtain d u where d: "decrypt_activity E a (fst (fst s), (snd s)\<lparr>w_ticks := Suc (w_ticks (snd s))\<rparr>) = (d, u)"
    using prod.exhaust by blast
  have "events_for E b a d = card_events a d" by (simp add: events_for_def assms)
  moreover have v: "av_verb a = ''cardAction''" "ob_object_type (av_object a) = ''submit''" using class_cases(4) [of a] assms by simp_all
  ultimately show ?thesis using e d
    by (cases d) (auto simp: handle_activity_static_def Let_def is_message_activity_def wp_simps wp_decrypt wp_post activity_run_def sent_of_def)
qed

lemma plain_exact:
  assumes "\<not> encrypted_class a"
  shows "wp (handle_activity_static E a b cb) (activity_run E a b s) s"
proof -
  have n: "\<not> is_message_activity a" "class_of a \<noteq> Some CardAction" using assms class_cases(1) [of a] by (auto simp: encrypted_class_def)
  then have "\<not> (av_verb a = ''cardAction'' \<and> ob_object_type (av_object a) = ''submit'')" using class_cases(4) [of a] by blast
  note n = this n class_cases(2,3,5,6) [of a]
  show ?thesis
  proof (cases "class_of a")
    case None
    with n assms show ?thesis
      by (auto simp: handle_activity_static_def Let_def activity_run_def events_for_def wp_return)
  next
    case (Some c)
    with n assms show ?thesis
      by (cases c) (auto simp: handle_activity_static_def Let_def activity_run_def events_for_def wp_post encrypted_class_def)
  qed
qed

lemma activity_exact: "wp (handle_activity_static E a b cb) (activity_run E a b s) s"
proof -
  consider "is_message_activity a" | "class_of a = Some CardAction" | "\<not> encrypted_class a"
    using class_cases(1) [of a] by (auto simp: encrypted_class_def)
  then show ?thesis by cases (rule message_exact card_exact plain_exact, assumption)+
qed

text \<open>
  C5. Handling an activity is exactly the table: a pair of verb and object type that is not in it
  does nothing; a deletion, a membership change and a room change give their one event and touch
  neither the KMS nor the network; a message or a card action is decrypted once, with no other
  request, and gives the event of the decrypted activity. A message of the bot itself gives none. When the
  decryption fails a message gives one error event and a card action its event with the inputs it
  came with; only a panic of the decryption ends the task.
\<close>

theorem handle_activity_exact:
  "case handle_activity_static E a b cb s of (r, t) \<Rightarrow> activity_run E a b s r t"
  using activity_exact [of E a b cb s] by (simp add: wp_def split_beta)

end
