(* ===== verification/Handler_Props.thy ===== *)
theory Handler_Props
  imports Handler_Inv Handler_Dispatch
begin

text \<open>
  The properties of the orchestrator: what each public operation does, the life cycle it refines,
  where its requests go, and the self-message filter.
\<close>

section \<open>Connecting\<close>

text \<open>A part with a known postcondition, then the rest.\<close>

lemma wp_seq:
  assumes "wp m R s" "\<And>x t. R (Ok x) t \<Longrightarrow> wp (f x) Q t"
    and "\<And>e t. R (Err e) t \<Longrightarrow> Q (Err e) t" "\<And>p t. R (Panic p) t \<Longrightarrow> Q (Panic p) t"
  shows "wp (bindM m f) Q s"
  unfolding wp_bind using assms(1) by (rule wp_weaken) (auto split: outcome.split intro: assms(2-4))

lemma wp_register:
  "wp (dmM (register E token)) (\<lambda>r t. (\<forall>reg. r = Ok reg \<longrightarrow> urls_ok E reg) \<and> (\<exists>d. fst t = (fst s)\<lparr>wh_device_manager := d\<rparr>)) s"
  unfolding wp_part by (rule wpI) (auto dest: register_urls)

lemma wp_mercury:
  "wp (mercuryM (connect E url token)) (\<lambda>r t. \<exists>m. fst t = (fst s)\<lparr>wh_mercury := m\<rparr> \<and> (r = Ok () \<longrightarrow> ms_connected m)) s"
  unfolding wp_part
proof (rule wpI)
  fix r and t :: "mercury_socket \<times> world"
  assume "connect E url token (wh_mercury (fst s), snd s) = (r, t)"
  with connect_post [where E = E and url = url and token = token and st = "wh_mercury (fst s)" and w = "snd s"]
  show "\<exists>m. fst ((fst s)\<lparr>wh_mercury := fst t\<rparr>, snd t) = (fst s)\<lparr>wh_mercury := m\<rparr> \<and> (r = Ok () \<longrightarrow> ms_connected m)"
    by (auto split: prod.splits)
qed

lemma initialize_initialized: "initialize E s = (Ok (), t) \<Longrightarrow> kc_initialized (fst t)"
  by (auto simp: initialize_def bindM_Ok updateM_def modifyM_def drawM_def split: prod.splits)

lemma wp_initialize:
  assumes "wh_kms_client (fst s) = Some k"
  shows "wp (with_kms (initialize E)) (\<lambda>r t. \<exists>k. fst t = (fst s)\<lparr>wh_kms_client := Some k\<rparr> \<and> (r = Ok () \<longrightarrow> kc_initialized k)) s"
  by (auto simp: with_kms_def wp_simps assms intro!: wpI dest: initialize_initialized)

text \<open>What a connection attempt changes, and what a successful one leaves.\<close>

definition attempt :: "webex_message_handler \<Rightarrow> webex_message_handler \<Rightarrow> bool" where
  "attempt h h' \<longleftrightarrow> wh_events h' = wh_events h \<and> wh_connected h' = wh_connected h \<and> wh_connecting h' = wh_connecting h \<and>
     wh_token h' = wh_token h \<and> wh_ignore_self_messages h' = wh_ignore_self_messages h \<and>
     (wh_kms_client h \<noteq> None \<longrightarrow> wh_kms_client h' \<noteq> None)"

definition online :: "('sk, 'pk, 'rsa) env \<Rightarrow> webex_message_handler \<Rightarrow> bool" where
  "online E h \<longleftrightarrow> ms_connected (wh_mercury h) \<and> ms_rx_taken (wh_mercury h) \<and>
     (\<exists>reg. wh_registration h = Some reg \<and> urls_ok E reg) \<and> (\<exists>k. wh_kms_client h = Some k \<and> kc_initialized k) \<and>
     (wh_ignore_self_messages h \<longrightarrow> wh_bot_person_id h \<noteq> None)"

abbreviation attempt_post ::
  "('sk, 'pk, 'rsa) env \<Rightarrow> webex_message_handler \<Rightarrow> unit result \<Rightarrow> webex_message_handler \<times> world \<Rightarrow> bool" where
  "attempt_post E h r t \<equiv> attempt h (fst t) \<and> (if r = Ok () then online E (fst t) else wh_registration (fst t) = wh_registration h)"

lemma tail_post:
  assumes "wh_kms_client (fst s) = Some k" "urls_ok E reg" "wh_ignore_self_messages (fst s) \<longrightarrow> wh_bot_person_id (fst s) \<noteq> None"
    and "attempt h (fst s)" "wh_registration (fst s) = wh_registration h"
  shows "wp (bindM (mercuryM (connect E url token)) (\<lambda>_.
     bindM (updateM start_mercury_event_loop) (\<lambda>_.
     bindM (with_kms (initialize E)) (\<lambda>_.
     updateM (\<lambda>h. h\<lparr>wh_registration := Some reg\<rparr>))))) (attempt_post E h) s"
proof (rule wp_seq [OF wp_mercury])
  fix x and t :: "webex_message_handler \<times> world"
  assume "\<exists>m. fst t = (fst s)\<lparr>wh_mercury := m\<rparr> \<and> (Ok x = Ok () \<longrightarrow> ms_connected m)"
  then obtain m where t: "fst t = (fst s)\<lparr>wh_mercury := m\<rparr>" "ms_connected m" by auto
  let ?h = "start_mercury_event_loop (fst t)"
  have h: "attempt h ?h" "wh_kms_client ?h = Some k" "wh_registration ?h = wh_registration h"
    "wh_ignore_self_messages ?h \<longrightarrow> wh_bot_person_id ?h \<noteq> None" "ms_rx_taken (wh_mercury ?h)" "ms_connected (wh_mercury ?h)"
    using assms t by (simp_all add: start_mercury_event_loop_def take_event_rx_def attempt_def)
  have "wp (bindM (with_kms (initialize E)) (\<lambda>_. updateM (\<lambda>h. h\<lparr>wh_registration := Some reg\<rparr>))) (attempt_post E h) (?h, snd t)"
    by (rule wp_seq [OF wp_initialize]) (use h assms(2) in \<open>auto simp: wp_update attempt_def online_def\<close>)
  then show "wp (bindM (updateM start_mercury_event_loop) (\<lambda>_. bindM (with_kms (initialize E)) (\<lambda>_.
     updateM (\<lambda>h. h\<lparr>wh_registration := Some reg\<rparr>)))) (attempt_post E h) t"
    by (simp only: wp_bind [of "updateM start_mercury_event_loop"] wp_update outcome.case)
qed (use assms(4,5) in \<open>auto simp: attempt_def\<close>)

lemma bot_post_full:
  "wp (if wh_ignore_self_messages (fst s) then fetch_bot_person_id E else returnM ()) (\<lambda>r t.
     attempt (fst s) (fst t) \<and> wh_registration (fst t) = wh_registration (fst s) \<and>
     (r = Ok () \<longrightarrow> wh_ignore_self_messages (fst t) \<longrightarrow> wh_bot_person_id (fst t) \<noteq> None)) s"
  by (auto simp: fetch_bot_person_id_def wp_simps attempt_def split: outcome.split)

lemma internal_post: "wp (handler_connect_internal E) (attempt_post E (fst s)) s"
  unfolding handler_connect_internal_def wp_bind [of "fieldM wh_token"] wp_field outcome.case
proof (rule wp_seq [OF wp_register])
  fix reg and t :: "webex_message_handler \<times> world"
  assume "(\<forall>reg'. Ok reg = Ok reg' \<longrightarrow> urls_ok E reg') \<and> (\<exists>d. fst t = (fst s)\<lparr>wh_device_manager := d\<rparr>)"
  then have t: "urls_ok E reg" "attempt (fst s) (fst t)" "wh_registration (fst t) = wh_registration (fst s)" by (auto simp: attempt_def)
  show "wp (bindM (fieldM wh_ignore_self_messages) (\<lambda>ignore_self.
     bindM (if ignore_self then fetch_bot_person_id E else returnM ()) (\<lambda>_.
     bindM (updateM (install_kms (wh_token (fst s)) reg)) (\<lambda>_.
     bindM (mercuryM (connect E (dr_web_socket_url reg) (wh_token (fst s)))) (\<lambda>_.
     bindM (updateM start_mercury_event_loop) (\<lambda>_.
     bindM (with_kms (initialize E)) (\<lambda>_.
     updateM (\<lambda>h. h\<lparr>wh_registration := Some reg\<rparr>)))))))) (attempt_post E (fst s)) t"
    unfolding wp_bind [of "fieldM f" for f] wp_field outcome.case
  proof (rule wp_seq [OF bot_post_full])
    fix x and u :: "webex_message_handler \<times> world"
    assume u: "attempt (fst t) (fst u) \<and> wh_registration (fst u) = wh_registration (fst t) \<and>
      (Ok x = Ok () \<longrightarrow> wh_ignore_self_messages (fst u) \<longrightarrow> wh_bot_person_id (fst u) \<noteq> None)"
    show "wp (bindM (updateM (install_kms (wh_token (fst s)) reg)) (\<lambda>_.
       bindM (mercuryM (connect E (dr_web_socket_url reg) (wh_token (fst s)))) (\<lambda>_.
       bindM (updateM start_mercury_event_loop) (\<lambda>_.
       bindM (with_kms (initialize E)) (\<lambda>_.
       updateM (\<lambda>h. h\<lparr>wh_registration := Some reg\<rparr>)))))) (attempt_post E (fst s)) u"
      unfolding wp_bind [of "updateM (install_kms t r)" for t r] wp_update outcome.case
      by (rule tail_post) (use t u in \<open>auto simp: install_kms_def attempt_def\<close>)
  qed (use t in \<open>auto simp: attempt_def\<close>)
qed (auto simp: attempt_def)

definition connect_outcome ::
  "('sk, 'pk, 'rsa) env \<Rightarrow> webex_message_handler \<times> world \<Rightarrow> unit result \<Rightarrow> webex_message_handler \<times> world \<Rightarrow> bool" where
  "connect_outcome E s r t \<longleftrightarrow>
     (if wh_connecting (fst s) \<or> wh_connected (fst s) then (\<exists>m. r = Err (Internal m)) \<and> t = s
      else
        (case r of
           Ok x \<Rightarrow> online E (fst t) \<and> wh_connected (fst t) \<and> \<not> wh_connecting (fst t) \<and>
             wh_events (fst t) = wh_events (fst s) @ [HandlerConnected]
         | Err e \<Rightarrow> \<not> wh_connected (fst t) \<and> \<not> wh_connecting (fst t) \<and> wh_events (fst t) = wh_events (fst s) \<and>
             wh_registration (fst t) = wh_registration (fst s)
         | Panic p \<Rightarrow> \<not> wh_connected (fst t) \<and> wh_connecting (fst t) \<and> wh_events (fst t) = wh_events (fst s) \<and>
             wh_registration (fst t) = wh_registration (fst s)) \<and>
        (wh_kms_client (fst s) \<noteq> None \<longrightarrow> wh_kms_client (fst t) \<noteq> None))"

lemma online_update [simp]:
  "online E (h\<lparr>wh_connecting := b, wh_connected := c\<rparr>) = online E h" "online E (h\<lparr>wh_events := evs\<rparr>) = online E h"
  by (simp_all add: online_def)

lemma connect_run: "wp (handler_connect E) (connect_outcome E s) s"
proof (cases "wh_connecting (fst s) \<or> wh_connected (fst s)")
  case True
  then show ?thesis by (auto simp: handler_connect_def wp_simps connect_outcome_def)
next
  case False
  let ?t = "((fst s)\<lparr>wh_connecting := True\<rparr>, (snd s)\<lparr>w_ticks := Suc (w_ticks (snd s))\<rparr>)"
  from False show ?thesis
    by (auto simp: handler_connect_def report_metric_def wp_simps sendM_def intro!: wp_weaken [OF internal_post])
      (auto simp: connect_outcome_def attempt_def wp_simps split: outcome.split)
qed

text \<open>
  C28. \<open>connect\<close>, case by case. While connected or connecting it is refused and nothing changes.
  Otherwise, on success the handler is connected, with an open socket, a running event loop's
  receiver, a registration whose URLs passed their checks, an initialized KMS client and, when
  self messages are to be ignored, the bot's identity; \<open>Connected\<close> is announced once. On an error it
  is neither connected nor connecting, announces nothing and keeps the registration it had. A panic
  leaves it connecting, which refuses every later \<open>connect\<close>.
\<close>

theorem handler_connect_cases:
  "case handler_connect E s of (r, t) \<Rightarrow> connect_outcome E s r t"
  using connect_run [of E s] by (simp add: wp_def split_beta)

section \<open>Disconnecting\<close>

text \<open>
  \<open>disconnect\<close> always succeeds, and this is all it does: with a registration it sends the one
  request that unregisters the device, whatever the answer; it forgets the registration, the KMS
  client with every key, and the bot's identity; and the socket is told not to reconnect and
  announces \<open>client\<close>. Without a registration nothing is sent, even when the device manager holds a
  device from a connection attempt that failed later.
\<close>

theorem handler_disconnect_exact:
  "handler_disconnect E s =
    (Ok (), ((fst s)\<lparr>wh_connected := False, wh_mercury := disconnect (wh_mercury (fst s)),
       wh_device_manager := fst (unregistered E s), wh_registration := None, wh_kms_client := None,
       wh_kms_response_handler := False, wh_bot_person_id := None\<rparr>, snd (unregistered E s)))"
  by (rule handler_disconnect_run)

section \<open>The life cycle\<close>

text \<open>
  The abstract handler: idle, armed with a KMS client by an attempt that failed later, parked with
  its registration after the socket was lost, or live; and what each actor may do to it.
\<close>

datatype phase = Idle | Armed | Parked | Live

fun allowed :: "action \<Rightarrow> phase \<Rightarrow> phase set" where
  "allowed ConnectCall Idle = {Idle, Armed, Live}"
| "allowed ConnectCall p = {p, Live}"
| "allowed DisconnectCall p = {Idle}"
| "allowed ReconnectCall p = {p, Idle, Armed, Live}"
| "allowed LoopStep Live = {Live, Parked}"
| "allowed LoopStep p = {p}"
| "allowed OtherStep p = {p}"

definition phase_of :: "webex_message_handler \<Rightarrow> phase" where
  "phase_of h =
     (if wh_connected h then Live
      else if wh_registration h \<noteq> None then Parked
      else if wh_kms_client h \<noteq> None then Armed
      else Idle)"

lemma connect_phase:
  assumes "handler_connect E s = (r, t)" "handler_inv E (fst s)"
  shows "phase_of (fst t) \<in> allowed ConnectCall (phase_of (fst s))"
proof -
  have "connect_outcome E s r t" using connect_run assms(1) by (rule wpD)
  with assms(2) show ?thesis
    by (cases r) (auto simp: connect_outcome_def phase_of_def handler_inv_def split: if_splits)
qed

text \<open>What the tasks keep of the object.\<close>

lemma loop_event_keeps:
  assumes "loop_event E ev s = (r, t)" "ev \<noteq> EvConnected"
  shows "wh_registration (fst t) = wh_registration (fst s) \<and> (wh_kms_client (fst t) = None \<longleftrightarrow> wh_kms_client (fst s) = None) \<and>
    wh_connected (fst t) = (wh_connected (fst s) \<and> (\<forall>reason. ev \<noteq> EvDisconnected reason))"
proof -
  have "wp (loop_event E ev) (\<lambda>r t. wh_registration (fst t) = wh_registration (fst s) \<and>
      (wh_kms_client (fst t) = None \<longleftrightarrow> wh_kms_client (fst s) = None) \<and>
      wh_connected (fst t) = (wh_connected (fst s) \<and> (\<forall>reason. ev \<noteq> EvDisconnected reason))) s"
    using assms(2) by (cases ev) (auto simp: wp_simps sendM_def with_kms_def split: option.split)
  from wpD [OF this assms(1)] show ?thesis .
qed

lemma activity_task_keeps:
  assumes "activity_task E a s = (r, t)"
  shows "wh_registration (fst t) = wh_registration (fst s) \<and> (wh_kms_client (fst t) = None \<longleftrightarrow> wh_kms_client (fst s) = None) \<and>
    wh_connected (fst t) = wh_connected (fst s) \<and>
    (\<exists>evs. wh_events (fst t) = wh_events (fst s) @ evs \<and>
       (evs = [] \<or> wh_kms_client (fst s) \<noteq> None \<and> (\<exists>d. evs = events_for E (wh_bot_person_id (fst s)) a d)))"
  (is "?post t")
proof (cases "wh_kms_client (fst s)")
  case None
  with assms show ?thesis by (auto simp: activity_task_def effect_defs split_beta)
next
  case (Some k)
  have events: "wp (handle_activity_static E a b cb) (\<lambda>r u. \<exists>d. snd (fst u) = evs @ events_for E b a d) ((k, evs), w)" for b cb evs w
    using activity_exact [of E a b cb "((k, evs), w)"]
    by (rule wp_weaken) (auto simp: activity_run_def split: if_splits prod.splits)
  have "wp (activity_task E a) (\<lambda>r t. ?post t) s"
    unfolding activity_task_def wp_bind [of "fieldM f" for f] wp_field wp_option Some
    by (simp add: Some wp_part split_beta) (rule wp_weaken [OF events], auto)
  from wpD [OF this assms] show ?thesis .
qed

lemma disconnect_phase: "handler_disconnect E s = (r, t) \<Longrightarrow> phase_of (fst t) = Idle"
  by (auto simp: handler_disconnect_run phase_of_def)

lemma reconnect_phase:
  assumes "handler_reconnect E token s = (r, t)" "handler_inv E (fst s)"
  shows "phase_of (fst t) \<in> allowed ReconnectCall (phase_of (fst s))"
proof (cases "token = []")
  case False
  let ?d = "snd (handler_disconnect E s)"
  let ?u = "((fst ?d)\<lparr>wh_token := token\<rparr>, snd ?d)"
  have "handler_connect E ?u = (r, t)" using assms(1) unfolding reconnect_run [OF False] .
  moreover have "handler_inv E (fst ?d)" using frame_step_ok(1) [OF handler_disconnect_frame assms(2)] by (metis prod.collapse step_ok_def)
  then have "handler_inv E (fst ?u)" by (auto simp: handler_disconnect_run handler_inv_def)
  ultimately have "phase_of (fst t) \<in> allowed ConnectCall (phase_of (fst ?u))" by (rule connect_phase)
  moreover have "phase_of (fst ?u) = Idle" by (simp add: handler_disconnect_run phase_of_def)
  ultimately show ?thesis by auto
qed (use assms(1) in \<open>simp add: handler_reconnect_def throwM_def\<close>)

lemma other_phase:
  "wh_connected h' = wh_connected h \<Longrightarrow> wh_registration h' = wh_registration h \<Longrightarrow>
   (wh_kms_client h' = None \<longleftrightarrow> wh_kms_client h = None) \<Longrightarrow> phase_of h' = phase_of h"
  by (auto simp: phase_of_def)

lemma lifecycle_step:
  assumes "handler_step E l s s'" "handler_inv E (fst s)"
  shows "phase_of (fst s') \<in> allowed l (phase_of (fst s))"
  using assms
proof (induction rule: handler_step.induct)
  case (call_connect s r s')
  then show ?case by (rule connect_phase)
next
  case (call_disconnect s r s')
  then show ?case by (simp add: disconnect_phase)
next
  case (call_reconnect token s r s')
  then show ?case by (rule reconnect_phase)
next
  case (loop_receives h w r s')
  have "ms_events (wh_mercury h) ! wh_seen h \<noteq> EvConnected" using loop_receives by (intro received_event) auto
  note k = loop_event_keeps [OF loop_receives.hyps(3) this]
  have "phase_of (fst (loop_after r s')) = phase_of (fst s')" by (simp add: loop_after_def phase_of_def)
  moreover have "phase_of (fst s') \<in> allowed LoopStep (phase_of h)"
    using k loop_receives.prems by (auto simp: phase_of_def handler_inv_def)
  ultimately show ?case by simp
next
  case (task_runs h as a bs w r s')
  have "phase_of (fst s') = phase_of (h\<lparr>wh_tasks := as @ bs\<rparr>)"
    using activity_task_keeps [OF task_runs.hyps(2)] by (intro other_phase) simp_all
  then show ?case by (simp add: phase_of_def)
next
  case (loop_sweeps h w now)
  have "phase_of (sweep now h) = phase_of h" by (simp add: sweep_def phase_of_def)
  then show ?case by (cases "phase_of h") simp_all
qed (simp_all add: handler_take_event_rx_def phase_of_def)


section \<open>Invariant and traffic\<close>



section \<open>Self messages\<close>

fun message_in :: "handler_event \<Rightarrow> decrypted_message option" where
  "message_in (MessageCreated m) = Some m"
| "message_in (MessageUpdated m) = Some m"
| "message_in ev = None"

definition not_self :: "('sk, 'pk, 'rsa) env \<Rightarrow> string option \<Rightarrow> handler_event \<Rightarrow> bool" where
  "not_self E b ev \<longleftrightarrow> (\<forall>m. message_in ev = Some m \<longrightarrow> (\<exists>i. b = Some i \<and> extract_person_uuid E (dm_person_id m) \<noteq> i))"

lemma events_for_not_self: "list_all (not_self E (Some i)) (events_for E (Some i) a d)"
proof (cases "class_of a")
  case (Some c)
  have "list_all (not_self E (Some i)) (message_events E (Some i) ev d)" if "ev \<in> {MessageCreated, MessageUpdated}" for ev
    using that by (cases d) (auto simp: not_self_def is_self_def)
  moreover have "list_all (not_self E (Some i)) (card_events a d)" by (cases d) (simp_all add: not_self_def)
  ultimately show ?thesis using Some by (cases c) (simp_all add: events_for_def not_self_def)
qed (simp add: events_for_def)

lemma loop_event_quiet:
  assumes "loop_event E ev s = (r, t)" "ev \<noteq> EvConnected"
  shows "\<exists>evs. wh_events (fst t) = wh_events (fst s) @ evs \<and> list_all (\<lambda>ev. message_in ev = None) evs"
proof -
  have "wp (loop_event E ev) (\<lambda>r t. \<exists>evs. wh_events (fst t) = wh_events (fst s) @ evs \<and> list_all (\<lambda>ev. message_in ev = None) evs) s"
    using assms(2) by (cases ev) (auto simp: wp_simps sendM_def with_kms_def split: option.split)
  from wpD [OF this assms(1)] show ?thesis .
qed

lemma connect_quiet:
  assumes "handler_connect E s = (r, t)"
  shows "wh_events (fst t) \<in> {wh_events (fst s), wh_events (fst s) @ [HandlerConnected]}"
  using wpD [OF connect_run assms] by (auto simp: connect_outcome_def split: if_splits outcome.splits)

lemma connect_emits: "handler_connect E s = (r, t) \<Longrightarrow> \<exists>evs. wh_events (fst t) = wh_events (fst s) @ evs \<and> list_all (not_self E b) evs"
  using connect_quiet [of E s r t] by (auto simp: not_self_def)

lemma step_emits:
  assumes "handler_step E l s s'" "handler_inv E (fst s)" "wh_ignore_self_messages (fst s)"
  shows "\<exists>evs. wh_events (fst s') = wh_events (fst s) @ evs \<and> list_all (not_self E (wh_bot_person_id (fst s))) evs"
  using assms
proof (induction rule: handler_step.induct)
  case (call_connect s r s')
  then show ?case by (intro connect_emits)
next
  case (call_disconnect s r s')
  then show ?case by (auto simp: handler_disconnect_run)
next
  case (call_reconnect token s r s')
  let ?d = "snd (handler_disconnect E s)"
  show ?case
  proof (cases "token = []")
    case False
    have "handler_connect E ((fst ?d)\<lparr>wh_token := token\<rparr>, snd ?d) = (r, s')"
      using call_reconnect.hyps unfolding reconnect_run [OF False] .
    from connect_emits [OF this] show ?thesis by (simp add: handler_disconnect_run)
  qed (use call_reconnect.hyps in \<open>auto simp: handler_reconnect_def throwM_def\<close>)
next
  case (loop_receives h w r s')
  have "ms_events (wh_mercury h) ! wh_seen h \<noteq> EvConnected" using loop_receives by (intro received_event) auto
  from loop_event_quiet [OF loop_receives.hyps(3) this] obtain evs
    where "wh_events (fst s') = wh_events h @ evs" "list_all (\<lambda>ev. message_in ev = None) evs" by auto
  moreover from this(2) have "list_all (not_self E (wh_bot_person_id h)) evs" by (auto simp: list_all_iff not_self_def)
  ultimately show ?case by (auto simp: loop_after_def)
next
  case (task_runs h as a bs w r s')
  from activity_task_keeps [OF task_runs.hyps(2)] obtain evs where e: "wh_events (fst s') = wh_events h @ evs"
    "evs = [] \<or> wh_kms_client h \<noteq> None \<and> (\<exists>d. evs = events_for E (wh_bot_person_id h) a d)" by auto
  have "wh_bot_person_id h \<noteq> None" if "wh_kms_client h \<noteq> None" using task_runs.prems that by (auto simp: handler_inv_def)
  with e(2) have "list_all (not_self E (wh_bot_person_id h)) evs" using events_for_not_self by auto
  with e(1) show ?case by auto
qed (auto simp: handler_take_event_rx_def sweep_def)


section \<open>Construction\<close>

definition mode_ok :: "config \<Rightarrow> bool" where
  "mode_ok c \<longleftrightarrow>
     (if cf_mode c = Native then cf_fetch c = None \<and> cf_web_socket_factory c = None
      else cf_fetch c \<noteq> None \<and> cf_web_socket_factory c \<noteq> None \<and> cf_client c = None)"

definition limits_ok :: "config \<Rightarrow> bool" where
  "limits_ok c \<longleftrightarrow> 0 \<le> cf_ping_interval c \<and> cf_ping_interval c < 2 ^ 64 \<and> 0 \<le> cf_pong_timeout c \<and> cf_pong_timeout c < 2 ^ 64 \<and>
     0 \<le> cf_reconnect_backoff_max c \<and> cf_reconnect_backoff_max c < 2 ^ 64 \<and>
     0 \<le> cf_reconnect_stability_seconds c \<and> cf_reconnect_stability_seconds c < 2 ^ 64 \<and>
     0 < cf_event_channel_capacity c \<and> cf_event_channel_capacity c < 2 ^ 61"

text \<open>
  C38. The constructor, case by case: it succeeds exactly on a configuration with a token, adapters
  that fit the mode, durations from zero to 64 bits of seconds and a channel capacity from one to
  the semaphore's limit. A missing token or unfit adapters are errors; a duration or a capacity out
  of range is not checked and panics.
\<close>

theorem handler_new_cases:
  "(is_ok (handler_new c) \<longleftrightarrow> cf_token c \<noteq> [] \<and> mode_ok c \<and> limits_ok c) \<and>
   (is_panic (handler_new c) \<longleftrightarrow> cf_token c \<noteq> [] \<and> mode_ok c \<and> \<not> limits_ok c)"
proof (cases "cf_token c \<noteq> [] \<and> mode_ok c")
  case True
  then have v: "validate_mode c = Ok ()" "\<exists>http. http_adapter_of c = Ok http"
    by (auto simp: validate_mode_def mode_ok_def http_adapter_of_def split: network_mode.splits if_splits)
  with True show ?thesis
    by (auto simp: handler_new_def from_secs_f64_def channel_capacity_def limits_ok_def)
next
  case False
  then have "cf_token c = [] \<or> (\<exists>e. validate_mode c = Err e)"
    by (auto simp: validate_mode_def mode_ok_def split: network_mode.splits if_splits)
  with False show ?thesis by (auto simp: handler_new_def)
qed

section \<open>A handshake inside the event loop\<close>

text \<open>
  A handshake that the event loop itself awaits, as on a \<open>Connected\<close> event, never completes: no
  answer is handed over while the loop waits.
\<close>

lemma send_blocked:
  assumes "delivered (kc_pending_requests (fst s)) = []"
  shows "wp (send_kms_request (loop_blocked E) r w) (\<lambda>x t. \<not> is_ok x) s"
  using assms
  by (auto simp: send_kms_request_def wp_simps loop_blocked_def queue_defs split: option.split outcome.split)

lemma reinit_in_loop_fails:
  assumes "delivered (kc_pending_requests (fst s)) = []"
  shows "\<not> is_ok (fst (initialize (loop_blocked E) s))"
proof
  let ?E = "loop_blocked E" and ?J = "\<lambda>c. delivered (kc_pending_requests c) = []"
  assume "is_ok (fst (initialize ?E s))"
  then obtain t where "initialize ?E s = (Ok (), t)"
    by (cases "initialize ?E s") (auto elim: is_ok.elims)
  then obtain jwk s1 sk s2 rid s3 pt token s4 s5 a s6 where run: "fetch_kms_details ?E s = (Ok jwk, s1)"
    "drawM (sk_random ?E) s1 = ((Ok sk, s2) :: (webex_error, _) outcome \<times> _)" "uuidM ?E s2 = ((Ok rid, s3) :: (webex_error, _) outcome \<times> _)"
    "s4 = s3" "encrypt_rsa_oaep_a256gcm ?E pt jwk s4 = (Ok token, s5)" "send_kms_request ?E rid token s5 = (Ok a, s6)"
    by (auto simp: initialize_def bindM_Ok fieldM_def getM_def)
  have "framed (guarded ?J (\<lambda>_. True)) (fetch_kms_details ?E)"
    unfolding fetch_kms_details_def by (rule guarded_rules guarded_update TrueI | simp)+
  from guardedD [OF this run(1)] assms have "?J (fst s1)" by simp
  moreover have "fst s3 = fst s1" using run(2,3) by (auto simp: drawM_def split: prod.splits)
  ultimately have "?J (fst s5)" using guardedD [OF encrypt_guarded(2) run(5), of ?J] run(4) by simp
  from wpD [OF send_blocked [where s = s5, OF this] run(6)] show False by simp
qed

end
