(* ===== verification/Liveness.thy ===== *)
theory Liveness
  imports Handler_Props
begin

text \<open>
  That the crate gets there: the handshake completes when the KMS answers, a connection attempt
  completes when every server does its part, and an opened breaker closes again. With one
  environment in which all of it happens, and in which the invariants of the handler are witnessed.
\<close>

section \<open>The handshake\<close>

lemma initialize_completes:
  assumes "fetch_kms_details E (c, w) = (Ok jwk, (c1, w1))" "kc_pending_requests c1 = queue_init"
    and "\<And>pt v. \<exists>token v'. encrypt_rsa_oaep_a256gcm E pt jwk (c1, v) = (Ok token, (c1, v'))"
    and "\<And>sent wrapped. \<exists>resp. http_do E sent (kms_post E c1 wrapped) = Inr resp \<and> rs_ok resp"
    and "\<And>sent. \<exists>a as. concat (map answers (kms_during_post E sent @ kms_during_wait E sent)) = a # as \<and>
      (\<forall>sk. \<exists>data k. derive_shared E sk a = Ok (data, k))"
  shows "\<exists>k v. initialize E (c, w) = (Ok (), (k, v))"
proof -
  let ?sk = "sk_random E (w_ticks w1)" and ?id = "uuid_v4 E (Suc (w_ticks w1))"
  let ?v = "w1\<lparr>w_ticks := Suc (Suc (w_ticks w1))\<rparr>"
  obtain token v where t: "encrypt_rsa_oaep_a256gcm E (as_bytes (json_to_string E (ecdh_request_body E c1 ?id ?sk))) jwk (c1, ?v) =
      (Ok token, (c1, v))" using assms(3) by blast
  let ?sent = "w_sent v @ [kms_post E c1 token]"
  obtain resp where r: "http_do E (w_sent v) (kms_post E c1 token) = Inr resp" "rs_ok resp" using assms(4) by blast
  obtain a as where a: "concat (map answers (kms_during_post E ?sent @ kms_during_wait E ?sent)) = a # as"
    "\<And>sk. \<exists>data k. derive_shared E sk a = Ok (data, k)" using assms(5) by meson
  obtain data k where d: "derive_shared E ?sk a = Ok (data, k)" using a(2) by blast
  have "send_kms_request E ?id token (c1, v) = (Ok a, (c1, v\<lparr>w_sent := ?sent\<rparr>))"
    using send_first_answer [OF assms(2) refl r] a(1) by simp
  with assms(1) t d show ?thesis
    by (simp add: initialize_def bindM_def fieldM_def getM_def drawM_def updateM_def modifyM_def liftM_def)
qed

section \<open>Connecting\<close>

lemma connect_gets_there:
  assumes "\<not> wh_connecting h" "\<not> wh_connected h"
    and "register E (wh_token h) (wh_device_manager h, w\<lparr>w_ticks := Suc (w_ticks w)\<rparr>) = (Ok reg, (dm, w1))"
    and "wh_ignore_self_messages h \<longrightarrow> (\<exists>resp data i. http_do E (w_sent w1) (me_request (wh_token h)) = Inr resp \<and> rs_ok resp \<and>
      json_from_slice E (rs_body resp) = Inr data \<and> get_str ''id'' data = Some i)"
    and "\<And>m v. \<exists>m' v'. connect E (dr_web_socket_url reg) (wh_token h) (m, v) = (Ok (), (m', v'))"
    and "\<And>v. \<exists>k v'. initialize E (kms_client_new (wh_token h) (dr_device_url reg) (dr_user_id reg)
      (dr_encryption_service_url reg), v) = (Ok (), (k, v'))"
  shows "\<exists>h' w'. handler_connect E (h, w) = (Ok (), (h', w')) \<and> hs_status (status_of h') = Connected"
proof -
  let ?h0 = "h\<lparr>wh_connecting := True\<rparr>" and ?w0 = "w\<lparr>w_ticks := Suc (w_ticks w)\<rparr>"
  let ?h1 = "?h0\<lparr>wh_device_manager := dm\<rparr>"
  let ?k0 = "kms_client_new (wh_token h) (dr_device_url reg) (dr_user_id reg) (dr_encryption_service_url reg)"
  have "\<exists>h2 w2. (if wh_ignore_self_messages h then fetch_bot_person_id E else returnM ()) (?h1, w1) = (Ok (), (h2, w2))"
  proof (cases "wh_ignore_self_messages h")
    case True
    with assms(4) show ?thesis by (auto simp: fetch_bot_person_id_def effect_defs)
  qed (simp add: returnM_def)
  then obtain h2 w2 where b: "(if wh_ignore_self_messages h then fetch_bot_person_id E else returnM ()) (?h1, w1) = (Ok (), (h2, w2))"
    by blast
  let ?h3 = "install_kms (wh_token h) reg h2"
  obtain m3 w3 where m: "connect E (dr_web_socket_url reg) (wh_token h) (wh_mercury ?h3, w2) = (Ok (), (m3, w3))" using assms(5) by blast
  obtain k w4 where k: "initialize E (?k0, w3) = (Ok (), (k, w4))" using assms(6) by blast
  let ?h4 = "start_mercury_event_loop (?h3\<lparr>wh_mercury := m3\<rparr>)"
  have k4: "wh_kms_client ?h4 = Some ?k0" by (simp add: install_kms_def start_mercury_event_loop_def take_event_rx_def)
  have "handler_connect_internal E (?h0, ?w0) = (Ok (), (?h4\<lparr>wh_kms_client := Some k, wh_registration := Some reg\<rparr>, w4))"
    unfolding handler_connect_internal_def with_kms_def
    using assms(3) b m k k4 by (simp add: bindM_def fieldM_def getM_def updateM_def modifyM_def partM_def zoomM_def)
  then have "wp (handler_connect_internal E) (\<lambda>r t. r = Ok ()) (?h0, ?w0)" by (simp add: wp_def)
  then have "wp (handler_connect E) (\<lambda>r t. r = Ok ()) (h, w)"
    using assms(1,2) by (auto simp: handler_connect_def report_metric_def sendM_def wp_simps elim!: wp_weaken)
  then obtain h' w' where c: "handler_connect E (h, w) = (Ok (), (h', w'))"
    unfolding wp_def by (metis prod.collapse)
  from wpD [OF connect_run this] assms(1,2) have "wh_connected h'" "ms_connected (wh_mercury h')"
    by (simp_all add: connect_outcome_def online_def)
  then have "hs_status (status_of h') = Connected" by (simp add: status_of_def Let_def)
  with c show ?thesis by blast
qed


section \<open>An environment in which it happens\<close>

text \<open>
  One document serves as registration, identity and KMS details; the list of devices is not in it,
  so a device is created. Mercury is ready at once and the KMS answers the handshake.
\<close>

definition service_doc :: json where
  "service_doc = JObject [(''id'', JString ''bot-1''), (''kmsCluster'', JString ''kms://k.wbx2.com''), (''rsaPublicKey'', kms_rsa_jwk),
     (''services'', JObject [(''encryptionServiceUrl'', JString ''https://e.wbx2.com'')]), (''url'', JString ''https://d.wbx2.com/1''),
     (''userId'', JString ''u''), (''webSocketUrl'', JString ''wss://m.wbx2.com'')]"

definition doc_response :: fetch_response where
  "doc_response = \<lparr>rs_status = 200, rs_ok = True, rs_body = as_bytes (put_json service_doc)\<rparr>"

lemma doc_response_simps [simp]:
  "rs_status doc_response = 200" "rs_ok doc_response" "rs_body doc_response = as_bytes (put_json service_doc)"
  by (simp_all add: doc_response_def)

definition full_env :: "(nat, nat, nat) env" where
  "full_env = handshake_env\<lparr>http_do := \<lambda>sent req. Inr doc_response, ws_setup := \<lambda>i. ([WsText (put_json ready_message)], False)\<rparr>"

lemma full_env_fields:
  "http_do full_env = (\<lambda>sent req. Inr doc_response)" "ws_setup full_env = (\<lambda>i. ([WsText (put_json ready_message)], False))"
  "ws_open full_env = (\<lambda>i u. Inr ())" "ws_send full_env = (\<lambda>i t. Inr ())" "url_append full_env = (\<lambda>u ps. Inr u)"
  "json_from_slice full_env = json_parse" "url_decode full_env = hex_decode" "lower full_env = (\<lambda>pre c post. c)"
  "kms_during_post full_env = (\<lambda>sent. [])" "kms_during_wait full_env = (\<lambda>sent. [answer_event ecdh_answer])"
  "rsa_new full_env = (\<lambda>n e. Inr (length n + length e))" "rsa_oaep_encrypt full_env = (\<lambda>i k m. Inr m)"
  "gcm_encrypt full_env = (\<lambda>k iv aad msg. Inr (msg @ replicate 16 0))" "fill_bytes full_env = (\<lambda>i n. replicate n 7)"
  "pk_from_sec1 full_env = (\<lambda>p. if length p = 65 then Inr (length p) else Inl ''crypto error'')"
  "hkdf_sha256 full_env = (\<lambda>ikm n. Inr (replicate n 5))"
  by (simp_all add: full_env_def handshake_env_def sample_env_def)

lemma full_env_slices:
  "reg_from_slice full_env (as_bytes (put_json j)) = (case de_registration j of None \<Rightarrow> Inl ''missing field'' | Some r \<Rightarrow> Inr r)"
  "device_list_from_slice full_env (as_bytes (put_json j)) =
     (case Option.bind (json_get ''devices'' j) as_array of None \<Rightarrow> Inl ''missing field'' | Some vs \<Rightarrow> Inr vs)"
  by (simp_all add: full_env_def handshake_env_def sample_env_def json_parse_put)

lemma full_env_laws: "hkdf_length full_env"
  by (simp add: hkdf_length_def full_env_fields)

lemma full_registers:
  "\<exists>reg dm w1. register full_env token (device_manager_new, w) = (Ok reg, (dm, w1)) \<and> dr_user_id reg = ''u'' \<and>
     dr_encryption_service_url reg = ''https://e.wbx2.com'' \<and> dr_web_socket_url reg = ''wss://m.wbx2.com''"
proof -
  obtain r where r: "de_registration service_doc = Some r" "dr_user_id r = ''u''" "dr_web_socket_url r = ''wss://m.wbx2.com''"
    "dr_services r ''encryptionServiceUrl'' = Some ''https://e.wbx2.com''"
    by (simp add: de_registration_def service_doc_def fields_of_def fld_req_def fld_def de_opt_def de_map_def)
  have "validate_webex_url (\<lambda>pre c post. c) ''wss://m.wbx2.com'' ''wss'' = Inr ()"
    "validate_webex_url (\<lambda>pre c post. c) ''https://e.wbx2.com'' ''https'' = Inr ()" by code_simp+
  with r have a: "accept_registration full_env (as_bytes (put_json service_doc)) = Ok (with_encryption_url r)"
    by (simp add: accept_registration_def full_env_slices full_env_fields Let_def with_encryption_url_def)
  have "json_get ''serviceLinks'' service_doc = None" "json_get ''devices'' service_doc = None"
    by (simp_all add: service_doc_def json_get_def)
  then have w: "wdm_of_response full_env doc_response = WDM_API_BASE"
    and l: "device_list_from_slice full_env (as_bytes (put_json service_doc)) = Inl ''missing field''"
    by (simp_all add: wdm_of_response_def full_env_fields full_env_slices json_parse_put)
  have "\<exists>dm w1. register full_env token (device_manager_new, w) = (Ok (with_encryption_url r), (dm, w1))"
    using a l w by (simp add: register_def find_reusable_device_def list_devices_def discover_wdm_base_def create_or_reap_def
        create_device_def effect_defs device_manager_new_def full_env_fields set_wdm_devices_url_def)
  with r show ?thesis by (auto simp: with_encryption_url_def)
qed

lemma full_env_connects: "\<exists>m' v'. connect full_env url token (m, v) = (Ok (), (m', v'))"
proof -
  have "is_connection_ready ready_message" by code_simp
  then have "wait_ready full_env [WsText (put_json ready_message)] False = Ok ready_message"
    by (simp add: full_env_fields json_parse_put)
  then show ?thesis
    by (simp add: connect_def connect_internal_def effect_defs prepare_url_def Let_def full_env_fields del: wait_ready.simps)
qed

lemma full_derives: "\<exists>data k. derive_shared full_env sk ecdh_answer = Ok (data, k)"
proof -
  have "unwrap_kms_response full_env ecdh_answer (EcdhPrivate sk) = Ok (as_bytes (put_json ecdh_response))"
    unfolding ecdh_answer_def by (subst unwrap_jws) (simp_all add: hex_no_dot full_env_fields hex_roundtrip)
  moreover have "extract_jwk_from_response ecdh_response = Some remote_jwk"
    by (simp add: extract_jwk_from_response_def object_at_def remote_jwk_def is_object_def ecdh_response_def json_get_def)
  moreover have "parse_remote_key full_env remote_jwk = Ok 65"
    by (simp add: parse_remote_key_def full_env_fields header_str_def get_str_def json_get_def json_index_def
        decode_part_def hex_roundtrip uncompressed_point_def remote_jwk_def)
  ultimately show ?thesis by (simp add: derive_shared_def full_env_fields json_parse_put)
qed

lemma full_handshake: "\<exists>k v'. initialize full_env (kms_client_new token d u e, v) = (Ok (), (k, v'))"
proof -
  let ?c = "kms_client_new token d u e"
  let ?c1 = "?c\<lparr>kc_kms_cluster := ''kms://k.wbx2.com''\<rparr>"
  have "validate_webex_url (\<lambda>pre c post. c) ''kms://k.wbx2.com'' ''kms'' = Inr ()" by code_simp
  moreover have "json_index service_doc ''kmsCluster'' = JString ''kms://k.wbx2.com''"
    "json_index service_doc ''rsaPublicKey'' = kms_rsa_jwk" "rsa_jwk_of full_env kms_rsa_jwk = Ok kms_rsa_jwk"
    by (simp_all add: service_doc_def json_index_def json_get_def rsa_jwk_of_def kms_rsa_jwk_def)
  ultimately have "\<exists>w1. fetch_kms_details full_env (?c, v) = (Ok kms_rsa_jwk, (?c1, w1))"
    by (simp add: fetch_kms_details_def effect_defs full_env_fields json_parse_put)
  then obtain w1 where d: "fetch_kms_details full_env (?c, v) = (Ok kms_rsa_jwk, (?c1, w1))" by blast
  have "parse_rsa_public_key full_env kms_rsa_jwk = Ok 2"
    by (simp add: parse_rsa_public_key_def kms_rsa_jwk_def get_str_def json_get_def decode_part_def full_env_fields hex_roundtrip)
  then have e: "\<exists>token v'. encrypt_rsa_oaep_a256gcm full_env pt kms_rsa_jwk (?c1, v) = (Ok token, (?c1, v'))" for pt v
    by (simp add: encrypt_rsa_oaep_a256gcm_def effect_defs full_env_fields gcm_seal_def gcm_key_init_def Let_def)
  show ?thesis
    by (rule initialize_completes [OF d _ e])
      (simp_all add: kms_client_new_def full_env_fields answers_event full_derives)
qed

definition sample_config :: config where
  "sample_config = config_default\<lparr>cf_token := ''t''\<rparr>"

definition sample_handler :: webex_message_handler where
  "sample_handler = \<lparr>wh_token = ''t'', wh_http = NativeAdapter None, wh_device_manager = device_manager_new,
     wh_mercury = mercury_socket_new 15 14 32 10 60, wh_kms_client = None, wh_kms_response_handler = False,
     wh_registration = None, wh_connected = False, wh_connecting = False, wh_ignore_self_messages = True,
     wh_bot_person_id = None, wh_recent_activity_ids = [], wh_config = sample_config, wh_metrics_callback = None,
     wh_rx_taken = False, wh_events = [], wh_loop = False, wh_seen = 0, wh_tasks = []\<rparr>"

lemma sample_handler_new: "handler_new sample_config = Ok sample_handler"
  by (simp add: handler_new_def sample_config_def config_default_def sample_handler_def validate_mode_def http_adapter_of_def
      from_secs_f64_def channel_capacity_def)

lemma sample_attempt:
  obtains reg dm w1 where
    "register full_env (wh_token sample_handler) (wh_device_manager sample_handler, world_init\<lparr>w_ticks := Suc (w_ticks world_init)\<rparr>) =
      (Ok reg, (dm, w1))"
    "\<exists>resp data i. http_do full_env (w_sent w1) (me_request (wh_token sample_handler)) = Inr resp \<and> rs_ok resp \<and>
      json_from_slice full_env (rs_body resp) = Inr data \<and> get_str ''id'' data = Some i"
proof -
  obtain reg dm w1 where r: "register full_env ''t'' (device_manager_new, world_init\<lparr>w_ticks := Suc (w_ticks world_init)\<rparr>) = (Ok reg, (dm, w1))"
    using full_registers by blast
  have "get_str ''id'' service_doc = Some ''bot-1''" by (simp add: get_str_def json_get_def service_doc_def)
  then have "\<exists>resp data i. http_do full_env (w_sent w1) (me_request ''t'') = Inr resp \<and> rs_ok resp \<and>
      json_from_slice full_env (rs_body resp) = Inr data \<and> get_str ''id'' data = Some i"
    by (simp add: full_env_fields json_parse_put)
  with r show ?thesis by (intro that) (simp_all add: sample_handler_def)
qed


lemma sample_live: "\<exists>h w. handler_connect full_env (sample_handler, world_init) = (Ok (), (h, w)) \<and> hs_status (status_of h) = Connected"
proof -
  obtain reg dm w1 where r: "register full_env (wh_token sample_handler) (wh_device_manager sample_handler, world_init\<lparr>w_ticks := Suc (w_ticks world_init)\<rparr>) =
      (Ok reg, (dm, w1))" and i: "\<exists>resp data i. http_do full_env (w_sent w1) (me_request (wh_token sample_handler)) = Inr resp \<and> rs_ok resp \<and>
      json_from_slice full_env (rs_body resp) = Inr data \<and> get_str ''id'' data = Some i" by (rule sample_attempt)
  show ?thesis
    by (rule connect_gets_there [OF _ _ r]) (use i full_env_connects full_handshake in \<open>simp_all add: sample_handler_def\<close>)
qed

text \<open>The handler once connected.\<close>

definition live_state :: "webex_message_handler \<times> world" where
  "live_state = snd (handler_connect full_env (sample_handler, world_init))"

lemma sample_start: "handler_reach full_env sample_config (sample_handler, world_init)"
  by (rule handler_reach.start [OF sample_handler_new])

lemma sample_step: "handler_step full_env ConnectCall (sample_handler, world_init) live_state"
  unfolding live_state_def by (rule call_connect [OF prod.collapse [symmetric]])

lemma live_reached: "handler_reach full_env sample_config live_state"
  by (rule handler_reach.step [OF sample_start sample_step])

lemma live_connected: "wh_connected (fst live_state)" "wh_kms_client (fst live_state) \<noteq> None"
proof -
  obtain s where "handler_connect full_env (sample_handler, world_init) = (Ok (), s)" using sample_live by blast
  from wpD [OF connect_run this] this show "wh_connected (fst live_state)" "wh_kms_client (fst live_state) \<noteq> None"
    by (auto simp: connect_outcome_def online_def live_state_def sample_handler_def)
qed





section \<open>The breaker\<close>

text \<open>
  C30. An opened breaker closes again: once its cooldown is over, a key request with a valid key
  context goes through, and when the KMS answers with a readable key the request returns it, the
  breaker is closed and its failure count is zero.
\<close>

theorem breaker_recovers:
  assumes "cache_get u (kc_key_cache c) = None" "cache_len (kc_key_cache c) \<le> 100"
    and "kc_initialized c" "kc_ephemeral_key c = Some ek"
    and "kc_context_expiration c = Some expiry" "clock E (w_ticks w) \<le> expiry - secs 30"
    and "kc_cb_state c = Open" "kc_cb_last_failure c = Some t" "secs 30 \<le> clock E (Suc (w_ticks w)) - t"
    and "kc_pending_requests c = queue_init"
    and "\<And>pt (c :: kms_client) v. \<exists>token v'. encrypt_dir_a256gcm E pt ek (kc_ephemeral_key_kid c) (c, v) = (Ok token, (c, v'))"
    and "\<And>sent c wrapped. \<exists>resp. http_do E sent (kms_post E c wrapped) = Inr resp \<and> rs_ok resp"
    and "\<And>sent. \<exists>a as. concat (map answers (kms_during_post E sent @ kms_during_wait E sent)) = a # as \<and> read_content_key E ek a = Ok k"
  shows "\<exists>c' w'. get_key E u (c, w) = (Ok k, (c', w')) \<and> kc_cb_state c' = Closed \<and> kc_cb_failures c' = 0 \<and>
    cache_get u (kc_key_cache c') = Some k"
proof -
  let ?c = "c\<lparr>kc_cb_state := HalfOpen\<rparr>" and ?v = "w\<lparr>w_ticks := w_ticks w + 3\<rparr>"
  let ?id = "uuid_v4 E (w_ticks w + 2)"
  let ?pt = "as_bytes (json_to_string E (retrieve_body ?c u ?id))"
  obtain token v where e: "encrypt_dir_a256gcm E ?pt ek (kc_ephemeral_key_kid ?c) (?c, ?v) = (Ok token, (?c, v))" using assms(11) by blast
  let ?sent = "w_sent v @ [kms_post E ?c token]"
  obtain resp where r: "http_do E (w_sent v) (kms_post E ?c token) = Inr resp" "rs_ok resp" using assms(12) by blast
  obtain a as where a: "concat (map answers (kms_during_post E ?sent @ kms_during_wait E ?sent)) = a # as" "read_content_key E ek a = Ok k"
    using assms(13) by blast
  have q: "kc_pending_requests ?c = queue_init" using assms(10) by simp
  have x: "send_kms_request E ?id token (?c, v) = (Ok a, (?c, v\<lparr>w_sent := ?sent\<rparr>))"
    using send_first_answer [OF q refl r] a(1) by simp
  have "get_key_attempts E u [1..<MAX_KMS_ATTEMPTS + 1] (?c, w\<lparr>w_ticks := w_ticks w + 2\<rparr>) =
      (Ok k, (store_key u k ?c, v\<lparr>w_sent := ?sent\<rparr>))"
    using assms(3,4) e x a(2)
    by (simp add: MAX_KMS_ATTEMPTS_def upt_rec [of 1] bindM_def matchM_def fieldM_def getM_def drawM_def liftM_def updateM_def modifyM_def
        returnM_def add.commute numeral_3_eq_3)
  moreover have "get_key E u (c, w) = get_key_attempts E u [1..<MAX_KMS_ATTEMPTS + 1] (?c, w\<lparr>w_ticks := w_ticks w + 2\<rparr>)"
    using assms(1-3,5-8) le_max_iff_disj [of "secs 30" 0 "clock E (Suc (w_ticks w)) - t"] assms(9)
    by (simp add: get_key_def is_context_expired_def check_breaker_def bindM_def fieldM_def getM_def drawM_def
        updateM_def modifyM_def returnM_def MAX_KEY_CACHE_SIZE_def CB_COOLDOWN_def)
  ultimately show ?thesis by (simp add: store_key_def kc.get_ins)
qed

text \<open>A KMS that answers with a key in a JWS.\<close>

definition key_response :: json where
  "key_response = JObject [(''key'', JObject [(''k'', JString (hex_encode (replicate 32 6)))])]"

definition key_answer :: string where
  "key_answer = ''h'' @ ''.'' @ hex_encode (as_bytes (put_json key_response)) @ ''.'' @ ''s''"

definition key_env :: "(nat, nat, nat) env" where
  "key_env = kms_env [answer_event key_answer]"

lemma key_env_fields:
  "http_do key_env = (\<lambda>sent req. Inr \<lparr>rs_status = 200, rs_ok = True, rs_body = []\<rparr>)" "kms_during_post key_env = (\<lambda>sent. [])"
  "kms_during_wait key_env = (\<lambda>sent. [answer_event key_answer])" "json_from_slice key_env = json_parse" "url_decode key_env = hex_decode"
  "gcm_encrypt key_env = (\<lambda>k iv aad msg. Inr (msg @ replicate 16 0))" "fill_bytes key_env = (\<lambda>i n. replicate n 7)"
  "clock key_env = (\<lambda>i. int i)"
  by (simp_all add: key_env_def kms_env_def sample_env_def)

lemma key_answer_reads: "read_content_key key_env ek key_answer = Ok (replicate 32 6)"
proof -
  have "unwrap_kms_response key_env key_answer (Symmetric ek) = Ok (as_bytes (put_json key_response))"
    unfolding key_answer_def by (subst unwrap_jws) (simp_all add: hex_no_dot key_env_fields hex_roundtrip)
  moreover have "extract_jwk_from_response key_response = Some (JObject [(''k'', JString (hex_encode (replicate 32 6)))])"
    by (simp add: extract_jwk_from_response_def object_at_def is_object_def key_response_def json_get_def)
  ultimately show ?thesis
    by (simp add: read_content_key_def key_env_fields json_parse_put json_index_def json_get_def decode_part_def hex_roundtrip)
qed

theorem breaker_recovers_witness:
  "\<exists>c' w'. get_key key_env ''kms://k/1'' (open_client, world_init\<lparr>w_ticks := 40000000000\<rparr>) = (Ok (replicate 32 6), (c', w')) \<and>
    kc_cb_state c' = Closed \<and> kc_cb_failures c' = 0 \<and> cache_get ''kms://k/1'' (kc_key_cache c') = Some (replicate 32 6)"
proof (rule breaker_recovers)
  show "kc_ephemeral_key open_client = Some (replicate 32 1)" "kc_context_expiration open_client = Some (secs 3600)"
    "kc_cb_last_failure open_client = Some 0" by (simp_all add: open_client_def)
  show "\<exists>token v'. encrypt_dir_a256gcm key_env pt (replicate 32 1) (kc_ephemeral_key_kid c) (c, v) = (Ok token, (c, v'))"
    for pt v and c :: kms_client
    by (simp add: encrypt_dir_a256gcm_def effect_defs Let_def gcm_seal_def gcm_key_init_def key_env_fields)
qed (simp_all add: key_answer_reads answers_event key_env_fields secs_def open_client_def sample_client_def kms_client_new_def
    cache_get_def cache_len_def)

end
