(* ===== verification/Handler_Calls.thy ===== *)
theory Handler_Calls
  imports Liveness
begin

text \<open>
  Overlapping calls. The other theories run a call of the consumer in one piece; here a call is
  suspended wherever the source awaits a lock or a component, so calls overlap each other and the
  tasks, and a call may be dropped where it is suspended. A call that runs alone is shown to be the
  one-piece call; then what overlapping calls keep, and what they do not.
\<close>

section \<open>Calls in steps\<close>

text \<open>
  Where a call is suspended, with its local variables: the start time, the token it read, the
  registration it obtained. A disconnect carries the new token when it is the first part of a
  reconnect.
\<close>

datatype call =
    ConnectCheck
  | ConnectMark
  | ConnectToken instant
  | ConnectRegister instant string
  | ConnectIdentity instant string Types.device_registration
  | ConnectMe instant string Types.device_registration string
  | ConnectBot instant string Types.device_registration string
  | ConnectHandler instant string Types.device_registration
  | ConnectClient instant string Types.device_registration
  | ConnectSocket instant string Types.device_registration
  | ConnectLoop instant Types.device_registration
  | ConnectHandshake instant Types.device_registration
  | ConnectStore instant Types.device_registration
  | ConnectFailed instant webex_error
  | ConnectDone instant
  | ConnectLive instant
  | ReconnectCheck string
  | ReconnectToken string
  | DisconnectMark "string option"
  | DisconnectSocket "string option"
  | DisconnectToken "string option"
  | DisconnectUnregister "string option" string
  | DisconnectRegistration "string option"
  | DisconnectClient "string option"
  | DisconnectHandler "string option"
  | DisconnectIdentity "string option"
  | Returned "unit result"

text \<open>The request of \<open>fetch_bot_person_id\<close> and the reading of its answer.\<close>

definition me_identity :: "('sk, 'pk, 'rsa) env \<Rightarrow> string \<Rightarrow> (webex_message_handler \<times> world, string) meth" where
  "me_identity E token =
     bindM (mapErrM (\<lambda>e. Internal (''Failed to fetch bot identity for self-message filtering: '' @ e @ self_check_hint))
       (fetchM E (me_request token))) (\<lambda>resp.
     if \<not> rs_ok resp then
       throwM (Internal (''Failed to fetch bot identity for self-message filtering: HTTP '' @
         show_nat (unat (rs_status resp)) @ self_check_hint))
     else
       bindM (liftM (of_sum (\<lambda>e. Internal (''Failed to parse bot identity response: '' @ e)) (json_from_slice E (rs_body resp)))) (\<lambda>data.
       liftM (of_opt (Internal ''Bot identity response missing 'id' field'') (get_str ''id'' data))))"

text \<open>One step of \<open>connect\<close>, with the steps of \<open>connect_internal\<close> and \<open>fetch_bot_person_id\<close>.\<close>

fun connect_step :: "('sk, 'pk, 'rsa) env \<Rightarrow> call \<Rightarrow> (webex_message_handler \<times> world, call) meth" where
  "connect_step E ConnectCheck =
     bindM (fieldM id) (\<lambda>h.
     if wh_connecting h then returnM (Returned (Err (Internal ''connect() already in progress'')))
     else if wh_connected h
     then returnM (Returned (Err (Internal ''Already connected. Call disconnect() first, or use reconnect().'')))
     else returnM ConnectMark)"
| "connect_step E ConnectMark =
     bindM (updateM (\<lambda>h. h\<lparr>wh_connecting := True\<rparr>)) (\<lambda>_.
     bindM (nowM E) (\<lambda>start. returnM (ConnectToken start)))"
| "connect_step E (ConnectToken start) = bindM (fieldM wh_token) (\<lambda>token. returnM (ConnectRegister start token))"
| "connect_step E (ConnectRegister start token) =
     matchM (dmM (register E token)) (\<lambda>reg. returnM (ConnectIdentity start token reg)) (\<lambda>e. returnM (ConnectFailed start e))"
| "connect_step E (ConnectIdentity start token reg) =
     bindM (fieldM id) (\<lambda>h.
     if wh_ignore_self_messages h then returnM (ConnectMe start token reg (wh_token h))
     else returnM (ConnectHandler start token reg))"
| "connect_step E (ConnectMe start token reg me_token) =
     matchM (me_identity E me_token) (\<lambda>ident. returnM (ConnectBot start token reg ident)) (\<lambda>e. returnM (ConnectFailed start e))"
| "connect_step E (ConnectBot start token reg ident) =
     bindM (updateM (\<lambda>h. h\<lparr>wh_bot_person_id := Some (extract_person_uuid E ident)\<rparr>)) (\<lambda>_.
     returnM (ConnectHandler start token reg))"
| "connect_step E (ConnectHandler start token reg) =
     bindM (updateM (\<lambda>h. h\<lparr>wh_kms_response_handler := True\<rparr>)) (\<lambda>_. returnM (ConnectClient start token reg))"
| "connect_step E (ConnectClient start token reg) =
     bindM (updateM (\<lambda>h. h\<lparr>wh_kms_client := Some (kms_client_new token (dr_device_url reg) (dr_user_id reg)
       (dr_encryption_service_url reg))\<rparr>)) (\<lambda>_.
     returnM (ConnectSocket start token reg))"
| "connect_step E (ConnectSocket start token reg) =
     matchM (mercuryM (connect E (dr_web_socket_url reg) token)) (\<lambda>_. returnM (ConnectLoop start reg))
       (\<lambda>e. returnM (ConnectFailed start e))"
| "connect_step E (ConnectLoop start reg) =
     bindM (updateM start_mercury_event_loop) (\<lambda>_. returnM (ConnectHandshake start reg))"
| "connect_step E (ConnectHandshake start reg) =
     matchM (with_kms (initialize E)) (\<lambda>_. returnM (ConnectStore start reg)) (\<lambda>e. returnM (ConnectFailed start e))"
| "connect_step E (ConnectStore start reg) =
     bindM (updateM (\<lambda>h. h\<lparr>wh_registration := Some reg\<rparr>)) (\<lambda>_. returnM (ConnectDone start))"
| "connect_step E (ConnectFailed start e) =
     bindM (updateM (\<lambda>h. h\<lparr>wh_connecting := False\<rparr>)) (\<lambda>_.
     bindM (report_metric E ''connect'' start False) (\<lambda>_. returnM (Returned (Err e))))"
| "connect_step E (ConnectDone start) =
     bindM (updateM (\<lambda>h. h\<lparr>wh_connecting := False\<rparr>)) (\<lambda>_. returnM (ConnectLive start))"
| "connect_step E (ConnectLive start) =
     bindM (updateM (\<lambda>h. h\<lparr>wh_connected := True\<rparr>)) (\<lambda>_.
     bindM (report_metric E ''connect'' start True) (\<lambda>_.
     bindM (sendM HandlerConnected) (\<lambda>_. returnM (Returned (Ok ())))))"
| "connect_step E c = returnM c"

text \<open>
  One step of \<open>disconnect\<close> and \<open>reconnect\<close>. The lock on the registration is held while the device is
  unregistered.
\<close>

fun disconnect_step :: "('sk, 'pk, 'rsa) env \<Rightarrow> call \<Rightarrow> (webex_message_handler \<times> world, call) meth" where
  "disconnect_step E (ReconnectCheck new_token) =
     returnM (if new_token = [] then Returned (Err (Internal ''reconnect() requires a non-empty token string''))
       else DisconnectMark (Some new_token))"
| "disconnect_step E (DisconnectMark nt) =
     bindM (updateM (\<lambda>h. h\<lparr>wh_connected := False\<rparr>)) (\<lambda>_. returnM (DisconnectSocket nt))"
| "disconnect_step E (DisconnectSocket nt) =
     bindM (updateM (\<lambda>h. h\<lparr>wh_mercury := disconnect (wh_mercury h)\<rparr>)) (\<lambda>_. returnM (DisconnectToken nt))"
| "disconnect_step E (DisconnectToken nt) = bindM (fieldM wh_token) (\<lambda>token. returnM (DisconnectUnregister nt token))"
| "disconnect_step E (DisconnectUnregister nt token) =
     bindM (fieldM wh_registration) (\<lambda>reg.
     bindM (case reg of
         None \<Rightarrow> returnM ()
       | Some r \<Rightarrow> matchM (dmM (unregister E token)) (\<lambda>_. returnM ()) (\<lambda>e. returnM ())) (\<lambda>_.
     returnM (DisconnectRegistration nt)))"
| "disconnect_step E (DisconnectRegistration nt) =
     bindM (updateM (\<lambda>h. h\<lparr>wh_registration := None\<rparr>)) (\<lambda>_. returnM (DisconnectClient nt))"
| "disconnect_step E (DisconnectClient nt) =
     bindM (updateM (\<lambda>h. h\<lparr>wh_kms_client := None\<rparr>)) (\<lambda>_. returnM (DisconnectHandler nt))"
| "disconnect_step E (DisconnectHandler nt) =
     bindM (updateM (\<lambda>h. h\<lparr>wh_kms_response_handler := False\<rparr>)) (\<lambda>_. returnM (DisconnectIdentity nt))"
| "disconnect_step E (DisconnectIdentity nt) =
     bindM (updateM (\<lambda>h. h\<lparr>wh_bot_person_id := None\<rparr>)) (\<lambda>_.
     returnM (case nt of None \<Rightarrow> Returned (Ok ()) | Some new_token \<Rightarrow> ReconnectToken new_token))"
| "disconnect_step E (ReconnectToken new_token) =
     bindM (updateM (\<lambda>h. h\<lparr>wh_token := new_token\<rparr>)) (\<lambda>_. returnM ConnectCheck)"
| "disconnect_step E c = returnM c"

text \<open>How many steps a call has left at most; a step of a call that has not returned takes one.\<close>

fun rank :: "call \<Rightarrow> nat" where
  "rank ConnectCheck = 16"
| "rank ConnectMark = 15"
| "rank (ConnectToken start) = 14"
| "rank (ConnectRegister start token) = 13"
| "rank (ConnectIdentity start token reg) = 12"
| "rank (ConnectMe start token reg me_token) = 11"
| "rank (ConnectBot start token reg ident) = 10"
| "rank (ConnectHandler start token reg) = 9"
| "rank (ConnectClient start token reg) = 8"
| "rank (ConnectSocket start token reg) = 7"
| "rank (ConnectLoop start reg) = 6"
| "rank (ConnectHandshake start reg) = 5"
| "rank (ConnectStore start reg) = 4"
| "rank (ConnectDone start) = 3"
| "rank (ConnectLive start) = 2"
| "rank (ConnectFailed start e) = 1"
| "rank (ReconnectCheck t) = 26"
| "rank (DisconnectMark nt) = 25"
| "rank (DisconnectSocket nt) = 24"
| "rank (DisconnectToken nt) = 23"
| "rank (DisconnectUnregister nt t) = 22"
| "rank (DisconnectRegistration nt) = 21"
| "rank (DisconnectClient nt) = 20"
| "rank (DisconnectHandler nt) = 19"
| "rank (DisconnectIdentity nt) = 18"
| "rank (ReconnectToken t) = 17"
| "rank (Returned r) = 0"

definition call_step :: "('sk, 'pk, 'rsa) env \<Rightarrow> call \<Rightarrow> (webex_message_handler \<times> world, call) meth" where
  "call_step E c = (if rank c \<le> 16 then connect_step E c else disconnect_step E c)"

lemma call_step_rank: "wp (call_step E c) (\<lambda>r t. \<forall>c'. r = Ok c' \<longrightarrow> rank c \<noteq> 0 \<longrightarrow> rank c' < rank c) s"
  by (cases c) (auto simp: call_step_def wp_simps sendM_def report_metric_def split: outcome.split option.split intro!: wpI)

section \<open>A call that runs alone\<close>

fun returned :: "call \<Rightarrow> unit result option" where
  "returned (Returned r) = Some r"
| "returned c = None"

lemma returned_rank: "returned c = None \<longleftrightarrow> rank c \<noteq> 0"
  by (cases c) simp_all

lemma call_step_less: "(Ok c', s') = call_step E c s \<Longrightarrow> returned c = None \<Longrightarrow> rank c' < rank c"
  using wpD [OF call_step_rank [of E c s], OF sym] by (auto simp: returned_rank)

function run_call :: "('sk, 'pk, 'rsa) env \<Rightarrow> call \<Rightarrow> (webex_message_handler \<times> world, unit) meth" where
  "run_call E c s =
     (case returned c of
        Some r \<Rightarrow> (r, s)
      | None \<Rightarrow>
          (case call_step E c s of
             (Ok c', s') \<Rightarrow> run_call E c' s'
           | (Err e, s') \<Rightarrow> (Err e, s')
           | (Panic p, s') \<Rightarrow> (Panic p, s')))"
  by pat_completeness auto

termination
  by (relation "measure (\<lambda>(E, c, s). rank c)") (simp_all add: call_step_less)

declare run_call.simps [simp del]

lemma run_step: "returned c = None \<Longrightarrow> run_call E c = bindM (call_step E c) (run_call E)"
  by (simp add: fun_eq_iff run_call.simps [of E c] bindM_def)

lemma run_returned: "run_call E (Returned r) = liftM r"
  by (simp add: fun_eq_iff run_call.simps [of E "Returned r"] liftM_def)

text \<open>Programs are compared by moving every match and bind to the right.\<close>

lemma match_bind: "matchM (bindM m f) g h = matchM m (\<lambda>x. matchM (f x) g h) h"
  by (auto simp: prog_defs fun_eq_iff split: prod.splits outcome.splits)

lemma bind_match: "bindM (matchM m f g) k = matchM m (\<lambda>x. bindM (f x) k) (\<lambda>e. bindM (g e) k)"
  by (auto simp: prog_defs fun_eq_iff split: prod.splits outcome.splits)

lemma match_return: "matchM (returnM x) f g = f x"
  by (simp add: prog_defs)

lemma match_update: "matchM (updateM u) f g = bindM (updateM u) f"
  by (simp add: effect_defs fun_eq_iff split_beta)

lemma match_field: "matchM (fieldM h) f g = bindM (fieldM h) f"
  by (simp add: effect_defs fun_eq_iff split_beta)

lemma bind_throw: "bindM (throwM e) f = throwM e"
  by (simp add: prog_defs)

lemma lift_outcome: "liftM (Ok x) = returnM x" "liftM (Err e) = throwM e"
  by (simp_all add: prog_defs)

lemma update_twice: "bindM (updateM f) (\<lambda>_. bindM (updateM g) k) = bindM (updateM (\<lambda>h. g (f h))) k"
  by (simp add: effect_defs fun_eq_iff split_beta)

lemma bind_if: "bindM (if b then m else n) f = (if b then bindM m f else bindM n f)"
  "matchM (if b then m else n) f g = (if b then matchM m f g else matchM n f g)"
  by simp_all

lemmas prog_algebra = bindM_assoc bind_match match_bind match_return match_update match_field bind_throw lift_outcome bind_if

lemma fetch_bot_steps:
  "fetch_bot_person_id E =
     bindM (fieldM wh_token) (\<lambda>token.
     bindM (me_identity E token) (\<lambda>ident.
     updateM (\<lambda>h. h\<lparr>wh_bot_person_id := Some (extract_person_uuid E ident)\<rparr>)))"
  unfolding fetch_bot_person_id_def me_identity_def
  by (intro arg_cong [where f = "bindM (fieldM wh_token)"] ext) (simp add: prog_algebra cong: if_cong)

text \<open>How a connection attempt ends.\<close>

definition finish_ok :: "('sk, 'pk, 'rsa) env \<Rightarrow> instant \<Rightarrow> (webex_message_handler \<times> world, unit) meth" where
  "finish_ok E start =
     bindM (updateM (\<lambda>h. h\<lparr>wh_connecting := False, wh_connected := True\<rparr>)) (\<lambda>_.
     bindM (report_metric E ''connect'' start True) (\<lambda>_. sendM HandlerConnected))"

definition finish_err :: "('sk, 'pk, 'rsa) env \<Rightarrow> instant \<Rightarrow> webex_error \<Rightarrow> (webex_message_handler \<times> world, unit) meth" where
  "finish_err E start e =
     bindM (updateM (\<lambda>h. h\<lparr>wh_connecting := False\<rparr>)) (\<lambda>_.
     bindM (report_metric E ''connect'' start False) (\<lambda>_. throwM e))"

lemma run_failed: "run_call E (ConnectFailed start e) = finish_err E start e"
  by (simp add: run_step call_step_def run_returned prog_algebra finish_err_def)

lemma run_done: "run_call E (ConnectDone start) = finish_ok E start"
  by (simp add: run_step call_step_def run_returned prog_algebra finish_ok_def update_twice)

text \<open>The second half, from the socket on, then the first.\<close>

lemma run_socket:
  "run_call E (ConnectSocket start token reg) =
     matchM (bindM (mercuryM (connect E (dr_web_socket_url reg) token)) (\<lambda>_.
       bindM (updateM start_mercury_event_loop) (\<lambda>_.
       bindM (with_kms (initialize E)) (\<lambda>_.
       updateM (\<lambda>h. h\<lparr>wh_registration := Some reg\<rparr>))))) (\<lambda>_. finish_ok E start) (finish_err E start)"
  by (simp add: run_step call_step_def prog_algebra run_failed run_done)

lemma run_handler:
  "run_call E (ConnectHandler start token reg) =
     bindM (updateM (install_kms token reg)) (\<lambda>_. run_call E (ConnectSocket start token reg))"
  by (simp add: run_step [of "ConnectHandler start token reg"] run_step [of "ConnectClient start token reg"] call_step_def
      prog_algebra update_twice install_kms_def [abs_def])

lemma run_identity:
  "run_call E (ConnectIdentity start token reg) =
     bindM (fieldM wh_ignore_self_messages) (\<lambda>ignore_self.
     matchM (if ignore_self then fetch_bot_person_id E else returnM ())
       (\<lambda>_. run_call E (ConnectHandler start token reg)) (finish_err E start))"
proof -
  have "bindM (fieldM id) (\<lambda>h. if wh_ignore_self_messages h then f (wh_token h) else g) =
    bindM (fieldM wh_ignore_self_messages) (\<lambda>i. if i then bindM (fieldM wh_token) f else g)" for f g
    by (simp add: effect_defs fun_eq_iff)
  then show ?thesis
    by (simp add: run_step [of "ConnectIdentity start token reg"] run_step [of "ConnectMe start token reg t" for t]
        run_step [of "ConnectBot start token reg i" for i] call_step_def prog_algebra fetch_bot_steps run_failed
        if_distrib [of "\<lambda>m. bindM m f" for f] cong: if_cong)
qed

lemma run_mark:
  "run_call E ConnectMark =
     bindM (updateM (\<lambda>h. h\<lparr>wh_connecting := True\<rparr>)) (\<lambda>_.
     bindM (nowM E) (\<lambda>start.
     matchM (handler_connect_internal E) (\<lambda>_. finish_ok E start) (finish_err E start)))"
  by (simp add: run_step [of ConnectMark] run_step [of "ConnectToken t" for t] run_step [of "ConnectRegister t tok" for t tok]
      call_step_def prog_algebra run_failed run_identity run_handler run_socket handler_connect_internal_def
      cong: if_cong)

lemma run_connect: "run_call E ConnectCheck = handler_connect E"
  by (simp add: run_step [of ConnectCheck] call_step_def prog_algebra run_returned run_mark handler_connect_def
      finish_ok_def finish_err_def [abs_def] cong: if_cong)

lemma run_clear:
  "run_call E (DisconnectRegistration nt) =
     bindM (updateM (\<lambda>h. h\<lparr>wh_registration := None, wh_kms_client := None, wh_kms_response_handler := False,
       wh_bot_person_id := None\<rparr>)) (\<lambda>_.
     case nt of None \<Rightarrow> returnM () | Some new_token \<Rightarrow> run_call E (ReconnectToken new_token))"
  by (simp add: run_step [of "DisconnectRegistration nt"] run_step [of "DisconnectClient nt"] run_step [of "DisconnectHandler nt"]
      run_step [of "DisconnectIdentity nt"] call_step_def prog_algebra update_twice run_returned split: option.split)

lemma run_disconnect:
  "run_call E (DisconnectMark nt) =
     bindM (handler_disconnect E) (\<lambda>_. case nt of None \<Rightarrow> returnM () | Some new_token \<Rightarrow> run_call E (ReconnectToken new_token))"
  by (simp add: run_step [of "DisconnectMark nt"] run_step [of "DisconnectSocket nt"] run_step [of "DisconnectToken nt"]
      run_step [of "DisconnectUnregister nt t" for t] call_step_def prog_algebra run_clear handler_disconnect_def)

lemma run_reconnect: "run_call E (ReconnectCheck new_token) = handler_reconnect E new_token"
  by (simp add: run_step [of "ReconnectCheck new_token"] run_step [of "ReconnectToken t" for t] call_step_def prog_algebra run_disconnect
      run_connect run_returned handler_reconnect_def)


section \<open>Overlapping calls\<close>

text \<open>
  The handler with its calls in flight. A new call may start at any time, with a token of \<open>T\<close> for a
  reconnect; a call in flight takes its next step; a call that returned, panicked or whose future is
  dropped is gone; and the tasks of the handler go on. Two calls of \<open>connect\<close> may leave the response
  handler of one with the client of the other, so a KMS message may also be lost.
\<close>

inductive overlap_step :: "('sk, 'pk, 'rsa) env \<Rightarrow> string set \<Rightarrow>
    call list \<times> webex_message_handler \<times> world \<Rightarrow> call list \<times> webex_message_handler \<times> world \<Rightarrow> bool" for E T where
  call_starts: "c \<in> {ConnectCheck, DisconnectMark None} \<union> ReconnectCheck ` T \<Longrightarrow> overlap_step E T (cs, s) (c # cs, s)"
| call_steps: "call_step E c s = (Ok c', s') \<Longrightarrow> overlap_step E T (as @ c # bs, s) (as @ c' # bs, s')"
| call_panics: "call_step E c s = (Panic p, s') \<Longrightarrow> overlap_step E T (as @ c # bs, s) (as @ bs, s')"
| call_gone: "overlap_step E T (as @ c # bs, s) (as @ bs, s)"
| task_acts: "handler_step E l s s' \<Longrightarrow> l \<in> {LoopStep, OtherStep} \<Longrightarrow> overlap_step E T (cs, s) (cs, s')"
| message_lost: "wh_loop h \<Longrightarrow> wh_seen h < length (ms_events (wh_mercury h)) \<Longrightarrow>
    ms_events (wh_mercury h) ! wh_seen h = EvKmsResponse data \<Longrightarrow>
    overlap_step E T (cs, h, w) (cs, h\<lparr>wh_seen := wh_seen h + 1\<rparr>, w)"

inductive overlap_reach :: "('sk, 'pk, 'rsa) env \<Rightarrow> string set \<Rightarrow> config \<Rightarrow>
    call list \<times> webex_message_handler \<times> world \<Rightarrow> bool" for E T config where
  overlap_start: "handler_new config = Ok h \<Longrightarrow> cf_token config \<in> T \<Longrightarrow> overlap_reach E T config ([], h, world_init)"
| overlap_more: "overlap_reach E T config x \<Longrightarrow> overlap_step E T x y \<Longrightarrow> overlap_reach E T config y"

subsection \<open>What overlapping calls keep\<close>

definition loose_inv :: "('sk, 'pk, 'rsa) env \<Rightarrow> string set \<Rightarrow> webex_message_handler \<Rightarrow> bool" where
  "loose_inv E T h \<longleftrightarrow>
     wh_token h \<in> T \<and> base_ok E (wh_device_manager h) \<and>
     (\<forall>k. wh_kms_client h = Some k \<longrightarrow> (\<exists>token\<in>T. client_ok E token k)) \<and>
     (\<forall>reg. wh_registration h = Some reg \<longrightarrow> urls_ok E reg) \<and>
     mercury_inv (wh_mercury h)"

definition any_request_of :: "('sk, 'pk, 'rsa) env \<Rightarrow> string set \<Rightarrow> fetch_request \<Rightarrow> bool" where
  "any_request_of E T req \<longleftrightarrow> (\<exists>token\<in>T. handler_request E token req)"

fun call_ok :: "('sk, 'pk, 'rsa) env \<Rightarrow> string set \<Rightarrow> call \<Rightarrow> bool" where
  "call_ok E T (ConnectRegister start token) \<longleftrightarrow> token \<in> T"
| "call_ok E T (ConnectIdentity start token reg) \<longleftrightarrow> token \<in> T \<and> urls_ok E reg"
| "call_ok E T (ConnectMe start token reg me_token) \<longleftrightarrow> token \<in> T \<and> urls_ok E reg \<and> me_token \<in> T"
| "call_ok E T (ConnectBot start token reg ident) \<longleftrightarrow> token \<in> T \<and> urls_ok E reg"
| "call_ok E T (ConnectHandler start token reg) \<longleftrightarrow> token \<in> T \<and> urls_ok E reg"
| "call_ok E T (ConnectClient start token reg) \<longleftrightarrow> token \<in> T \<and> urls_ok E reg"
| "call_ok E T (ConnectSocket start token reg) \<longleftrightarrow> token \<in> T \<and> urls_ok E reg"
| "call_ok E T (ConnectLoop start reg) \<longleftrightarrow> urls_ok E reg"
| "call_ok E T (ConnectHandshake start reg) \<longleftrightarrow> urls_ok E reg"
| "call_ok E T (ConnectStore start reg) \<longleftrightarrow> urls_ok E reg"
| "call_ok E T (ReconnectCheck new_token) \<longleftrightarrow> new_token \<in> T"
| "call_ok E T (ReconnectToken new_token) \<longleftrightarrow> new_token \<in> T"
| "call_ok E T (DisconnectUnregister nt token) \<longleftrightarrow> token \<in> T \<and> set_option nt \<subseteq> T"
| "call_ok E T (DisconnectMark nt) \<longleftrightarrow> set_option nt \<subseteq> T"
| "call_ok E T (DisconnectSocket nt) \<longleftrightarrow> set_option nt \<subseteq> T"
| "call_ok E T (DisconnectToken nt) \<longleftrightarrow> set_option nt \<subseteq> T"
| "call_ok E T (DisconnectRegistration nt) \<longleftrightarrow> set_option nt \<subseteq> T"
| "call_ok E T (DisconnectClient nt) \<longleftrightarrow> set_option nt \<subseteq> T"
| "call_ok E T (DisconnectHandler nt) \<longleftrightarrow> set_option nt \<subseteq> T"
| "call_ok E T (DisconnectIdentity nt) \<longleftrightarrow> set_option nt \<subseteq> T"
| "call_ok E T c \<longleftrightarrow> True"

text \<open>A program that keeps each of several invariants keeps that one of them holds.\<close>

lemma guarded_any:
  fixes m :: "('x \<times> world, 'e, 'a) prog"
  assumes "\<And>i. i \<in> I \<Longrightarrow> framed (guarded (C i) (P i)) m"
  shows "framed (guarded (\<lambda>x. \<exists>i\<in>I. C i x) (\<lambda>req. \<exists>i\<in>I. P i req)) m"
proof (rule framed_from)
  fix s :: "'x \<times> world" assume "\<exists>i\<in>I. C i (fst s)"
  then obtain i where i: "i \<in> I" "C i (fst s)" by blast
  from from_framed [OF assms [OF i(1)], of s] i(2) have t: "C i (fst (snd (m s)))" "requests (P i) s (snd (m s))"
    by (simp_all add: guarded_def)
  from t(2) have "requests (\<lambda>req. \<exists>i\<in>I. P i req) s (snd (m s))" by (rule requests_mono) (use i(1) in blast)
  with t(1) i(1) show "guarded (\<lambda>x. \<exists>i\<in>I. C i x) (\<lambda>req. \<exists>i\<in>I. P i req) s (snd (m s))"
    unfolding guarded_def by blast
qed

lemma client_any:
  "(\<And>token. framed (guarded (client_ok E token) (handler_request E token)) m) \<Longrightarrow>
   framed (guarded (\<lambda>k. \<exists>token\<in>T. client_ok E token k) (any_request_of E T)) m"
  using guarded_any [of T "client_ok E" "handler_request E" m] by (simp add: any_request_of_def [abs_def])

lemma loose_updates:
  "loose_inv E T h \<Longrightarrow> mercury_inv m \<Longrightarrow> loose_inv E T (h\<lparr>wh_mercury := m\<rparr>)"
  "loose_inv E T h \<Longrightarrow> loose_inv E T (h\<lparr>wh_events := evs\<rparr>)"
  "loose_inv E T h \<Longrightarrow> loose_inv E T (h\<lparr>wh_tasks := as\<rparr>)"
  "loose_inv E T h \<Longrightarrow> loose_inv E T (h\<lparr>wh_connecting := b\<rparr>)"
  "loose_inv E T h \<Longrightarrow> loose_inv E T (h\<lparr>wh_connected := b\<rparr>)"
  "loose_inv E T h \<Longrightarrow> loose_inv E T (h\<lparr>wh_seen := n\<rparr>)"
  "loose_inv E T h \<Longrightarrow> loose_inv E T (h\<lparr>wh_loop := b\<rparr>)"
  "loose_inv E T h \<Longrightarrow> loose_inv E T (h\<lparr>wh_rx_taken := b\<rparr>)"
  "loose_inv E T h \<Longrightarrow> loose_inv E T (h\<lparr>wh_bot_person_id := i\<rparr>)"
  "loose_inv E T h \<Longrightarrow> loose_inv E T (h\<lparr>wh_kms_response_handler := b\<rparr>)"
  "loose_inv E T h \<Longrightarrow> loose_inv E T (h\<lparr>wh_recent_activity_ids := ids\<rparr>)"
  "loose_inv E T h \<Longrightarrow> loose_inv E T (start_mercury_event_loop h)"
  by (auto simp: loose_inv_def start_mercury_event_loop_def take_event_rx_def mercury_inv_def)

lemma loose_changes:
  "loose_inv E T h \<Longrightarrow> token \<in> T \<Longrightarrow> loose_inv E T (h\<lparr>wh_token := token\<rparr>)"
  "loose_inv E T h \<Longrightarrow> loose_inv E T (h\<lparr>wh_registration := None\<rparr>)"
  "loose_inv E T h \<Longrightarrow> urls_ok E reg \<Longrightarrow> loose_inv E T (h\<lparr>wh_registration := Some reg\<rparr>)"
  "loose_inv E T h \<Longrightarrow> loose_inv E T (h\<lparr>wh_kms_client := None\<rparr>)"
  "loose_inv E T h \<Longrightarrow> \<exists>token\<in>T. client_ok E token k \<Longrightarrow> loose_inv E T (h\<lparr>wh_kms_client := Some k\<rparr>)"
  "loose_inv E T h \<Longrightarrow> loose_inv E T (h\<lparr>wh_mercury := disconnect (wh_mercury h)\<rparr>)"
  using mercury_step_inv [OF step_disconnect] by (auto simp: loose_inv_def)

lemma loose_client:
  "loose_inv E T h \<Longrightarrow> wh_kms_client h = Some k \<Longrightarrow> \<exists>token\<in>T. client_ok E token k"
  by (simp add: loose_inv_def)

lemma loose_dm:
  assumes "token \<in> T" "\<And>token. framed (guarded (base_ok E) (handler_request E token)) (f token)"
  shows "framed (guarded (loose_inv E T) (any_request_of E T)) (dmM (f token))"
  by (rule guarded_part [OF guarded_weaken [OF assms(2)]]) (use assms(1) in \<open>auto simp: loose_inv_def any_request_of_def\<close>)

lemma loose_mercury: "framed (guarded (loose_inv E T) P) (mercuryM (connect E url token))"
  by (rule guarded_part [OF mercury_frame]) (auto simp: loose_inv_def)

lemma loose_kms:
  "(\<And>token. framed (guarded (client_ok E token) (handler_request E token)) m) \<Longrightarrow>
   framed (guarded (loose_inv E T) (any_request_of E T)) (with_kms m)"
  by (rule with_kms_from [OF client_any]) (auto intro: loose_changes(5) dest: loose_client)

lemma loose_me: "token \<in> T \<Longrightarrow> framed (guarded (loose_inv E T) (any_request_of E T)) (me_identity E token)"
  unfolding me_identity_def by (rule guarded_rules | auto simp: any_request_of_def intro: request_cases)+

lemma loose_send: "framed (guarded (loose_inv E T) P) (sendM ev)"
  unfolding sendM_def by (rule guarded_update) (rule loose_updates)

lemma call_step_frame:
  assumes "hkdf_length E" "call_ok E T c"
  shows "framed (guarded (loose_inv E T) (any_request_of E T)) (call_step E c)"
  using assms
  by (cases c)
    (simp_all add: call_step_def, (rule conjI impI guarded_rules guarded_update loose_updates loose_dm device_frames loose_mercury loose_kms
      initialize_frame loose_me loose_send report_frame loose_changes | simp | blast intro: client_new_ok)+)

lemma wp_True: "wp m (\<lambda>r t. True) s"
  by (simp add: wp_def)

lemma call_step_ok:
  assumes "loose_inv E T (fst s)" "call_ok E T c"
  shows "wp (call_step E c) (\<lambda>r t. \<forall>c'. r = Ok c' \<longrightarrow> call_ok E T c') s"
proof -
  have "wp (dmM (register E token)) (\<lambda>r t. \<forall>reg. r = Ok reg \<longrightarrow> urls_ok E reg) s" for token
    by (rule wp_weaken [OF wp_register]) simp
  moreover have "wh_token (fst s) \<in> T" using assms(1) by (simp add: loose_inv_def)
  ultimately show ?thesis using assms(2)
    by (cases c) (auto simp: call_step_def wp_simps wp_True report_metric_def sendM_def split: option.split outcome.split elim!: wp_weaken)
qed

text \<open>The tasks.\<close>

lemma loose_task:
  assumes "hkdf_length E"
  shows "framed (guarded (loose_inv E T) (any_request_of E T)) (activity_task E a)"
proof (rule activity_task_from)
  fix b cb
  have "framed (guarded (\<lambda>x. \<exists>token\<in>T. case x of (k, evs) \<Rightarrow> client_ok E token k) (\<lambda>req. \<exists>token\<in>T. handler_request E token req))
      (handle_activity_static E a b cb)"
    by (rule guarded_any) (rule handle_activity_frame [OF assms])
  then show "framed (guarded (\<lambda>(k, evs). \<exists>token\<in>T. client_ok E token k) (any_request_of E T)) (handle_activity_static E a b cb)"
    by (simp add: any_request_of_def [abs_def] case_prod_unfold)
qed (auto dest: loose_client intro: loose_updates loose_changes(5))

lemma loose_loop:
  "ev \<noteq> EvConnected \<Longrightarrow> framed (guarded (loose_inv E T) (any_request_of E T)) (loop_event E ev)"
  by (cases ev)
    (simp_all add: guarded.framed_bind guarded_update guarded_pure loose_updates loose_send framed_if
      guarded.framed_return loose_kms [OF queue_frame])

lemma task_step_loose:
  assumes "handler_step E l s s'" "l \<in> {LoopStep, OtherStep}" "hkdf_length E" "loose_inv E T (fst s)"
  shows "loose_inv E T (fst s') \<and> requests (any_request_of E T) s s'"
  using assms(1,2,4)
proof (induction rule: handler_step.induct)
  case (loop_receives h w r s')
  have "event_ok (ms_max_reconnect_attempts (wh_mercury h)) (ms_events (wh_mercury h) ! wh_seen h)"
    using loop_receives by (auto simp: loose_inv_def mercury_inv_def list_all_length)
  then have ev: "ms_events (wh_mercury h) ! wh_seen h \<noteq> EvConnected" by (auto simp: event_ok_def)
  from guardedD [OF loose_loop [OF ev] loop_receives.hyps(3)] loop_receives(5)
  show ?case by (auto simp: loop_after_def requests_def sent_of_def loose_updates)
next
  case (task_runs h as a bs w r s')
  from guardedD [OF loose_task [OF assms(3)] task_runs.hyps(2)] task_runs(4)
  show ?case by (auto simp: requests_def loose_updates)
next
  case (socket_task h m w)
  then show ?case by (auto simp: loose_inv_def requests_def intro: task_step_inv)
qed (auto simp: handler_take_event_rx_def sweep_def requests_def loose_updates)

definition overlap_inv :: "('sk, 'pk, 'rsa) env \<Rightarrow> string set \<Rightarrow> call list \<times> webex_message_handler \<times> world \<Rightarrow> bool" where
  "overlap_inv E T x \<longleftrightarrow> (case x of (cs, s) \<Rightarrow>
     loose_inv E T (fst s) \<and> list_all (call_ok E T) cs \<and> list_all (any_request_of E T) (sent_of s))"

lemma overlap_step_inv:
  assumes "overlap_step E T x y" "hkdf_length E" "overlap_inv E T x"
  shows "overlap_inv E T y"
  using assms(1,3)
proof (induction rule: overlap_step.induct)
  case (call_steps c s c' s' as bs)
  from guardedD [OF call_step_frame [OF assms(2), of T] call_steps(1)] wpD [OF call_step_ok [of E T] call_steps(1)] call_steps(2)
  show ?case by (auto simp: overlap_inv_def requests_def)
next
  case (call_panics c s p s' as bs)
  from guardedD [OF call_step_frame [OF assms(2), of T] call_panics(1)] call_panics(2)
  show ?case by (auto simp: overlap_inv_def requests_def)
next
  case (task_acts l s s' cs)
  from task_step_loose [OF task_acts(1,2) assms(2), of T] task_acts(3)
  show ?case by (auto simp: overlap_inv_def requests_def)
qed (auto simp: overlap_inv_def loose_updates)

lemma overlap_reach_inv:
  assumes "overlap_reach E T config x" "hkdf_length E"
  shows "overlap_inv E T x"
  using assms(1)
proof (induction rule: overlap_reach.induct)
  case (overlap_start h)
  then have "wh_token h = cf_token config" by (auto simp: handler_new_def bind_ok_eq_Ok split: if_splits)
  with overlap_start handler_new_inv [OF overlap_start(1), of E] show ?case
    by (auto simp: overlap_inv_def loose_inv_def handler_inv_def world_init_def handler_new_def bind_ok_eq_Ok split: if_splits)
next
  case (overlap_more x y)
  with overlap_step_inv [OF overlap_more.hyps(2) assms(2)] show ?case by blast
qed


section \<open>One-piece calls among the overlapping ones\<close>

lemma call_step_no_err: "wp (call_step E c) (\<lambda>r t. \<forall>e. r \<noteq> Err e) s"
  by (cases c) (auto simp: call_step_def wp_simps wp_True sendM_def report_metric_def split: outcome.split option.split)

text \<open>While the other calls rest, a call in flight runs to its end.\<close>

lemma run_path: "(overlap_step E T)\<^sup>*\<^sup>* (as @ c # bs, s) (as @ bs, snd (run_call E c s))"
proof (induction E c s rule: run_call.induct)
  case (1 E c s)
  show ?case
  proof (cases "returned c")
    case (Some r)
    then show ?thesis by (simp add: run_call.simps [of E c] call_gone r_into_rtranclp)
  next
    case None
    obtain r t where c: "call_step E c s = (r, t)" using prod.exhaust by blast
    with wpD [OF call_step_no_err c] None show ?thesis
    proof (cases r)
      case (Ok c')
      with c have "overlap_step E T (as @ c # bs, s) (as @ c' # bs, t)" by (simp add: call_steps)
      then show ?thesis using 1 [OF None] c Ok None
        by (simp add: run_call.simps [of E c] converse_rtranclp_into_rtranclp)
    next
      case (Panic p)
      with c None show ?thesis by (simp add: run_call.simps [of E c] call_panics r_into_rtranclp)
    qed simp
  qed
qed

lemma call_path:
  assumes "c \<in> {ConnectCheck, DisconnectMark None} \<union> ReconnectCheck ` T"
  shows "(overlap_step E T)\<^sup>*\<^sup>* (cs, s) (cs, snd (run_call E c s))"
proof -
  have "overlap_step E T (cs, s) (c # cs, s)" by (rule call_starts [OF assms])
  moreover have "(overlap_step E T)\<^sup>*\<^sup>* (c # cs, s) (cs, snd (run_call E c s))" using run_path [of E T "[]" c cs s] by simp
  ultimately show ?thesis by (rule converse_rtranclp_into_rtranclp)
qed

text \<open>Every step of the coarser system is a run of the overlapping one.\<close>

lemma handler_step_overlap:
  assumes "handler_step E l s s'"
  shows "(overlap_step E UNIV)\<^sup>*\<^sup>* ([], s) ([], s')"
  using assms
proof cases
  case (call_connect r)
  with call_path [of ConnectCheck UNIV E "[]" s] show ?thesis by (simp add: run_connect)
next
  case (call_disconnect r)
  with call_path [of "DisconnectMark None" UNIV E "[]" s] show ?thesis by (simp add: run_disconnect)
next
  case (call_reconnect new_token r)
  with call_path [of "ReconnectCheck new_token" UNIV E "[]" s] show ?thesis by (simp add: run_reconnect)
qed (use assms task_acts [of E l s s' UNIV "[]"] in \<open>auto intro: r_into_rtranclp\<close>)

lemma overlap_reach_path:
  assumes "overlap_reach E T config x" "(overlap_step E T)\<^sup>*\<^sup>* x y"
  shows "overlap_reach E T config y"
  using assms(2,1) by (induction rule: rtranclp_induct) (auto intro: overlap_more)

lemma live_overlap: "overlap_reach full_env {''t''} sample_config ([ConnectCheck], live_state)"
proof -
  have "overlap_reach full_env {''t''} sample_config ([], sample_handler, world_init)"
    by (rule overlap_start [OF sample_handler_new]) (simp add: sample_config_def)
  then have "overlap_reach full_env {''t''} sample_config ([], snd (run_call full_env ConnectCheck (sample_handler, world_init)))"
    by (rule overlap_reach_path) (simp add: call_path)
  then have "overlap_reach full_env {''t''} sample_config ([], live_state)"
    by (simp add: run_connect live_state_def)
  then show ?thesis by (rule overlap_more) (simp add: call_starts)
qed


section \<open>What overlapping calls do not keep\<close>

lemma disconnect_path:
  "\<exists>t. (overlap_step E T)\<^sup>*\<^sup>* (cs, s) (cs, t) \<and> wh_kms_client (fst t) = None \<and> wh_bot_person_id (fst t) = None"
  using call_path [of "DisconnectMark None" T E cs s] by (auto simp: run_disconnect handler_disconnect_run)

lemma one_call_path:
  "(overlap_step E T)\<^sup>*\<^sup>* x ([c], s) \<Longrightarrow> call_step E c s = (Ok c', s') \<Longrightarrow> (overlap_step E T)\<^sup>*\<^sup>* x ([c'], s')"
  using call_steps [of E c s c' s' T "[]" "[]"] by simp


text \<open>No call and no task but the connect that set it clears the mark of a connect in progress.\<close>

lemma loop_event_connecting: "wp (loop_event E ev) (\<lambda>r t. wh_connecting (fst t) = wh_connecting (fst s)) s"
  by (cases ev) (auto simp: with_kms_def sendM_def wp_simps wp_True split: outcome.split option.split intro!: wpI)

lemma activity_task_connecting: "wp (activity_task E a) (\<lambda>r t. wh_connecting (fst t) = wh_connecting (fst s)) s"
  by (auto simp: activity_task_def wp_simps split_beta wp_True split: option.split)

lemma connecting_refused:
  "wh_connecting (fst s) \<Longrightarrow> handler_connect E s = (Err (Internal ''connect() already in progress''), s)"
  by (cases s) (simp add: handler_connect_def effect_defs)

lemma connecting_kept:
  assumes "handler_step E l s s'" "wh_connecting (fst s)"
  shows "wh_connecting (fst s')"
  using assms
proof (induction rule: handler_step.induct)
  case (call_reconnect new_token s r s')
  then show ?case
    by (cases "new_token = []")
      (auto simp: reconnect_run connecting_refused handler_disconnect_run, simp add: handler_reconnect_def throwM_def)
next
  case (loop_receives h w r s')
  with wpD [OF loop_event_connecting loop_receives.hyps(3)] show ?case by (simp add: loop_after_def)
next
  case (task_runs h as a bs w r s')
  with wpD [OF activity_task_connecting task_runs.hyps(2)] show ?case by simp
qed (auto simp: connecting_refused handler_disconnect_run handler_take_event_rx_def sweep_def)



end
