(* ===== verification/Event_Channel.thy ===== *)
theory Event_Channel
  imports Handler_Calls "HOL-Library.Multiset"
begin

text \<open>
  The bounded event channel between the handler and its consumer, and what its back pressure does
  to the handler. \<open>send\<close> waits for room while the sending task keeps what it holds: the event loop
  stops handling Mercury events, and an activity task keeps the lock on the KMS client. \<open>try_send\<close>,
  which only \<open>connect\<close> uses, drops the event instead.
\<close>

section \<open>Bounded buffers\<close>

locale bounded_buffer =
  fixes put :: "'a \<Rightarrow> 'q \<Rightarrow> 'q option"
    and get :: "'q \<Rightarrow> ('a \<times> 'q) option"
    and content :: "'q \<Rightarrow> 'a list"
    and capacity :: "'q \<Rightarrow> nat"
  assumes put_Some: "put x q = Some q' \<Longrightarrow> content q' = content q @ [x] \<and> capacity q' = capacity q"
    and put_None: "put x q = None \<longleftrightarrow> capacity q \<le> length (content q)"
    and get_Some: "get q = Some (x, q') \<Longrightarrow> content q = x # content q' \<and> capacity q' = capacity q"
    and get_None: "get q = None \<longleftrightarrow> content q = []"
begin

definition fits :: "'q \<Rightarrow> bool" where
  "fits q \<longleftrightarrow> length (content q) \<le> capacity q"

lemma put_fits:
  assumes "put x q = Some q'"
  shows "fits q'"
proof -
  have "put x q \<noteq> None" using assms by simp
  then have "length (content q) < capacity q" by (simp add: put_None)
  with put_Some [OF assms] show ?thesis by (simp add: fits_def)
qed

lemma get_fits: "fits q \<Longrightarrow> get q = Some (x, q') \<Longrightarrow> fits q'"
  using get_Some [of q x q'] by (simp add: fits_def)

lemma put_after_get: "fits q \<Longrightarrow> get q = Some (x, q') \<Longrightarrow> put y q' \<noteq> None"
  using get_Some [of q x q'] by (simp add: fits_def put_None)

text \<open>A buffer with a capacity never blocks both its ends.\<close>

lemma put_or_get: "0 < capacity q \<Longrightarrow> put x q \<noteq> None \<or> get q \<noteq> None"
  unfolding put_None get_None by auto

end

section \<open>The channel\<close>

text \<open>
  The buffer of \<open>event_channel_capacity\<close> events, at most one event of the event loop and one of an
  activity task whose \<open>send\<close> is waiting (the lock on the KMS client admits one such task at a time),
  what the consumer has received, and whether it dropped the receiver.
\<close>

record channel =
  ch_capacity :: nat
  ch_buffer :: "handler_event list"
  ch_loop_waits :: "handler_event option"
  ch_task_waits :: "handler_event option"
  ch_received :: "handler_event list"
  ch_closed :: bool

definition channel_new :: "config \<Rightarrow> channel" where
  "channel_new config =
     \<lparr>ch_capacity = cf_event_channel_capacity config, ch_buffer = [], ch_loop_waits = None, ch_task_waits = None,
      ch_received = [], ch_closed = False\<rparr>"

definition buffer_put :: "handler_event \<Rightarrow> channel \<Rightarrow> channel option" where
  "buffer_put ev ch =
     (if length (ch_buffer ch) < ch_capacity ch then Some (ch\<lparr>ch_buffer := ch_buffer ch @ [ev]\<rparr>) else None)"

definition channel_recv :: "channel \<Rightarrow> (handler_event \<times> channel) option" where
  "channel_recv ch =
     (case ch_buffer ch of
        [] \<Rightarrow> None
      | ev # evs \<Rightarrow> Some (ev, ch\<lparr>ch_buffer := evs, ch_received := ch_received ch @ [ev]\<rparr>))"

text \<open>A freed slot goes to a waiting sender before anyone else.\<close>

definition nobody_waits :: "channel \<Rightarrow> bool" where
  "nobody_waits ch \<longleftrightarrow> ch_loop_waits ch = None \<and> ch_task_waits ch = None"

definition channel_offer :: "handler_event \<Rightarrow> channel \<Rightarrow> channel option" where
  "channel_offer ev ch = (if nobody_waits ch then buffer_put ev ch else None)"

definition channel_try_send :: "handler_event \<Rightarrow> channel \<Rightarrow> channel" where
  "channel_try_send ev ch =
     (if ch_closed ch then ch else (case channel_offer ev ch of Some ch' \<Rightarrow> ch' | None \<Rightarrow> ch))"

definition loop_send :: "handler_event \<Rightarrow> channel \<Rightarrow> channel" where
  "loop_send ev ch =
     (if ch_closed ch then ch
      else (case channel_offer ev ch of Some ch' \<Rightarrow> ch' | None \<Rightarrow> ch\<lparr>ch_loop_waits := Some ev\<rparr>))"

definition task_send :: "handler_event \<Rightarrow> channel \<Rightarrow> channel" where
  "task_send ev ch =
     (if ch_closed ch then ch
      else (case channel_offer ev ch of Some ch' \<Rightarrow> ch' | None \<Rightarrow> ch\<lparr>ch_task_waits := Some ev\<rparr>))"

text \<open>The consumer drops the receiver: what is buffered is gone and waiting sends fail.\<close>

definition channel_close :: "channel \<Rightarrow> channel" where
  "channel_close ch = ch\<lparr>ch_closed := True, ch_buffer := [], ch_loop_waits := None, ch_task_waits := None\<rparr>"

interpretation ev: bounded_buffer buffer_put channel_recv ch_buffer ch_capacity
  by unfold_locales (auto simp: buffer_put_def channel_recv_def split: if_splits list.splits)

section \<open>The handler and its channel\<close>

text \<open>The events a step handed over.\<close>

definition new_events :: "webex_message_handler \<times> world \<Rightarrow> webex_message_handler \<times> world \<Rightarrow> handler_event list" where
  "new_events s s' = drop (length (wh_events (fst s))) (wh_events (fst s'))"

text \<open>The steps of a call that take the lock on the KMS client.\<close>

fun locks_client :: "call \<Rightarrow> bool" where
  "locks_client (ConnectClient start token reg) = True"
| "locks_client (ConnectHandshake start reg) = True"
| "locks_client (DisconnectClient nt) = True"
| "locks_client c = False"

text \<open>
  A step of the consumer (it receives or drops the receiver) or of the handler. The event loop acts
  only when its last \<open>send\<close> is through, and what takes the lock on the KMS client only when no
  activity task waits with it.
\<close>

datatype side = Consumer | Inside

type_synonym channel_state = "call list \<times> (webex_message_handler \<times> world) \<times> channel"

inductive channel_step :: "('sk, 'pk, 'rsa) env \<Rightarrow> string set \<Rightarrow> side \<Rightarrow> channel_state \<Rightarrow> channel_state \<Rightarrow> bool" for E T where
  consumer_receives: "channel_recv ch = Some (ev, ch') \<Longrightarrow> channel_step E T Consumer (cs, s, ch) (cs, s, ch')"
| consumer_closes: "channel_step E T Consumer (cs, s, ch) (cs, s, channel_close ch)"
| loop_admitted: "ch_loop_waits ch = Some ev \<Longrightarrow> buffer_put ev ch = Some ch' \<Longrightarrow>
    channel_step E T Inside (cs, s, ch) (cs, s, ch'\<lparr>ch_loop_waits := None\<rparr>)"
| task_admitted: "ch_task_waits ch = Some ev \<Longrightarrow> buffer_put ev ch = Some ch' \<Longrightarrow>
    channel_step E T Inside (cs, s, ch) (cs, s, ch'\<lparr>ch_task_waits := None\<rparr>)"
| call_begins: "c \<in> {ConnectCheck, DisconnectMark None} \<union> ReconnectCheck ` T \<Longrightarrow>
    channel_step E T Inside (cs, s, ch) (c # cs, s, ch)"
| call_moves: "call_step E c s = (Ok c', s') \<Longrightarrow> locks_client c \<longrightarrow> ch_task_waits ch = None \<Longrightarrow>
    channel_step E T Inside (as @ c # bs, s, ch) (as @ c' # bs, s', fold channel_try_send (new_events s s') ch)"
| call_dies: "call_step E c s = (Panic p, s') \<Longrightarrow> locks_client c \<longrightarrow> ch_task_waits ch = None \<Longrightarrow>
    channel_step E T Inside (as @ c # bs, s, ch) (as @ bs, s', fold channel_try_send (new_events s s') ch)"
| call_ends: "channel_step E T Inside (as @ c # bs, s, ch) (as @ bs, s, ch)"
| loop_acts: "handler_step E LoopStep s s' \<Longrightarrow> ch_loop_waits ch = None \<Longrightarrow>
    channel_step E T Inside (cs, s, ch) (cs, s', fold loop_send (new_events s s') ch)"
| loop_loses: "wh_loop h \<Longrightarrow> wh_seen h < length (ms_events (wh_mercury h)) \<Longrightarrow>
    ms_events (wh_mercury h) ! wh_seen h = EvKmsResponse data \<Longrightarrow> ch_loop_waits ch = None \<Longrightarrow>
    channel_step E T Inside (cs, (h, w), ch) (cs, (h\<lparr>wh_seen := wh_seen h + 1\<rparr>, w), ch)"
| activity_runs: "wh_tasks h = as @ a # bs \<Longrightarrow> ch_task_waits ch = None \<Longrightarrow>
    activity_task E a (h\<lparr>wh_tasks := as @ bs\<rparr>, w) = (r, s') \<Longrightarrow>
    channel_step E T Inside (cs, (h, w), ch) (cs, s', fold task_send (new_events (h, w) s') ch)"
| socket_acts: "task_step E (wh_mercury h) m \<Longrightarrow>
    channel_step E T Inside (cs, (h, w), ch) (cs, (h\<lparr>wh_mercury := m\<rparr>, w), ch)"
| receiver_taken: "channel_step E T Inside (cs, (h, w), ch) (cs, (snd (handler_take_event_rx h), w), ch)"

inductive channel_reach :: "('sk, 'pk, 'rsa) env \<Rightarrow> string set \<Rightarrow> config \<Rightarrow> channel_state \<Rightarrow> bool" for E T config where
  channel_start: "handler_new config = Ok h \<Longrightarrow> cf_token config \<in> T \<Longrightarrow>
    channel_reach E T config ([], (h, world_init), channel_new config)"
| channel_more: "channel_reach E T config x \<Longrightarrow> channel_step E T l x y \<Longrightarrow> channel_reach E T config y"

text \<open>Without its channel, a step of this system is one of the overlapping calls or nothing.\<close>

lemma channel_step_overlap:
  assumes "channel_step E T l (cs, s, ch) (cs', s', ch')"
  shows "(cs', s') = (cs, s) \<or> overlap_step E T (cs, s) (cs', s')"
  using assms
  by cases (auto intro: overlap_step.intros handler_step.intros message_lost [simplified])

section \<open>What each actor hands over\<close>

fun activity_event :: "handler_event \<Rightarrow> bool" where
  "activity_event HandlerConnected = False"
| "activity_event (HandlerDisconnected reason) = False"
| "activity_event (HandlerReconnecting n) = False"
| "activity_event (HandlerError msg) = False"
| "activity_event ev = True"

fun link_event :: "handler_event \<Rightarrow> bool" where
  "link_event (HandlerDisconnected reason) = True"
| "link_event (HandlerReconnecting n) = True"
| "link_event ev = False"

definition hands_over :: "(handler_event \<Rightarrow> bool) \<Rightarrow> webex_message_handler \<times> world \<Rightarrow> webex_message_handler \<times> world \<Rightarrow> bool" where
  "hands_over P s s' \<longleftrightarrow> (\<exists>evs. wh_events (fst s') = wh_events (fst s) @ evs \<and> length evs \<le> 1 \<and> list_all P evs)"

lemma hands_over_nothing: "wh_events (fst s') = wh_events (fst s) \<Longrightarrow> hands_over P s s'"
  by (simp add: hands_over_def)

lemma hands_overE:
  assumes "hands_over P s s'"
  obtains (none) "new_events s s' = []" "wh_events (fst s') = wh_events (fst s)"
  | (one) ev where "new_events s s' = [ev]" "wh_events (fst s') = wh_events (fst s) @ [ev]" "P ev"
proof -
  from assms obtain evs where e: "wh_events (fst s') = wh_events (fst s) @ evs" "length evs \<le> 1" "list_all P evs"
    by (auto simp: hands_over_def)
  from e(2) consider "evs = []" | ev where "evs = [ev]" by (cases evs) auto
  then show ?thesis by cases (use that e in \<open>auto simp: new_events_def\<close>)
qed

lemma call_hands_over: "wp (call_step E c) (\<lambda>r t. hands_over (\<lambda>ev. ev = HandlerConnected) s t) s"
  by (cases c) (auto simp: call_step_def hands_over_def with_kms_def me_identity_def sendM_def report_metric_def wp_simps wp_True
      start_mercury_event_loop_def split_beta split: outcome.split option.split)

lemma loop_hands_over: "wp (loop_event E ev) (\<lambda>r t. hands_over (\<lambda>ev. \<not> activity_event ev) s t) s"
  by (cases ev) (auto simp: hands_over_def with_kms_def sendM_def wp_simps wp_True split: outcome.split option.split)

lemma loop_step_hands_over:
  assumes "handler_step E LoopStep s s'"
  shows "hands_over (\<lambda>ev. \<not> activity_event ev) s s'"
  using assms
proof cases
  case (loop_receives h w r t)
  from wpD [OF loop_hands_over loop_receives(5)] show ?thesis
    by (simp add: loop_receives(1,2) hands_over_def loop_after_def)
next
  case (loop_sweeps h now w)
  then show ?thesis by (simp add: hands_over_nothing sweep_def)
qed

lemma events_for_one: "length (events_for E b a d) \<le> 1 \<and> list_all (\<lambda>ev. \<not> link_event ev) (events_for E b a d)"
proof (cases "class_of a")
  case (Some c)
  then show ?thesis by (cases c; cases d) (simp_all add: events_for_def)
qed (simp add: events_for_def)

lemma task_hands_over:
  assumes "activity_task E a (h\<lparr>wh_tasks := ts\<rparr>, w) = (r, s')"
  shows "hands_over (\<lambda>ev. \<not> link_event ev) (h, w) s'"
  using activity_task_keeps [OF assms] events_for_one [of E "wh_bot_person_id h" a] by (auto simp: hands_over_def)

section \<open>Delivery\<close>

definition waiting :: "channel \<Rightarrow> handler_event list" where
  "waiting ch = (case ch_loop_waits ch of None \<Rightarrow> [] | Some ev \<Rightarrow> [ev]) @ (case ch_task_waits ch of None \<Rightarrow> [] | Some ev \<Rightarrow> [ev])"

definition pipeline :: "channel \<Rightarrow> handler_event list" where
  "pipeline ch = ch_received ch @ ch_buffer ch @ waiting ch"

definition in_order :: "(handler_event \<Rightarrow> bool) \<Rightarrow> handler_event list \<Rightarrow> channel \<Rightarrow> bool" where
  "in_order P evs ch \<longleftrightarrow> filter P (pipeline ch) = filter P evs"

text \<open>Nothing but \<open>Connected\<close> is missing; the order in which the two senders are let in is open.\<close>

definition same_events :: "handler_event list \<Rightarrow> channel \<Rightarrow> bool" where
  "same_events evs ch \<longleftrightarrow> mset (filter (\<lambda>ev. ev \<noteq> HandlerConnected) (pipeline ch)) = mset (filter (\<lambda>ev. ev \<noteq> HandlerConnected) evs)"

definition channel_inv :: "channel_state \<Rightarrow> bool" where
  "channel_inv x \<longleftrightarrow> (case x of (cs, s, ch) \<Rightarrow>
     0 < ch_capacity ch \<and> length (ch_buffer ch) \<le> ch_capacity ch \<and>
     (\<forall>ev. ch_loop_waits ch = Some ev \<longrightarrow> \<not> activity_event ev) \<and> (\<forall>ev. ch_task_waits ch = Some ev \<longrightarrow> \<not> link_event ev) \<and>
     set (pipeline ch) \<subseteq> set (wh_events (fst s)) \<and>
     (if ch_closed ch then nobody_waits ch
      else in_order activity_event (wh_events (fst s)) ch \<and> in_order link_event (wh_events (fst s)) ch \<and>
        same_events (wh_events (fst s)) ch))"

lemma activity_not_link: "activity_event ev \<Longrightarrow> \<not> link_event ev"
  by (cases ev) simp_all

lemma offer_Some:
  assumes "channel_offer ev ch = Some ch'"
  shows "nobody_waits ch" "length (ch_buffer ch) < ch_capacity ch" "ch' = ch\<lparr>ch_buffer := ch_buffer ch @ [ev]\<rparr>"
  using assms by (auto simp: channel_offer_def buffer_put_def split: if_splits)

lemma try_send_inv:
  assumes "channel_inv (cs, s, ch)" "wh_events (fst s') = wh_events (fst s) @ [HandlerConnected]"
  shows "channel_inv (cs', s', channel_try_send HandlerConnected ch)"
proof (cases "channel_offer HandlerConnected ch")
  case None
  with assms show ?thesis by (auto simp: channel_inv_def channel_try_send_def in_order_def same_events_def)
next
  case (Some ch')
  from offer_Some [OF Some] Some assms show ?thesis
    by (auto simp: channel_inv_def channel_try_send_def in_order_def same_events_def pipeline_def waiting_def nobody_waits_def)
qed

lemma loop_send_inv:
  assumes "channel_inv (cs, s, ch)" "wh_events (fst s') = wh_events (fst s) @ [ev]" "\<not> activity_event ev" "ch_loop_waits ch = None"
  shows "channel_inv (cs', s', loop_send ev ch)"
proof (cases "channel_offer ev ch")
  case None
  with assms show ?thesis
    by (auto simp: channel_inv_def loop_send_def in_order_def same_events_def pipeline_def waiting_def nobody_waits_def split: option.splits)
next
  case (Some ch')
  from offer_Some [OF Some] Some assms show ?thesis
    by (auto simp: channel_inv_def loop_send_def in_order_def same_events_def pipeline_def waiting_def nobody_waits_def)
qed

lemma task_send_inv:
  assumes "channel_inv (cs, s, ch)" "wh_events (fst s') = wh_events (fst s) @ [ev]" "\<not> link_event ev" "ch_task_waits ch = None"
  shows "channel_inv (cs', s', task_send ev ch)"
proof (cases "channel_offer ev ch")
  case None
  with assms show ?thesis
    by (auto simp: channel_inv_def task_send_def in_order_def same_events_def pipeline_def waiting_def nobody_waits_def split: option.splits)
next
  case (Some ch')
  from offer_Some [OF Some] Some assms show ?thesis
    by (auto simp: channel_inv_def task_send_def in_order_def same_events_def pipeline_def waiting_def nobody_waits_def)
qed

lemma quiet_inv: "channel_inv (cs, s, ch) \<Longrightarrow> wh_events (fst s') = wh_events (fst s) \<Longrightarrow> channel_inv (cs', s', ch)"
  by (simp add: channel_inv_def)

lemma recv_inv: "channel_inv (cs, s, ch) \<Longrightarrow> channel_recv ch = Some (ev, ch') \<Longrightarrow> channel_inv (cs, s, ch')"
  by (auto simp: channel_inv_def channel_recv_def in_order_def same_events_def pipeline_def waiting_def nobody_waits_def split: list.splits)

lemma buffer_put_Some: "buffer_put ev ch = Some ch' \<Longrightarrow>
  ch' = ch\<lparr>ch_buffer := ch_buffer ch @ [ev]\<rparr> \<and> length (ch_buffer ch) < ch_capacity ch"
  by (auto simp: buffer_put_def split: if_splits)

lemma close_inv: "channel_inv (cs, s, ch) \<Longrightarrow> channel_inv (cs, s, channel_close ch)"
  by (auto simp: channel_inv_def channel_close_def nobody_waits_def pipeline_def waiting_def)

lemma loop_admit_inv:
  assumes "channel_inv (cs, s, ch)" "buffer_put ev ch = Some ch'" "ch_loop_waits ch = Some ev"
  shows "channel_inv (cs, s, ch'\<lparr>ch_loop_waits := None\<rparr>)"
proof -
  have "pipeline (ch'\<lparr>ch_loop_waits := None\<rparr>) = pipeline ch"
    using buffer_put_Some [OF assms(2)] assms(3) by (simp add: pipeline_def waiting_def)
  with buffer_put_Some [OF assms(2)] assms(1,3) show ?thesis
    by (auto simp: channel_inv_def in_order_def same_events_def nobody_waits_def)
qed

lemma task_admit_inv:
  assumes "channel_inv (cs, s, ch)" "buffer_put ev ch = Some ch'" "ch_task_waits ch = Some ev"
  shows "channel_inv (cs, s, ch'\<lparr>ch_task_waits := None\<rparr>)"
proof -
  let ?ch = "ch'\<lparr>ch_task_waits := None\<rparr>"
  have w: "\<not> link_event ev" "\<And>e. ch_loop_waits ch = Some e \<Longrightarrow> \<not> activity_event e" using assms by (simp_all add: channel_inv_def)
  have "set (pipeline ?ch) = set (pipeline ch)"
    using buffer_put_Some [OF assms(2)] assms(3) by (auto simp: pipeline_def waiting_def)
  moreover have "mset (pipeline ?ch) = mset (pipeline ch)"
    using buffer_put_Some [OF assms(2)] assms(3) by (simp add: pipeline_def waiting_def)
  moreover have "filter activity_event (pipeline ?ch) = filter activity_event (pipeline ch)"
    using buffer_put_Some [OF assms(2)] assms(3) w(2) by (simp add: pipeline_def waiting_def split: option.split)
  moreover have "filter link_event (pipeline ?ch) = filter link_event (pipeline ch)"
    using buffer_put_Some [OF assms(2)] assms(3) w(1) by (simp add: pipeline_def waiting_def split: option.split)
  ultimately show ?thesis using buffer_put_Some [OF assms(2)] assms(1,3)
    by (auto simp: channel_inv_def in_order_def same_events_def nobody_waits_def)
qed

lemma channel_step_inv:
  assumes "channel_step E T l x y" "channel_inv x"
  shows "channel_inv y"
  using assms
proof (induction rule: channel_step.induct)
  case (call_moves c s c' s' ch as bs)
  from wpD [OF call_hands_over call_moves(1)] show ?case
    by (rule hands_overE) (use call_moves in \<open>auto intro: quiet_inv try_send_inv\<close>)
next
  case (call_dies c s p s' ch as bs)
  from wpD [OF call_hands_over call_dies(1)] show ?case
    by (rule hands_overE) (use call_dies in \<open>auto intro: quiet_inv try_send_inv\<close>)
next
  case (loop_acts s s' ch cs)
  from loop_step_hands_over [OF loop_acts(1)] show ?case
    by (rule hands_overE) (use loop_acts in \<open>auto intro: quiet_inv loop_send_inv\<close>)
next
  case (activity_runs h as a bs ch w r s' cs)
  from task_hands_over [OF activity_runs(3)] show ?case
    by (rule hands_overE) (use activity_runs in \<open>auto intro: quiet_inv task_send_inv\<close>)
qed (auto intro: recv_inv close_inv loop_admit_inv task_admit_inv quiet_inv simp: handler_take_event_rx_def)

lemma channel_reach_inv:
  assumes "channel_reach E T config x"
  shows "channel_inv x"
  using assms
proof (induction rule: channel_reach.induct)
  case (channel_start h)
  then show ?case
    by (auto simp: channel_inv_def channel_new_def in_order_def same_events_def pipeline_def waiting_def handler_new_def bind_ok_eq_Ok
        channel_capacity_def split: if_splits)
next
  case (channel_more x l y)
  then show ?case by (blast intro: channel_step_inv)
qed

text \<open>
  C6. Delivery: in every interleaving of calls, tasks, sends that wait and a consumer that receives
  when it likes, and as long as the consumer keeps its receiver, the activity events (messages,
  deletions, memberships, card actions, rooms) received, buffered and waiting are exactly those the
  handler produced, each once and in the order it produced them, and so are the disconnections and
  reconnections; errors are neither lost nor repeated either, though the two senders may be let in in
  either order. At most \<open>event_channel_capacity\<close> events are buffered, and nothing is received that was
  not produced. Only \<open>Connected\<close>, which is sent without waiting, can be missing.
\<close>

theorem delivery_exact:
  assumes "channel_reach E T config (cs, s, ch)" "\<not> ch_closed ch"
  shows "filter activity_event (ch_received ch @ ch_buffer ch @ waiting ch) = filter activity_event (wh_events (fst s)) \<and>
    filter link_event (ch_received ch @ ch_buffer ch @ waiting ch) = filter link_event (wh_events (fst s)) \<and>
    mset (filter (\<lambda>ev. ev \<noteq> HandlerConnected) (ch_received ch @ ch_buffer ch @ waiting ch)) =
      mset (filter (\<lambda>ev. ev \<noteq> HandlerConnected) (wh_events (fst s))) \<and>
    length (ch_buffer ch) \<le> ch_capacity ch \<and> set (ch_received ch) \<subseteq> set (wh_events (fst s))"
  using channel_reach_inv [OF assms(1)] assms(2)
  by (auto simp: channel_inv_def in_order_def same_events_def pipeline_def)

text \<open>What the consumer and the waiting senders do on their own.\<close>

inductive deliver_step :: "channel \<Rightarrow> channel \<Rightarrow> bool" where
  deliver_recv: "channel_recv ch = Some (ev, ch') \<Longrightarrow> deliver_step ch ch'"
| deliver_loop: "ch_loop_waits ch = Some ev \<Longrightarrow> buffer_put ev ch = Some ch' \<Longrightarrow> deliver_step ch (ch'\<lparr>ch_loop_waits := None\<rparr>)"
| deliver_task: "ch_task_waits ch = Some ev \<Longrightarrow> buffer_put ev ch = Some ch' \<Longrightarrow> deliver_step ch (ch'\<lparr>ch_task_waits := None\<rparr>)"

lemma deliver_channel: "deliver_step ch ch' \<Longrightarrow> \<exists>l. channel_step E T l (cs, s, ch) (cs, s, ch')"
  by (induction rule: deliver_step.induct) (blast intro: channel_step.intros)+

lemma deliver_closed: "deliver_step ch ch' \<Longrightarrow> ch_closed ch' = ch_closed ch"
  by (induction rule: deliver_step.induct) (auto simp: channel_recv_def buffer_put_def split: list.splits if_splits)

definition backlog :: "channel \<Rightarrow> nat" where
  "backlog ch = length (ch_buffer ch) + 2 * length (waiting ch)"

lemma deliver_backlog: "deliver_step ch ch' \<Longrightarrow> backlog ch' < backlog ch"
  by (induction rule: deliver_step.induct)
    (auto simp: backlog_def waiting_def channel_recv_def buffer_put_def split: list.splits if_splits option.splits)

lemma deliver_stuck:
  assumes "0 < ch_capacity ch" "\<nexists>ch'. deliver_step ch ch'"
  shows "ch_buffer ch = [] \<and> waiting ch = []"
proof -
  have b: "channel_recv ch = None" using assms(2) deliver_recv by (cases "channel_recv ch") auto
  with ev.put_or_get [OF assms(1)] have "buffer_put e ch \<noteq> None" for e by blast
  then have "ch_loop_waits ch = None" "ch_task_waits ch = None"
    using assms(2) deliver_loop deliver_task by (metis not_None_eq)+
  with b show ?thesis by (simp add: waiting_def ev.get_None)
qed

lemma deliver_run:
  assumes "(deliver_step ^^ n) ch ch'" "channel_reach E T config (cs, s, ch)"
  shows "channel_reach E T config (cs, s, ch') \<and> ch_closed ch' = ch_closed ch \<and> n + backlog ch' \<le> backlog ch"
  using assms
proof (induction n arbitrary: ch')
  case (Suc n)
  then obtain c where c: "(deliver_step ^^ n) ch c" "deliver_step c ch'" by auto
  from Suc.IH [OF c(1) Suc.prems(2)] deliver_channel [OF c(2), of E T cs s] deliver_closed [OF c(2)] deliver_backlog [OF c(2)]
  show ?case by (auto intro: channel_more)
qed simp

text \<open>
  C14. A consumer that keeps receiving gets everything: from every reachable state, receiving and
  letting waiting senders in goes on for at most the buffered events and twice the waiting ones, and
  when nothing more can be received the consumer has every activity event and every disconnection
  and reconnection the handler produced, in order, and every error as often as it was produced.
\<close>

theorem delivery_completes:
  assumes "channel_reach E T config (cs, s, ch)" "\<not> ch_closed ch" "(deliver_step ^^ n) ch ch'"
  shows "n \<le> length (ch_buffer ch) + 2 * length (waiting ch) \<and>
    ((\<nexists>c. deliver_step ch' c) \<longrightarrow>
       filter activity_event (ch_received ch') = filter activity_event (wh_events (fst s)) \<and>
       filter link_event (ch_received ch') = filter link_event (wh_events (fst s)) \<and>
       mset (filter (\<lambda>ev. ev \<noteq> HandlerConnected) (ch_received ch')) = mset (filter (\<lambda>ev. ev \<noteq> HandlerConnected) (wh_events (fst s))))"
proof -
  from deliver_run [OF assms(3,1)] assms(2) have r: "channel_inv (cs, s, ch')" "\<not> ch_closed ch'" "n \<le> backlog ch"
    by (auto intro: channel_reach_inv)
  moreover have "ch_buffer ch' = [] \<and> waiting ch' = []" if "\<nexists>c. deliver_step ch' c"
    using r(1) that by (intro deliver_stuck) (simp_all add: channel_inv_def)
  ultimately show ?thesis by (auto simp: channel_inv_def in_order_def same_events_def pipeline_def backlog_def)
qed

section \<open>A consumer that does not receive\<close>

text \<open>Where a call can be as long as the lock on the KMS client is not given up.\<close>

fun before_client :: "call \<Rightarrow> bool" where
  "before_client (ConnectSocket start token reg) = False"
| "before_client (ConnectLoop start reg) = False"
| "before_client (ConnectHandshake start reg) = False"
| "before_client (ConnectStore start reg) = False"
| "before_client (ConnectDone start) = False"
| "before_client (ConnectLive start) = False"
| "before_client (ReconnectToken new_token) = False"
| "before_client (DisconnectHandler nt) = False"
| "before_client (DisconnectIdentity nt) = False"
| "before_client (Returned r) = (\<not> is_ok r)"
| "before_client c = True"

abbreviation has_client :: "webex_message_handler \<times> world \<Rightarrow> bool" where
  "has_client s \<equiv> wh_kms_client (fst s) \<noteq> None"

lemma call_before_client:
  assumes "before_client c" "\<not> locks_client c"
  shows "wp (call_step E c) (\<lambda>r t. (\<forall>c'. r = Ok c' \<longrightarrow> before_client c') \<and> has_client t = has_client s) s"
  using assms
  by (cases c) (auto simp: call_step_def me_identity_def sendM_def report_metric_def wp_simps wp_True
      split: outcome.split option.split)

lemma loop_has_client: "handler_step E LoopStep s s' \<Longrightarrow> has_client s' = has_client s"
proof (induction LoopStep s s' rule: handler_step.induct)
  case (loop_receives h w r s')
  have "wp (loop_event E (ms_events (wh_mercury h) ! wh_seen h)) (\<lambda>r t. has_client t = (wh_kms_client h \<noteq> None)) (h\<lparr>wh_seen := wh_seen h + 1\<rparr>, w)"
    by (cases "ms_events (wh_mercury h) ! wh_seen h")
      (auto simp: with_kms_def sendM_def wp_simps wp_True split: outcome.split option.split)
  from wpD [OF this loop_receives(3)] show ?case by (simp add: loop_after_def)
qed (simp add: sweep_def)

definition stalled :: "handler_event \<Rightarrow> handler_event list \<Rightarrow> bool \<Rightarrow> channel_state \<Rightarrow> bool" where
  "stalled ev got client x \<longleftrightarrow> (case x of (cs, s, ch) \<Rightarrow>
     ch_task_waits ch = Some ev \<and> length (ch_buffer ch) = ch_capacity ch \<and> \<not> ch_closed ch \<and> ch_received ch = got \<and>
     list_all before_client cs \<and> has_client s = client)"

lemma full_sends:
  assumes "ch_task_waits ch = Some ev" "\<not> ch_closed ch"
  shows "fold channel_try_send evs ch = ch"
    and "fold loop_send evs ch = (if evs = [] then ch else ch\<lparr>ch_loop_waits := Some (last evs)\<rparr>)"
  using assms
  by (induction evs arbitrary: ch) (auto simp: channel_try_send_def loop_send_def channel_offer_def nobody_waits_def)

lemma stalled_step:
  assumes "channel_step E T Inside x y" "stalled ev got client x"
  shows "stalled ev got client y"
  using assms
proof (induction Inside x y rule: channel_step.induct)
  case (call_moves c s c' s' ch as bs)
  then have "\<not> locks_client c" "before_client c" by (auto simp: stalled_def)
  from wpD [OF call_before_client [OF this(2,1)] call_moves(1)] call_moves show ?case
    by (auto simp: stalled_def full_sends)
next
  case (call_dies c s p s' ch as bs)
  then have "\<not> locks_client c" "before_client c" by (auto simp: stalled_def)
  from wpD [OF call_before_client [OF this(2,1)] call_dies(1)] call_dies show ?case
    by (auto simp: stalled_def full_sends)
next
  case (loop_acts s s' ch cs)
  with loop_has_client [OF loop_acts(1)] show ?case by (auto simp: stalled_def full_sends)
qed (auto simp: stalled_def buffer_put_def handler_take_event_rx_def)


section \<open>A connected handler with its channel\<close>

lemma try_send_keeps:
  "ch_task_waits (fold channel_try_send evs ch) = ch_task_waits ch \<and> ch_closed (fold channel_try_send evs ch) = ch_closed ch"
  by (induction evs arbitrary: ch) (auto simp: channel_try_send_def channel_offer_def buffer_put_def)

text \<open>While no activity task waits, a call runs to its end.\<close>

lemma channel_run_path:
  assumes "ch_task_waits ch = None"
  shows "\<exists>ch'. (channel_step E T Inside)\<^sup>*\<^sup>* (as @ c # bs, s, ch) (as @ bs, snd (run_call E c s), ch') \<and>
    ch_task_waits ch' = None \<and> ch_closed ch' = ch_closed ch"
  using assms
proof (induction E c s arbitrary: ch rule: run_call.induct)
  case (1 E c s)
  show ?case
  proof (cases "returned c")
    case (Some r)
    with 1(2) show ?thesis by (auto simp: run_call.simps [of E c] intro!: r_into_rtranclp call_ends)
  next
    case None
    obtain r t where c: "call_step E c s = (r, t)" using prod.exhaust by blast
    let ?ch = "fold channel_try_send (new_events s t) ch"
    have k: "ch_task_waits ?ch = None" "ch_closed ?ch = ch_closed ch" using try_send_keeps [of "new_events s t" ch] 1(2) by simp_all
    from wpD [OF call_step_no_err c] None show ?thesis
    proof (cases r)
      case (Ok c')
      with c 1(2) have "channel_step E T Inside (as @ c # bs, s, ch) (as @ c' # bs, t, ?ch)" by (simp add: call_moves)
      moreover from 1(1) [OF None c [symmetric] Ok k(1)] obtain ch' where
        "(channel_step E T Inside)\<^sup>*\<^sup>* (as @ c' # bs, t, ?ch) (as @ bs, snd (run_call E c' t), ch')"
        "ch_task_waits ch' = None" "ch_closed ch' = ch_closed ch" using k(2) by auto
      ultimately show ?thesis using c Ok None
        by (auto simp: run_call.simps [of E c] intro: converse_rtranclp_into_rtranclp)
    next
      case (Panic p)
      with c 1(2) have "channel_step E T Inside (as @ c # bs, s, ch) (as @ bs, t, ?ch)" by (simp add: call_dies)
      with c Panic None k show ?thesis by (auto simp: run_call.simps [of E c])
    qed simp
  qed
qed

lemma channel_reach_path:
  assumes "channel_reach E T config x" "(channel_step E T l)\<^sup>*\<^sup>* x y"
  shows "channel_reach E T config y"
  using assms(2,1) by (induction rule: rtranclp_induct) (auto intro: channel_more)

lemma live_channel: "\<exists>ch. channel_reach full_env {''t''} sample_config ([], live_state, ch) \<and> \<not> ch_closed ch"
proof -
  let ?x = "([ConnectCheck], (sample_handler, world_init), channel_new sample_config)"
  have "channel_reach full_env {''t''} sample_config ([], (sample_handler, world_init), channel_new sample_config)"
    by (rule channel_start [OF sample_handler_new]) (simp add: sample_config_def)
  then have "channel_reach full_env {''t''} sample_config ?x" by (rule channel_more) (rule call_begins, simp)
  moreover obtain ch where "(channel_step full_env {''t''} Inside)\<^sup>*\<^sup>* ?x ([], live_state, ch)" "\<not> ch_closed ch"
    using channel_run_path [of "channel_new sample_config" full_env "{''t''}" "[]" ConnectCheck "[]" "(sample_handler, world_init)"]
    by (auto simp: channel_new_def run_connect live_state_def)
  ultimately show ?thesis by (blast intro: channel_reach_path)
qed

end
