(* ===== verification/Wire.thy ===== *)
theory Wire
  imports Env
begin

text \<open>
  The wire types the other way round: the derived \<open>Serialize\<close> of the Mercury types of
  \<^verbatim>\<open>types.rs\<close>, and that reading back what was written gives the activity back, up to the fields the
  wire does not have.
\<close>

section \<open>Serialization to a JSON value\<close>

definition ser_opt :: "('a \<Rightarrow> json) \<Rightarrow> 'a option \<Rightarrow> json" where
  "ser_opt f x = (case x of None \<Rightarrow> JNull | Some y \<Rightarrow> f y)"

definition ser_strings :: "string list \<Rightarrow> json" where
  "ser_strings ss = JArray (map JString ss)"

definition ser_actor :: "mercury_actor \<Rightarrow> json" where
  "ser_actor a = json_obj
     [(''id'', JString (ac_id a)), (''objectType'', JString (ac_object_type a)),
      (''emailAddress'', ser_opt JString (ac_email_address a))]"

definition ser_object :: "mercury_object \<Rightarrow> json" where
  "ser_object ob = json_obj
     [(''id'', JString (ob_id ob)), (''objectType'', JString (ob_object_type ob)),
      (''displayName'', ser_opt JString (ob_display_name ob)), (''content'', ser_opt JString (ob_content ob)),
      (''encryptionKeyUrl'', ser_opt JString (ob_encryption_key_url ob)), (''inputs'', ser_opt id (ob_inputs ob)),
      (''files'', ser_opt ser_strings (ob_files ob))]"

definition ser_target :: "mercury_target \<Rightarrow> json" where
  "ser_target tg = json_obj
     [(''id'', JString (tg_id tg)), (''objectType'', JString (tg_object_type tg)),
      (''encryptionKeyUrl'', ser_opt JString (tg_encryption_key_url tg)), (''tags'', ser_strings (tg_tags tg))]"

definition ser_parent :: "mercury_parent \<Rightarrow> json" where
  "ser_parent p = json_obj [(''id'', JString (pa_id p)), (''type'', JString (pa_parent_type p))]"

definition ser_activity :: "mercury_activity \<Rightarrow> json" where
  "ser_activity a = json_obj
     [(''id'', JString (av_id a)), (''url'', ser_opt JString (av_url a)), (''verb'', JString (av_verb a)),
      (''actor'', ser_actor (av_actor a)), (''object'', ser_object (av_object a)), (''target'', ser_target (av_target a)),
      (''published'', JString (av_published a)), (''encryptionKeyUrl'', ser_opt JString (av_encryption_key_url a)),
      (''parent'', ser_opt ser_parent (av_parent a))]"

text \<open>What the wire keeps of an object: the skipped field is empty, and null inputs are no inputs.\<close>

definition wire_object :: "mercury_object \<Rightarrow> mercury_object" where
  "wire_object ob = ob\<lparr>ob_inputs := (if ob_inputs ob = Some JNull then None else ob_inputs ob), ob_inputs_encrypted := None\<rparr>"

definition wire_activity :: "mercury_activity \<Rightarrow> mercury_activity" where
  "wire_activity a = a\<lparr>av_object := wire_object (av_object a)\<rparr>"

section \<open>Reading back\<close>

lemma fields_of_obj: "fields_of names (json_obj kvs) = Some (map_of (rev kvs))"
  using json_fold_sorted [of "[]" kvs] by (simp add: json_obj_def fields_of_def)

lemma json_obj_not_null [simp]: "json_obj kvs \<noteq> JNull"
  by (simp add: json_obj_def)

lemma de_opt_ser:
  assumes "\<And>y. x = Some y \<Longrightarrow> d (f y) = Some y \<and> f y \<noteq> JNull"
  shows "de_opt d (ser_opt f x) = Some x"
  using assms by (cases x) (simp_all add: de_opt_def ser_opt_def)

lemma de_strings_ser: "de_vec as_str (ser_strings ss) = Some ss"
  by (induction ss) (simp_all add: de_vec_def ser_strings_def)

lemma de_inputs_ser: "de_opt Some (ser_opt id x) = Some (if x = Some JNull then None else x)"
  by (cases x) (auto simp: de_opt_def ser_opt_def)

lemma de_files_ser: "de_opt (de_vec as_str) (ser_opt ser_strings x) = Some x"
  by (rule de_opt_ser) (simp add: de_strings_ser, simp add: ser_strings_def)

lemmas wire_simps = fields_of_obj fld_def de_opt_ser de_strings_ser de_inputs_ser de_files_ser

lemma de_actor_ser: "de_actor (ser_actor a) = Some a"
  by (simp add: de_actor_def ser_actor_def wire_simps)

lemma de_object_ser: "de_object (ser_object ob) = Some (wire_object ob)"
  by (simp add: de_object_def ser_object_def wire_simps wire_object_def)

lemma de_target_ser: "de_target (ser_target tg) = Some tg"
  by (simp add: de_target_def ser_target_def wire_simps)

lemma de_parent_ser: "de_parent (ser_parent p) = Some p"
  by (simp add: de_parent_def ser_parent_def wire_simps)

lemma de_parents_ser: "de_opt de_parent (ser_opt ser_parent x) = Some x"
  by (rule de_opt_ser) (simp add: de_parent_ser, simp add: ser_parent_def)

lemma de_activity_ser: "de_activity (ser_activity a) = Some (wire_activity a)"
  by (simp add: de_activity_def ser_activity_def wire_simps de_actor_ser de_object_ser de_target_ser de_parents_ser
      wire_activity_def)

section \<open>Through the text\<close>

lemma json_put_set: "set (json_put k v kvs) \<subseteq> insert (k, v) (set kvs)"
  by (induction k v kvs rule: json_put.induct) auto

lemma json_obj_entries: "set (fold (\<lambda>(k, v). json_put k v) xs kvs) \<subseteq> set xs \<union> set kvs"
proof (induction xs arbitrary: kvs)
  case (Cons x xs)
  obtain k v where x: "x = (k, v)" by fastforce
  from Cons [of "json_put k v kvs"] json_put_set [of k v kvs] show ?case by (auto simp: x)
qed simp

lemma json_wf_obj: "list_all (\<lambda>(k, v). valid_str k \<and> json_wf v) xs \<Longrightarrow> json_wf (json_obj xs)"
  using json_fold_sorted [of "[]" xs] json_obj_entries [of xs "[]"] by (fastforce simp: json_obj_def list_all_iff)

text \<open>The strings of an activity are UTF-8, as the type \<open>String\<close> makes them, and its inputs are as \<open>J\<close> says.\<close>

abbreviation valid_opt :: "string option \<Rightarrow> bool" where
  "valid_opt x \<equiv> (\<forall>s\<in>set_option x. valid_str s)"

definition actor_valid :: "mercury_actor \<Rightarrow> bool" where
  "actor_valid a \<longleftrightarrow> valid_str (ac_id a) \<and> valid_str (ac_object_type a) \<and> valid_opt (ac_email_address a)"

definition object_valid :: "(json \<Rightarrow> bool) \<Rightarrow> mercury_object \<Rightarrow> bool" where
  "object_valid J ob \<longleftrightarrow>
     valid_str (ob_id ob) \<and> valid_str (ob_object_type ob) \<and> valid_opt (ob_display_name ob) \<and> valid_opt (ob_content ob) \<and>
     valid_opt (ob_encryption_key_url ob) \<and> (\<forall>j\<in>set_option (ob_inputs ob). J j) \<and>
     (\<forall>fs\<in>set_option (ob_files ob). list_all valid_str fs)"

definition target_valid :: "mercury_target \<Rightarrow> bool" where
  "target_valid tg \<longleftrightarrow>
     valid_str (tg_id tg) \<and> valid_str (tg_object_type tg) \<and> valid_opt (tg_encryption_key_url tg) \<and> list_all valid_str (tg_tags tg)"

definition parent_valid :: "mercury_parent \<Rightarrow> bool" where
  "parent_valid p \<longleftrightarrow> valid_str (pa_id p) \<and> valid_str (pa_parent_type p)"

definition activity_valid :: "(json \<Rightarrow> bool) \<Rightarrow> mercury_activity \<Rightarrow> bool" where
  "activity_valid J a \<longleftrightarrow>
     valid_str (av_id a) \<and> valid_opt (av_url a) \<and> valid_str (av_verb a) \<and> valid_str (av_published a) \<and>
     valid_opt (av_encryption_key_url a) \<and> actor_valid (av_actor a) \<and> object_valid J (av_object a) \<and>
     target_valid (av_target a) \<and> (\<forall>p\<in>set_option (av_parent a). parent_valid p)"

lemma wf_opt: "(\<And>y. x = Some y \<Longrightarrow> json_wf (f y)) \<Longrightarrow> json_wf (ser_opt f x)"
  by (cases x) (simp_all add: ser_opt_def)

lemma wf_strings: "list_all valid_str ss \<Longrightarrow> json_wf (ser_strings ss)"
  by (simp add: ser_strings_def list_all_iff)

lemma wire_keys:
  "list_all valid_str [''id'', ''objectType'', ''emailAddress'', ''displayName'', ''content'', ''encryptionKeyUrl'', ''inputs'',
     ''files'', ''tags'', ''type'', ''url'', ''verb'', ''actor'', ''object'', ''target'', ''published'', ''parent'']"
  by code_simp

lemmas wf_rules = wf_opt wf_strings

lemma ser_actor_wf: "actor_valid a \<Longrightarrow> json_wf (ser_actor a)"
  unfolding ser_actor_def using wire_keys
  by (intro json_wf_obj) (simp add: actor_valid_def wf_opt)

lemma ser_object_wf: "object_valid json_wf ob \<Longrightarrow> json_wf (ser_object ob)"
  unfolding ser_object_def using wire_keys
  by (intro json_wf_obj) (simp add: object_valid_def wf_rules)

lemma ser_target_wf: "target_valid tg \<Longrightarrow> json_wf (ser_target tg)"
  unfolding ser_target_def using wire_keys
  by (intro json_wf_obj) (simp add: target_valid_def wf_rules)

lemma ser_parent_wf: "parent_valid p \<Longrightarrow> json_wf (ser_parent p)"
  unfolding ser_parent_def using wire_keys
  by (intro json_wf_obj) (simp add: parent_valid_def)

lemma ser_activity_wf: "activity_valid json_wf a \<Longrightarrow> json_wf (ser_activity a)"
  unfolding ser_activity_def using wire_keys
  by (intro json_wf_obj)
    (simp add: activity_valid_def wf_opt ser_actor_wf ser_object_wf ser_target_wf ser_parent_wf)


end
