(* ===== verification/Pipeline.thy ===== *)
theory Pipeline
  imports Event_Channel Wire
begin

text \<open>
  From a frame on the WebSocket to the consumer: the read loop of the socket, the event loop, the
  activity task with its decryption, and the event channel, composed.
\<close>

section \<open>An activity on its way\<close>

text \<open>How the decryption of an activity ends, when its class calls for one.\<close>

definition decryption_of :: "('sk, 'pk, 'rsa) env \<Rightarrow> mercury_activity \<Rightarrow> kms_client \<Rightarrow> world \<Rightarrow> mercury_activity result" where
  "decryption_of E a k w =
     (if encrypted_class a then fst (decrypt_activity E a (k, w\<lparr>w_ticks := Suc (w_ticks w)\<rparr>)) else Ok a)"

lemma activity_task_events:
  assumes "activity_task E a (h, w) = (r, t)" "wh_kms_client h = Some k"
  shows "wh_events (fst t) = wh_events h @ events_for E (wh_bot_person_id h) a (decryption_of E a k w)"
proof -
  have "wp (handle_activity_static E a b cb) (\<lambda>r u. snd (fst u) = evs @ events_for E b a (decryption_of E a k w)) ((k, evs), w)" for b cb evs
    using activity_exact [of E a b cb "((k, evs), w)"]
    by (rule wp_weaken) (auto simp: activity_run_def decryption_of_def split: if_splits prod.splits)
  then have "wp (activity_task E a) (\<lambda>r t. wh_events (fst t) = wh_events h @ events_for E (wh_bot_person_id h) a (decryption_of E a k w)) (h, w)"
    by (simp add: activity_task_def wp_simps assms(2) split_beta)
  from wpD [OF this assms(1)] show ?thesis .
qed

lemma activity_task_ready:
  assumes "activity_task E a (h, w) = (r, t)"
  shows "wh_mercury (fst t) = wh_mercury h \<and> wh_loop (fst t) = wh_loop h \<and> wh_seen (fst t) = wh_seen h \<and> wh_tasks (fst t) = wh_tasks h \<and>
    (wh_kms_client (fst t) = None \<longleftrightarrow> wh_kms_client h = None)"
proof -
  have "wp (activity_task E a) (\<lambda>r t. wh_mercury (fst t) = wh_mercury h \<and> wh_loop (fst t) = wh_loop h \<and> wh_seen (fst t) = wh_seen h \<and>
      wh_tasks (fst t) = wh_tasks h \<and> (wh_kms_client (fst t) = None \<longleftrightarrow> wh_kms_client h = None)) (h, w)"
    by (auto simp: activity_task_def wp_simps split_beta wp_True split: option.split)
  from wpD [OF this assms] show ?thesis .
qed

text \<open>A handler whose event loop runs and has caught up, with a socket that is read and a KMS client.\<close>

definition ready :: "webex_message_handler \<Rightarrow> kms_client \<Rightarrow> bool" where
  "ready h k \<longleftrightarrow> wh_loop h \<and> wh_seen h = length (ms_events (wh_mercury h)) \<and> 0 < ms_reading (wh_mercury h) \<and> wh_kms_client h = Some k"

lemma activity_arrives:
  fixes w :: world
  assumes "ready h k" "nobody_waits ch" "length text \<le> MAX_MESSAGE_BYTES" "json_from_slice E (as_bytes text) = Inr message"
    and "event_of message = Some (EvActivity a)"
  defines "evs \<equiv> events_for E (wh_bot_person_id h) a (decryption_of E a k w)"
  shows "\<exists>t k'. (channel_step E T Inside)\<^sup>*\<^sup>* (cs, (h, w), ch) (cs, t, fold task_send evs ch) \<and>
    wh_events (fst t) = wh_events h @ evs \<and> ready (fst t) k'"
proof -
  let ?m = "read_text E text (wh_mercury h)"
  let ?h1 = "h\<lparr>wh_mercury := ?m\<rparr>"
  let ?h2 = "?h1\<lparr>wh_seen := wh_seen h + 1, wh_tasks := wh_tasks h @ [a]\<rparr>"
  have m: "ms_events ?m = ms_events (wh_mercury h) @ [EvActivity a]"
    using assms(3-5) by (simp add: read_text_def handle_message_shape)
  have "task_step E (wh_mercury h) ?m" using assms(1) by (simp add: ready_def step_text)
  then have 1: "channel_step E T Inside (cs, (h, w), ch) (cs, (?h1, w), ch)" by (rule socket_acts)
  have "handler_step E LoopStep (?h1, w) (loop_after (Ok ()) (?h2, w))"
    by (rule loop_receives) (use assms(1) m in \<open>simp_all add: ready_def nth_append updateM_def modifyM_def\<close>)
  from loop_acts [OF this, of ch T cs] assms(2) have 2: "channel_step E T Inside (cs, (?h1, w), ch) (cs, (?h2, w), ch)"
    by (simp add: loop_after_def new_events_def nobody_waits_def)
  obtain r t where t: "activity_task E a (?h2\<lparr>wh_tasks := wh_tasks h\<rparr>, w) = (r, t)" using prod.exhaust by blast
  have e: "wh_events (fst t) = wh_events h @ evs"
    using activity_task_events [OF t] assms(1) by (simp add: ready_def evs_def)
  have "channel_step E T Inside (cs, (?h2, w), ch) (cs, t, fold task_send (new_events (?h2, w) t) ch)"
    by (rule activity_runs [where as = "wh_tasks h" and bs = "[]"]) (use assms(2) t in \<open>simp_all add: nobody_waits_def\<close>)
  with e have 3: "channel_step E T Inside (cs, (?h2, w), ch) (cs, t, fold task_send evs ch)" by (simp add: new_events_def)
  have r: "\<exists>k'. ready (fst t) k'" using activity_task_ready [OF t] assms(1) m
    by (auto simp: ready_def read_text_def handle_message_shape split: sum.splits if_splits)
  from 1 2 3 have "(channel_step E T Inside)\<^sup>*\<^sup>* (cs, (h, w), ch) (cs, t, fold task_send evs ch)"
    by (meson converse_rtranclp_into_rtranclp r_into_rtranclp)
  with e r show ?thesis by blast
qed

section \<open>To the consumer\<close>

text \<open>A step of either side.\<close>

definition system_step :: "('sk, 'pk, 'rsa) env \<Rightarrow> string set \<Rightarrow> channel_state \<Rightarrow> channel_state \<Rightarrow> bool" where
  "system_step E T x y \<longleftrightarrow> (\<exists>l. channel_step E T l x y)"

lemma inside_system: "(channel_step E T Inside)\<^sup>*\<^sup>* x y \<Longrightarrow> (system_step E T)\<^sup>*\<^sup>* x y"
  by (rule rtranclp_mono [THEN predicate2D, rotated]) (auto simp: system_step_def)

lemma activity_received:
  fixes w :: world
  assumes "ready h k" "nobody_waits ch" "ch_buffer ch = []" "0 < ch_capacity ch" "\<not> ch_closed ch"
    and "length text \<le> MAX_MESSAGE_BYTES" "json_from_slice E (as_bytes text) = Inr message" "event_of message = Some (EvActivity a)"
    and "events_for E (wh_bot_person_id h) a (decryption_of E a k w) = [ev]"
  shows "\<exists>t ch'. (system_step E T)\<^sup>*\<^sup>* (cs, (h, w), ch) (cs, t, ch') \<and> ch_received ch' = ch_received ch @ [ev]"
proof -
  let ?ch = "ch\<lparr>ch_buffer := [ev]\<rparr>"
  let ?got = "?ch\<lparr>ch_buffer := [], ch_received := ch_received ch @ [ev]\<rparr>"
  have "task_send ev ch = ?ch" using assms(2-5) by (simp add: task_send_def channel_offer_def buffer_put_def)
  with activity_arrives [OF assms(1,2,6-8), where w = w and T = T and cs = cs] assms(9) obtain t where
    t: "(channel_step E T Inside)\<^sup>*\<^sup>* (cs, (h, w), ch) (cs, t, ?ch)" by auto
  have "channel_step E T Consumer (cs, t, ?ch) (cs, t, ?got)"
    by (rule consumer_receives [of _ ev]) (simp add: channel_recv_def)
  then have "system_step E T (cs, t, ?ch) (cs, t, ?got)" unfolding system_step_def by (rule exI)
  with inside_system [OF t] have "(system_step E T)\<^sup>*\<^sup>* (cs, (h, w), ch) (cs, t, ?got)"
    by (rule rtranclp.rtrancl_into_rtrancl)
  then show ?thesis by (intro exI [of _ t] exI [of _ ?got]) simp
qed

text \<open>
  C7. From the wire to the consumer: when the event loop has caught up, the channel is free and the
  key of the activity is cached, a frame with a new message whose texts were sealed under that key,
  sent by someone else than the bot, is received by the consumer as one \<open>MessageCreated\<close> event with
  the original texts, the author, the room and the identifier of the activity; reading the frame,
  handling the event, decrypting and handing over are the only steps it takes.
\<close>

theorem sealed_message_delivered:
  fixes w :: world
  assumes "jose_laws E" "length key = 32" "valid_str kid" "valid_str name" "valid_str content"
    and "encrypt_dir_a256gcm E (as_bytes name) key kid s1 = (Ok name_token, s1')"
    and "encrypt_dir_a256gcm E (as_bytes content) key kid s2 = (Ok content_token, s2')"
    and "ready h k" "cache_get u (kc_key_cache k) = Some key"
    and "nobody_waits ch" "ch_buffer ch = []" "0 < ch_capacity ch" "\<not> ch_closed ch"
    and "length text \<le> MAX_MESSAGE_BYTES" "json_from_slice E (as_bytes text) = Inr message"
    and "event_of message = Some (EvActivity a)" "class_of a = Some NewMessage" "find_key_url a = Some u"
    and "ob_display_name (av_object a) = Some name_token" "ob_content (av_object a) = Some content_token"
    and "ob_inputs_encrypted (av_object a) = None"
    and "wh_bot_person_id h \<noteq> Some (extract_person_uuid E (ac_id (av_actor a)))"
  shows "\<exists>t ch' m. (system_step E T)\<^sup>*\<^sup>* (cs, (h, w), ch) (cs, t, ch') \<and>
    ch_received ch' = ch_received ch @ [MessageCreated m] \<and> dm_text m = name \<and> dm_html m = Some content \<and>
    dm_id m = av_id a \<and> dm_room_id m = tg_id (av_target a) \<and> dm_person_id m = ac_id (av_actor a)"
proof -
  let ?b = "a\<lparr>av_object := (av_object a)\<lparr>ob_display_name := Some name, ob_content := Some content\<rparr>\<rparr>"
  have "decryption_of E a k w = Ok ?b"
    using decrypt_activity_sealed [OF assms(1-7,18) _ assms(19-21), where s = "(k, w\<lparr>w_ticks := Suc (w_ticks w)\<rparr>)"] assms(9,17)
    by (simp add: decryption_of_def encrypted_class_def)
  moreover have "\<not> is_self E (wh_bot_person_id h) (message_of E ?b)"
    using assms(22) by (auto simp: is_self_def message_of_def Let_def split: option.split)
  ultimately have "events_for E (wh_bot_person_id h) a (decryption_of E a k w) = [MessageCreated (message_of E ?b)]"
    using assms(17) by (simp add: events_for_def)
  from activity_received [OF assms(8,10-16) this, where T = T and cs = cs] show ?thesis
    by (fastforce simp: message_of_def Let_def unwrap_or_def)
qed

text \<open>A frame with the sealed activity, and a handler that has its key.\<close>

definition sealed_frame :: json where
  "sealed_frame = json_obj [(''id'', JString ''f1''), (''data'', json_obj [(''eventType'', JString ''conversation.activity''),
     (''activity'', ser_activity (sealed_activity\<lparr>av_object := (av_object sealed_activity)\<lparr>ob_object_type := ''comment''\<rparr>\<rparr>))])]"

definition ready_handler :: webex_message_handler where
  "ready_handler = sample_handler\<lparr>wh_loop := True, wh_mercury := (wh_mercury sample_handler)\<lparr>ms_reading := 1\<rparr>,
     wh_kms_client := Some (sample_client\<lparr>kc_key_cache := [(''kms://k/1'', sample_key)]\<rparr>), wh_bot_person_id := Some ''bot-1''\<rparr>"

lemma sealed_frame_event:
  "event_of sealed_frame = Some (EvActivity (sealed_activity\<lparr>av_object := (av_object sealed_activity)\<lparr>ob_object_type := ''comment''\<rparr>\<rparr>))"
  by (simp add: event_of_def sealed_frame_def get_str_obj json_get_obj event_type_of_def starts_with_def de_activity_ser
      wire_activity_def wire_object_def finalize_inputs_def sealed_activity_def object_default_def)

lemma ready_handler_ready: "ready ready_handler (sample_client\<lparr>kc_key_cache := [(''kms://k/1'', sample_key)]\<rparr>)"
  by (simp add: ready_def ready_handler_def sample_handler_def mercury_socket_new_def)

text \<open>The frame is short enough to be read.\<close>

lemma hex_encode_length: "length (hex_encode bs) = 2 * length bs"
  by (induction bs) (simp_all add: hex_encode_def)

lemma put_str_length: "length (put_str t) = 2 * length t + 1"
  by (simp add: put_str_def as_bytes_def hex_encode_length)

lemma json_put_length:
  "length (put_entries (json_put k v kvs)) \<le> 2 * length k + length (put_json v) + 2 + length (put_entries kvs)"
  by (induction k v kvs rule: json_put.induct) (auto simp: put_str_length)

lemma json_obj_length:
  "length (put_json (json_obj kvs)) \<le> 2 + (\<Sum>(k, v)\<leftarrow>kvs. 2 * length k + length (put_json v) + 2)"
proof -
  have "length (put_entries (fold (\<lambda>(k, v). json_put k v) xs acc)) \<le>
      (\<Sum>(k, v)\<leftarrow>xs. 2 * length k + length (put_json v) + 2) + length (put_entries acc)" for xs acc
  proof (induction xs arbitrary: acc)
    case (Cons x xs)
    obtain k v where "x = (k, v)" by fastforce
    with Cons [of "json_put k v acc"] json_put_length [of k v acc] show ?case by simp
  qed simp
  from this [of kvs "[]"] show ?thesis by (simp add: json_obj_def)
qed

lemma sample_token_length: "length (sample_token t) \<le> 1000 + 2 * length t"
proof -
  let ?header = "json_obj [(''alg'', JString ''dir''), (''enc'', JString ''A256GCM'')]"
  have "length (put_json ?header) \<le> 100"
    by (rule order_trans [OF json_obj_length]) (simp add: put_str_length)
  then have "length (put_json (json_set ''kid'' (JString ''k1'') ?header)) \<le> 200"
    using json_put_length [of "''kid''" "JString ''k1''"]
    by (auto simp: json_obj_def json_set_def put_str_length intro: order_trans)
  moreover have "json_to_string sample_env = put_json" "url_encode sample_env = hex_encode" "fill_bytes sample_env i n = replicate n 7" for i n
    by (simp_all add: sample_env_def)
  ultimately show ?thesis
    by (simp add: sample_token_def encrypt_dir_a256gcm_def effect_defs Let_def jwe_compact_def sample_gcm_seal hex_encode_length as_bytes_def)
qed

lemma sealed_frame_length: "length (put_json sealed_frame) \<le> MAX_MESSAGE_BYTES"
proof -
  let ?a = "sealed_activity\<lparr>av_object := (av_object sealed_activity)\<lparr>ob_object_type := ''comment''\<rparr>\<rparr>"
  note bound = order_trans [OF json_obj_length]
  note sizes = put_str_length sealed_activity_def ser_opt_def ser_strings_def
  have ob: "length (put_json (ser_object (av_object ?a))) \<le> 6000"
    using sample_token_length [of "''hi''"] sample_token_length [of "''<b>hi</b>''"]
    unfolding ser_object_def by (intro bound) (simp add: sizes object_default_def)
  have ac: "length (put_json (ser_actor (av_actor ?a))) \<le> 1000"
    unfolding ser_actor_def by (rule bound) (simp add: sizes actor_default_def)
  have tg: "length (put_json (ser_target (av_target ?a))) \<le> 1000"
    unfolding ser_target_def by (rule bound) (simp add: sizes target_default_def)
  have av: "length (put_json (ser_activity ?a)) \<le> 10000"
    unfolding ser_activity_def by (rule bound) (use ob ac tg in \<open>simp add: sizes\<close>)
  have "length (put_json (json_obj [(''eventType'', JString ''conversation.activity''), (''activity'', ser_activity ?a)])) \<le> 20000"
    by (rule bound) (use av in \<open>simp add: put_str_length\<close>)
  then show ?thesis unfolding sealed_frame_def MAX_MESSAGE_BYTES_def by (intro bound) (simp add: put_str_length)
qed

theorem sealed_message_delivered_witness:
  "\<exists>t ch' m. (system_step sample_env {})\<^sup>*\<^sup>* ([], (ready_handler, world_init), channel_new sample_config) ([], t, ch') \<and>
    ch_received ch' = [MessageCreated m] \<and> dm_text m = ''hi'' \<and> dm_html m = Some ''<b>hi</b>'' \<and> dm_id m = ''a1''"
proof -
  let ?a = "sealed_activity\<lparr>av_object := (av_object sealed_activity)\<lparr>ob_object_type := ''comment''\<rparr>\<rparr>"
  let ?ch = "channel_new sample_config"
  obtain s1 s2 where sealed:
    "encrypt_dir_a256gcm sample_env (as_bytes ''hi'') sample_key ''k1'' ((), world_init) = (Ok (sample_token ''hi''), s1)"
    "encrypt_dir_a256gcm sample_env (as_bytes ''<b>hi</b>'') sample_key ''k1'' ((), world_init) = (Ok (sample_token ''<b>hi</b>''), s2)"
    using sample_token_sealed by metis
  have key: "length sample_key = 32" "cache_get ''kms://k/1'' (kc_key_cache (sample_client\<lparr>kc_key_cache := [(''kms://k/1'', sample_key)]\<rparr>)) = Some sample_key"
    by (simp_all add: sample_key_def cache_get_def)
  have v: "valid_str ''k1''" "valid_str ''hi''" "valid_str ''<b>hi</b>''" by code_simp+
  have ch: "nobody_waits ?ch" "ch_buffer ?ch = []" "0 < ch_capacity ?ch" "\<not> ch_closed ?ch"
    by (simp_all add: channel_new_def nobody_waits_def sample_config_def config_default_def)
  have read: "json_from_slice sample_env (as_bytes (put_json sealed_frame)) = Inr sealed_frame"
    by (simp add: sample_env_def json_parse_put)
  have a: "class_of ?a = Some NewMessage" "find_key_url ?a = Some ''kms://k/1''"
    by (simp_all add: class_of_def class_table_def find_key_url_def non_empty_def sealed_activity_def object_default_def)
  have ob: "ob_display_name (av_object ?a) = Some (sample_token ''hi'')" "ob_content (av_object ?a) = Some (sample_token ''<b>hi</b>'')"
    "ob_inputs_encrypted (av_object ?a) = None" by (simp_all add: sealed_activity_def object_default_def)
  have "extract_person_uuid sample_env [] = []" by code_simp
  then have other: "wh_bot_person_id ready_handler \<noteq> Some (extract_person_uuid sample_env (ac_id (av_actor ?a)))"
    by (simp add: ready_handler_def sealed_activity_def actor_default_def)
  from sealed_message_delivered [OF sample_jose_laws key(1) v sealed ready_handler_ready key(2) ch sealed_frame_length read
      sealed_frame_event a ob other, where T = "{}" and cs = "[]" and w = world_init]
  show ?thesis by (simp add: channel_new_def sealed_activity_def) blast
qed

end
