(* ===== verification/Typing.thy ===== *)
theory Typing
  imports Pipeline
begin

text \<open>
  What Rust's type \<open>String\<close> promises, as an invariant of the model: every string and every JSON value
  in every event is well-formed UTF-8, from the frame to the consumer.
\<close>

section \<open>JSON values\<close>

fun json_typed :: "json \<Rightarrow> bool"
  and items_typed :: "json list \<Rightarrow> bool"
  and entries_typed :: "(string \<times> json) list \<Rightarrow> bool" where
  "json_typed JNull = True"
| "json_typed (JBool b) = True"
| "json_typed (JNumber n) = valid_str n"
| "json_typed (JString s) = valid_str s"
| "json_typed (JArray vs) = items_typed vs"
| "json_typed (JObject kvs) = entries_typed kvs"
| "items_typed [] = True"
| "items_typed (v # vs) \<longleftrightarrow> json_typed v \<and> items_typed vs"
| "entries_typed [] = True"
| "entries_typed ((k, v) # kvs) \<longleftrightarrow> valid_str k \<and> json_typed v \<and> entries_typed kvs"

lemma items_typed_iff: "items_typed vs \<longleftrightarrow> list_all json_typed vs"
  by (induction vs) simp_all

lemma entries_typed_iff: "entries_typed kvs \<longleftrightarrow> list_all (\<lambda>(k, v). valid_str k \<and> json_typed v) kvs"
  by (induction kvs) auto

lemma get_typed: "json_typed j \<Longrightarrow> json_get k j = Some v \<Longrightarrow> json_typed v"
  by (auto simp: json_get_def entries_typed_iff list_all_iff split: json.splits dest: map_of_SomeD)

section \<open>What is read is typed\<close>

text \<open>A reader gives values with a property when it is given typed JSON.\<close>

definition reads :: "('a \<Rightarrow> bool) \<Rightarrow> (json \<Rightarrow> 'a option) \<Rightarrow> bool" where
  "reads P d \<longleftrightarrow> (\<forall>j. json_typed j \<longrightarrow> pred_option P (d j))"

lemma read_str: "reads valid_str as_str"
  by (auto simp: reads_def as_str_def split: json.split)

lemma read_any: "reads json_typed Some"
  by (simp add: reads_def)

lemma read_opt: "reads P d \<Longrightarrow> reads (pred_option P) (de_opt d)"
  by (auto simp: reads_def de_opt_def option.pred_map o_def)

lemma those_typed: "list_all json_typed vs \<Longrightarrow> reads P d \<Longrightarrow> pred_option (list_all P) (those (map d vs))"
  by (induction vs) (auto simp: reads_def option.pred_set split: option.split)

lemma read_vec: "reads P d \<Longrightarrow> reads (list_all P) (de_vec d)"
  using those_typed unfolding reads_def de_vec_def by (auto simp: reads_def items_typed_iff split: json.split)

definition fields_typed :: "(string \<rightharpoonup> json) \<Rightarrow> bool" where
  "fields_typed m \<longleftrightarrow> (\<forall>k v. m k = Some v \<longrightarrow> json_typed v)"

lemma fields_of_typed: "json_typed j \<Longrightarrow> pred_option fields_typed (fields_of names j)"
  by (auto simp: fields_of_def fields_typed_def items_typed_iff entries_typed_iff list_all_iff
      split: json.split dest!: map_of_SomeD dest: set_zip_rightD)

lemma fld_typed: "reads P d \<Longrightarrow> P dflt \<Longrightarrow> fields_typed m \<Longrightarrow> pred_option P (fld dflt d m k)"
  by (auto simp: fld_def reads_def fields_typed_def split: option.split)

lemma pred_bind: "pred_option Q x \<Longrightarrow> (\<And>y. Q y \<Longrightarrow> pred_option P (f y)) \<Longrightarrow> pred_option P (Option.bind x f)"
  by (cases x) simp_all

lemma valid_empty: "valid_str []"
  by code_simp

text \<open>One rule per kind of field of a struct, and one for the struct.\<close>

lemma read_struct:
  assumes "\<And>m. fields_typed m \<Longrightarrow> pred_option P (f m)"
  shows "reads P (\<lambda>j. Option.bind (fields_of names j) f)"
  unfolding reads_def using assms by (blast intro: pred_bind fields_of_typed)

lemmas read_field =
  pred_bind [OF fld_typed [OF read_str valid_empty]]
  pred_bind [OF fld_typed [OF read_opt [OF read_str] option.pred_inject(1)]]
  pred_bind [OF fld_typed [OF read_opt [OF read_any] option.pred_inject(1)]]
  pred_bind [OF fld_typed [OF read_opt [OF read_vec [OF read_str]] option.pred_inject(1)]]
  pred_bind [OF fld_typed [OF read_vec [OF read_str] list.pred_inject(1)]]

lemma read_actor: "reads actor_valid de_actor"
  unfolding de_actor_def
  by (rule read_struct, (rule read_field, assumption)+) (simp add: actor_valid_def option.pred_set)

lemma read_object: "reads (\<lambda>ob. object_valid json_typed ob \<and> ob_inputs_encrypted ob = None) de_object"
  unfolding de_object_def
  by (rule read_struct, (rule read_field, assumption)+) (simp add: object_valid_def option.pred_set)

lemma read_target: "reads target_valid de_target"
  unfolding de_target_def
  by (rule read_struct, (rule read_field, assumption)+) (simp add: target_valid_def option.pred_set)

lemma read_parent: "reads parent_valid de_parent"
  unfolding de_parent_def
  by (rule read_struct, (rule read_field, assumption)+) (simp add: parent_valid_def)

lemma default_valid:
  "actor_valid actor_default" "object_valid J object_default \<and> ob_inputs_encrypted object_default = None" "target_valid target_default"
  by (simp_all add: actor_valid_def actor_default_def object_valid_def object_default_def target_valid_def target_default_def valid_empty)

lemmas read_part =
  pred_bind [OF fld_typed [OF read_actor default_valid(1)]]
  pred_bind [OF fld_typed [OF read_object default_valid(2)]]
  pred_bind [OF fld_typed [OF read_target default_valid(3)]]
  pred_bind [OF fld_typed [OF read_opt [OF read_parent] option.pred_inject(1)]]

text \<open>An activity as the handler holds it: its encrypted inputs are a string too.\<close>

definition activity_typed :: "mercury_activity \<Rightarrow> bool" where
  "activity_typed a \<longleftrightarrow> activity_valid json_typed a \<and> pred_option valid_str (ob_inputs_encrypted (av_object a))"

lemma read_activity: "reads activity_typed de_activity"
  unfolding de_activity_def
  by (rule read_struct, (rule read_field read_part, assumption)+) (simp add: activity_typed_def activity_valid_def option.pred_set)

lemma finalize_typed: "activity_typed a \<Longrightarrow> activity_typed (a\<lparr>av_object := finalize_inputs (av_object a)\<rparr>)"
  by (auto simp: activity_typed_def activity_valid_def object_valid_def finalize_inputs_def split: option.split json.split)

section \<open>Events\<close>

definition message_typed :: "decrypted_message \<Rightarrow> bool" where
  "message_typed m \<longleftrightarrow>
     valid_str (dm_id m) \<and> pred_option valid_str (dm_url m) \<and> pred_option valid_str (dm_parent_id m) \<and>
     list_all valid_str (dm_mentioned_people m) \<and> list_all valid_str (dm_mentioned_groups m) \<and>
     valid_str (dm_room_id m) \<and> valid_str (dm_person_id m) \<and> valid_str (dm_person_email m) \<and> valid_str (dm_text m) \<and>
     pred_option valid_str (dm_html m) \<and> valid_str (dm_created m) \<and> pred_option valid_str (dm_room_type m) \<and>
     list_all valid_str (dm_files m) \<and> activity_typed (dm_raw m)"

fun event_typed :: "handler_event \<Rightarrow> bool" where
  "event_typed (MessageCreated m) = message_typed m"
| "event_typed (MessageUpdated m) = message_typed m"
| "event_typed (MessageDeleted d) \<longleftrightarrow> valid_str (dl_message_id d) \<and> valid_str (dl_room_id d) \<and> valid_str (dl_person_id d)"
| "event_typed (MembershipCreated m) \<longleftrightarrow>
     valid_str (mb_id m) \<and> valid_str (mb_actor_id m) \<and> valid_str (mb_person_id m) \<and> valid_str (mb_room_id m) \<and>
     valid_str (mb_action m) \<and> valid_str (mb_created m) \<and> pred_option valid_str (mb_room_type m) \<and> activity_typed (mb_raw m)"
| "event_typed (AttachmentActionCreated m) \<longleftrightarrow>
     valid_str (at_id m) \<and> valid_str (at_message_id m) \<and> valid_str (at_person_id m) \<and> valid_str (at_person_email m) \<and>
     valid_str (at_room_id m) \<and> json_typed (at_inputs m) \<and> valid_str (at_created m) \<and> activity_typed (at_raw m)"
| "event_typed (RoomCreated m) \<longleftrightarrow>
     valid_str (rm_id m) \<and> valid_str (rm_room_id m) \<and> valid_str (rm_actor_id m) \<and> valid_str (rm_action m) \<and>
     valid_str (rm_created m) \<and> activity_typed (rm_raw m)"
| "event_typed (RoomUpdated m) \<longleftrightarrow>
     valid_str (rm_id m) \<and> valid_str (rm_room_id m) \<and> valid_str (rm_actor_id m) \<and> valid_str (rm_action m) \<and>
     valid_str (rm_created m) \<and> activity_typed (rm_raw m)"
| "event_typed ev = True"

text \<open>What the parser and the regular expressions promise: their results are strings of valid input.\<close>

definition typed_json :: "('sk, 'pk, 'rsa) env \<Rightarrow> bool" where
  "typed_json E \<longleftrightarrow> (\<forall>bs j. json_from_slice E bs = Inr j \<longrightarrow> json_typed j)"

definition typed_captures :: "('sk, 'pk, 'rsa) env \<Rightarrow> bool" where
  "typed_captures E \<longleftrightarrow>
     (\<forall>h. valid_str h \<longrightarrow> list_all (\<lambda>(tag, ty). valid_str tag) (mention_re E h)) \<and>
     (\<forall>tag. valid_str tag \<longrightarrow> pred_option valid_str (person_id_re E tag) \<and> pred_option valid_str (group_type_re E tag))"

lemma person_idsD: "x \<in> set (person_ids E caps) \<Longrightarrow> \<exists>tag ty. (tag, ty) \<in> set caps \<and> person_id_re E tag = Some x"
  by (auto simp: person_ids_def List.map_filter_def split: if_splits)

lemma group_typesD: "x \<in> set (group_types E caps) \<Longrightarrow> \<exists>tag ty. (tag, ty) \<in> set caps \<and> group_type_re E tag = Some x"
  by (auto simp: group_types_def List.map_filter_def split: if_splits)

lemma mentions_typed:
  assumes "typed_captures E" "pred_option valid_str html"
  shows "list_all valid_str (mentioned_people (parse_mentions E html)) \<and> list_all valid_str (mentioned_groups (parse_mentions E html))"
proof (cases "html = None \<or> html = Some []")
  case True
  then show ?thesis by (auto simp: parse_mentions_def parsed_mentions_default_def)
next
  case False
  then obtain h where h: "html = Some h" "h \<noteq> []" by auto
  have caps: "list_all (\<lambda>(tag, ty). valid_str tag) (mention_re E h)" using assms by (simp add: h typed_captures_def)
  have tags: "pred_option valid_str (person_id_re E tag)" "pred_option valid_str (group_type_re E tag)" if "(tag, ty) \<in> set (mention_re E h)" for tag ty
    using caps that assms(1) by (auto simp: list_all_iff typed_captures_def)
  have "valid_str x" if "x \<in> set (person_ids E (mention_re E h)) \<union> set (group_types E (mention_re E h))" for x
    using that tags by (force dest!: person_idsD group_typesD)
  with mention_fold_inv [of E "mention_re E h"] show ?thesis
    by (auto simp: parse_mentions_def h mention_inv_def list_all_iff split: prod.splits)
qed

lemma room_type_typed: "pred_option valid_str (infer_room_type a)"
proof -
  have "valid_str ''direct''" "valid_str ''group''" by code_simp+
  then show ?thesis by (simp add: infer_room_type_def Let_def)
qed

lemma unwrap_valid: "pred_option P x \<Longrightarrow> P d \<Longrightarrow> P (unwrap_or d x)"
  by (cases x) (simp_all add: unwrap_or_def)

lemmas activity_parts = activity_typed_def activity_valid_def actor_valid_def object_valid_def target_valid_def parent_valid_def

text \<open>The parts of a typed activity, as facts to simplify with.\<close>

lemma activity_typedD:
  assumes "activity_typed a"
  shows "valid_str (av_id a)" "valid_str (av_verb a)" "valid_str (av_published a)" "pred_option valid_str (av_url a)"
    and "valid_str (ac_id (av_actor a))" "pred_option valid_str (ac_email_address (av_actor a))"
    and "valid_str (ob_id (av_object a))" "pred_option valid_str (ob_display_name (av_object a))"
    and "pred_option valid_str (ob_content (av_object a))" "pred_option json_typed (ob_inputs (av_object a))"
    and "pred_option (list_all valid_str) (ob_files (av_object a))" "valid_str (tg_id (av_target a))"
    and "pred_option valid_str (map_option pa_id (av_parent a))"
  using assms by (simp_all add: activity_parts option.pred_set option.set_map)

lemma message_of_typed:
  assumes "typed_captures E" "activity_typed a"
  shows "message_typed (message_of E a)"
  using mentions_typed [OF assms(1) activity_typedD(9) [OF assms(2)]] room_type_typed [of a] assms(2)
  by (simp add: message_typed_def message_of_def Let_def activity_typedD [OF assms(2)] valid_empty unwrap_valid)

section \<open>Decryption\<close>

lemma from_utf8_valid: "from_utf8 bs = Inr t \<Longrightarrow> valid_str t"
  by (auto simp: from_utf8_def valid_str_def split: if_splits)

lemma decrypt_text_typed: "decrypt_text E k x = Ok y \<Longrightarrow> pred_option valid_str x \<Longrightarrow> pred_option valid_str y"
  by (auto simp: decrypt_text_def from_utf8_valid split: option.splits if_splits outcome.splits sum.splits)

lemma decrypt_inputs_typed:
  "typed_json E \<Longrightarrow> decrypt_inputs E k ob = Ok y \<Longrightarrow> pred_option json_typed (ob_inputs ob) \<Longrightarrow> pred_option json_typed y"
  by (auto simp: decrypt_inputs_def typed_json_def split: option.splits if_splits outcome.splits sum.splits)

lemma decrypt_object_typed:
  assumes "typed_json E" "decrypt_object E k (av_object a) = Ok ob" "activity_typed a"
  shows "activity_typed (a\<lparr>av_object := ob\<rparr>)"
proof -
  from assms(2) obtain n c i where d: "decrypt_text E k (ob_display_name (av_object a)) = Ok n"
    "decrypt_text E k (ob_content (av_object a)) = Ok c" "decrypt_inputs E k (av_object a) = Ok i"
    and ob: "ob = (av_object a)\<lparr>ob_display_name := n, ob_content := c, ob_inputs := i\<rparr>"
    by (auto simp: decrypt_object_def bind_ok_eq_Ok)
  note typed = activity_typedD [OF assms(3)]
  have "pred_option valid_str n" "pred_option valid_str c" "pred_option json_typed i"
    using decrypt_text_typed [OF d(1) typed(8)] decrypt_text_typed [OF d(2) typed(9)]
      decrypt_inputs_typed [OF assms(1) d(3) typed(10)] by blast+
  then show ?thesis using assms(3)
    unfolding ob activity_typed_def activity_valid_def object_valid_def option.pred_set by simp
qed

lemma decrypt_activity_typed:
  assumes "typed_json E" "activity_typed a" "decrypt_activity E a s = (Ok b, s')"
  shows "activity_typed b"
proof (cases "find_key_url a")
  case None
  with assms(2,3) show ?thesis by (simp add: decrypt_activity_def effect_defs)
next
  case (Some u)
  with assms(3) obtain k ob where "decrypt_object E k (av_object a) = Ok ob" "b = a\<lparr>av_object := ob\<rparr>"
    by (auto simp: decrypt_activity_def bindM_Ok liftM_def returnM_def)
  with decrypt_object_typed [OF assms(1) this(1) assms(2)] show ?thesis by simp
qed

lemma events_for_typed:
  assumes "typed_captures E" "activity_typed a" "\<And>b. d = Ok b \<Longrightarrow> activity_typed b"
  shows "list_all event_typed (events_for E i a d)"
proof -
  have action: "valid_str ''created''" "valid_str ''updated''" by code_simp+
  have card: "event_typed (AttachmentActionCreated (attachment_action_of b))" if b: "activity_typed b" for b
    by (simp add: attachment_action_of_def b activity_typedD [OF b] valid_empty unwrap_valid)
  note plain = assms(2) activity_typedD [OF assms(2)] room_type_typed action membership_of_def room_activity_of_def
  show ?thesis
  proof (cases "class_of a")
    case (Some c)
    with card [OF assms(2)] card [OF assms(3)] message_of_typed [OF assms(1,3)] show ?thesis
      by (cases c; cases d) (simp_all add: events_for_def plain)
  qed (simp add: events_for_def)
qed

section \<open>The system\<close>

fun mercury_event_typed :: "mercury_event \<Rightarrow> bool" where
  "mercury_event_typed (EvActivity a) = activity_typed a"
| "mercury_event_typed ev = True"

definition handler_typed :: "webex_message_handler \<Rightarrow> bool" where
  "handler_typed h \<longleftrightarrow> list_all mercury_event_typed (ms_events (wh_mercury h)) \<and> list_all activity_typed (wh_tasks h) \<and>
     list_all event_typed (wh_events h)"

definition channel_typed :: "channel_state \<Rightarrow> bool" where
  "channel_typed x \<longleftrightarrow> (case x of (cs, s, ch) \<Rightarrow> handler_typed (fst s) \<and> list_all event_typed (pipeline ch))"

lemma event_of_typed:
  assumes "json_typed j"
  shows "list_all mercury_event_typed (opt_list (event_of j))"
proof -
  have "activity_typed (a\<lparr>av_object := finalize_inputs (av_object a)\<rparr>)"
    if "json_get ''data'' j = Some d" "Option.bind (json_get ''activity'' d) de_activity = Some a" for d a
  proof -
    from that(2) obtain r where r: "json_get ''activity'' d = Some r" "de_activity r = Some a" by (auto simp: bind_eq_Some_conv)
    have "json_typed r" by (rule get_typed [OF get_typed [OF assms that(1)] r(1)])
    with read_activity r(2) have "activity_typed a" unfolding reads_def by (metis option.pred_inject(2))
    then show ?thesis by (rule finalize_typed)
  qed
  then show ?thesis by (auto simp: event_of_def opt_list_def split: option.split)
qed

lemma task_step_typed:
  assumes "task_step E m m'" "typed_json E" "list_all mercury_event_typed (ms_events m)"
  shows "list_all mercury_event_typed (ms_events m')"
  using assms
proof (induction rule: task_step.induct)
  case (step_text st msg)
  then show ?case
    by (auto simp: read_text_def handle_message_shape event_of_typed typed_json_def split: sum.split)
qed (auto simp: read_close_def handle_close_static_def read_error_def read_end_def wake_def reconnect_needed_def ping_tick_def
    attempts_reset_fires_def emit_def write_frame_def cancel_stability_timer_def Let_def split: option.split)

lemma connect_events: "wp (connect E url token) (\<lambda>r t. ms_events (fst t) = ms_events (fst s)) s"
  using connect_post [where E = E and url = url and token = token and st = "fst s" and w = "snd s"]
  by (auto simp: wp_def split: prod.splits)

lemma call_step_typed: "wp (call_step E c) (\<lambda>r t. handler_typed (fst s) \<longrightarrow> handler_typed (fst t)) s"
proof (cases "\<exists>start token reg. c = ConnectSocket start token reg")
  case True
  then show ?thesis
    by (auto simp: call_step_def handler_typed_def wp_simps intro!: wp_weaken [OF connect_events] split: outcome.split)
next
  case False
  then show ?thesis
    by (cases c) (auto simp: call_step_def handler_typed_def with_kms_def me_identity_def sendM_def report_metric_def wp_simps wp_True
        start_mercury_event_loop_def take_event_rx_def split_beta disconnect_def emit_def cancel_stability_timer_def split: outcome.split option.split)
qed

lemma loop_event_typed:
  "mercury_event_typed ev \<Longrightarrow> wp (loop_event E ev) (\<lambda>r t. handler_typed (fst s) \<longrightarrow> handler_typed (fst t)) s"
  by (cases ev) (auto simp: handler_typed_def with_kms_def sendM_def wp_simps wp_True split: outcome.split option.split)

lemma loop_step_typed: "handler_step E LoopStep s s' \<Longrightarrow> handler_typed (fst s) \<Longrightarrow> handler_typed (fst s')"
proof (induction LoopStep s s' rule: handler_step.induct)
  case (loop_receives h w r s')
  then have "mercury_event_typed (ms_events (wh_mercury h) ! wh_seen h)" by (simp add: handler_typed_def list_all_length)
  from wpD [OF loop_event_typed [OF this] loop_receives(3)] loop_receives(4) show ?case
    by (simp add: handler_typed_def loop_after_def)
qed (simp add: handler_typed_def sweep_def)

lemma activity_task_typed:
  assumes "typed_json E" "typed_captures E" "activity_task E a (h, w) = (r, t)" "activity_typed a" "handler_typed h"
  shows "handler_typed (fst t)"
proof -
  note keep = activity_task_ready [OF assms(3)]
  have "list_all event_typed (wh_events (fst t))"
  proof (cases "wh_kms_client h")
    case None
    with assms(3,5) show ?thesis by (auto simp: activity_task_def effect_defs handler_typed_def)
  next
    case (Some k)
    have "activity_typed b" if "decryption_of E a k w = Ok b" for b
      using that assms(4) decrypt_activity_typed [OF assms(1,4)]
      by (auto simp: decryption_of_def split: if_splits dest: prod_eqI) (metis prod.collapse)
    with events_for_typed [OF assms(2,4)] activity_task_events [OF assms(3) Some] assms(5) show ?thesis
      by (simp add: handler_typed_def)
  qed
  with keep assms(5) show ?thesis by (simp add: handler_typed_def)
qed

section \<open>The channel\<close>

lemma one_send_typed:
  assumes "list_all P (pipeline ch)" "P ev"
  shows "list_all P (pipeline (channel_try_send ev ch))" "list_all P (pipeline (loop_send ev ch))"
    "list_all P (pipeline (task_send ev ch))"
proof -
  have offer: "list_all P (pipeline ch')" if "channel_offer ev ch = Some ch'" for ch'
    using offer_Some(3) [OF that] assms by (simp add: pipeline_def waiting_def)
  have waits: "list_all P (pipeline (ch\<lparr>ch_loop_waits := Some ev\<rparr>))" "list_all P (pipeline (ch\<lparr>ch_task_waits := Some ev\<rparr>))"
    using assms by (simp_all add: pipeline_def waiting_def)
  show "list_all P (pipeline (channel_try_send ev ch))" "list_all P (pipeline (loop_send ev ch))" "list_all P (pipeline (task_send ev ch))"
    using assms(1) offer waits by (simp_all add: channel_try_send_def loop_send_def task_send_def split: option.split)
qed

lemma fold_keeps:
  assumes "\<And>x s. I s \<Longrightarrow> P x \<Longrightarrow> I (f x s)" "list_all P xs" "I s"
  shows "I (fold f xs s)"
  using assms(2,3) by (induction xs arbitrary: s) (simp_all add: assms(1))

lemma send_typed:
  assumes "list_all P evs" "list_all P (pipeline ch)"
  shows "list_all P (pipeline (fold channel_try_send evs ch))" "list_all P (pipeline (fold loop_send evs ch))"
    "list_all P (pipeline (fold task_send evs ch))"
  using assms by (auto intro!: fold_keeps [where I = "\<lambda>ch. list_all P (pipeline ch)"] one_send_typed)

lemma new_events_typed: "handler_typed (fst s') \<Longrightarrow> list_all event_typed (new_events s s')"
  by (auto simp: handler_typed_def new_events_def list_all_iff dest: in_set_dropD)

lemma handover_typed:
  assumes "handler_typed (fst s')" "list_all event_typed (pipeline ch)"
  shows "channel_typed (cs, s', fold channel_try_send (new_events s s') ch)" "channel_typed (cs, s', fold loop_send (new_events s s') ch)"
    "channel_typed (cs, s', fold task_send (new_events s s') ch)"
  using send_typed [OF new_events_typed [OF assms(1)] assms(2)] assms(1) by (simp_all add: channel_typed_def)

lemma buffer_moves_typed:
  "channel_recv ch = Some (ev, ch') \<Longrightarrow> list_all P (pipeline ch) \<Longrightarrow> list_all P (pipeline ch')"
  "list_all P (pipeline ch) \<Longrightarrow> list_all P (pipeline (channel_close ch))"
  "ch_loop_waits ch = Some ev \<Longrightarrow> buffer_put ev ch = Some ch' \<Longrightarrow> list_all P (pipeline ch) \<Longrightarrow> list_all P (pipeline (ch'\<lparr>ch_loop_waits := None\<rparr>))"
  "ch_task_waits ch = Some ev \<Longrightarrow> buffer_put ev ch = Some ch' \<Longrightarrow> list_all P (pipeline ch) \<Longrightarrow> list_all P (pipeline (ch'\<lparr>ch_task_waits := None\<rparr>))"
  by (auto simp: pipeline_def waiting_def channel_recv_def channel_close_def buffer_put_def split: list.splits if_splits option.splits)

lemma channel_step_typed:
  assumes "channel_step E T l x y" "typed_json E" "typed_captures E" "channel_typed x"
  shows "channel_typed y"
  using assms(1,4)
proof (induction rule: channel_step.induct)
  case (call_moves c s c' s' ch as bs)
  with wpD [OF call_step_typed call_moves(1)] show ?case by (auto simp: channel_typed_def [of "(as @ c # bs, s, ch)"] intro: handover_typed)
next
  case (call_dies c s p s' ch as bs)
  with wpD [OF call_step_typed call_dies(1)] show ?case by (auto simp: channel_typed_def [of "(as @ c # bs, s, ch)"] intro: handover_typed)
next
  case (loop_acts s s' ch cs)
  with loop_step_typed [OF loop_acts(1)] show ?case by (auto simp: channel_typed_def [of "(cs, s, ch)"] intro: handover_typed)
next
  case (activity_runs h as a bs ch w r s' cs)
  from activity_task_typed [OF assms(2,3) activity_runs(3)] activity_runs show ?case
    by (auto simp: channel_typed_def [of "(cs, (h, w), ch)"] handler_typed_def [of h] handler_typed_def [of "h\<lparr>wh_tasks := ts\<rparr>" for ts]
        intro!: handover_typed)
next
  case (socket_acts h m cs w ch)
  with task_step_typed [OF socket_acts(1) assms(2)] show ?case by (auto simp: channel_typed_def handler_typed_def)
next
  case (receiver_taken cs h w ch)
  then show ?case by (auto simp: channel_typed_def handler_typed_def handler_take_event_rx_def)
qed (auto simp: channel_typed_def handler_typed_def dest: buffer_moves_typed)


end
