(* ===== verification/Live_Pipeline.thy ===== *)
theory Live_Pipeline
  imports Typing
begin

text \<open>
  Runs of the whole system: a successful \<open>connect\<close> leaves the handler ready for the next frame, the
  consumer can always drain the channel, and a consumer that does not receive lets it run full.
\<close>

section \<open>After connecting\<close>

text \<open>A handler that was never connected, and what holds while its first \<open>connect\<close> is on its way.\<close>

definition fresh :: "webex_message_handler \<Rightarrow> bool" where
  "fresh h \<longleftrightarrow> \<not> ms_rx_taken (wh_mercury h) \<and> ms_events (wh_mercury h) = [] \<and> wh_seen h = 0"

fun on_the_way :: "call \<Rightarrow> webex_message_handler \<Rightarrow> bool" where
  "on_the_way (ConnectSocket start token reg) h \<longleftrightarrow> fresh h \<and> wh_kms_client h \<noteq> None"
| "on_the_way (ConnectLoop start reg) h \<longleftrightarrow> fresh h \<and> wh_kms_client h \<noteq> None \<and> 0 < ms_reading (wh_mercury h)"
| "on_the_way (ConnectHandshake start reg) h = (\<exists>k. ready h k)"
| "on_the_way (ConnectStore start reg) h = (\<exists>k. ready h k)"
| "on_the_way (ConnectDone start) h = (\<exists>k. ready h k)"
| "on_the_way (ConnectLive start) h = (\<exists>k. ready h k)"
| "on_the_way (ConnectFailed start e) h = True"
| "on_the_way (Returned r) h = (r = Ok () \<longrightarrow> (\<exists>k. ready h k))"
| "on_the_way c h \<longleftrightarrow> rank c \<le> 16 \<and> fresh h"

lemma some_ready:
  "Ex (ready h) \<longleftrightarrow> wh_loop h \<and> wh_seen h = length (ms_events (wh_mercury h)) \<and> 0 < ms_reading (wh_mercury h) \<and> wh_kms_client h \<noteq> None"
  by (auto simp: ready_def)

lemma connect_reads: "wp (connect E url token) (\<lambda>r t. ms_events (fst t) = ms_events (fst s) \<and> ms_rx_taken (fst t) = ms_rx_taken (fst s) \<and>
    (r = Ok () \<longrightarrow> 0 < ms_reading (fst t))) s"
  unfolding connect_def connect_internal_def Let_def
  by (simp add: wp_simps cancel_stability_timer_def schedule_attempts_reset_def write_frame_def split: outcome.split prod.split)

lemma call_step_on_the_way:
  assumes "on_the_way c (fst s)" "returned c = None"
  shows "wp (call_step E c) (\<lambda>r t. \<forall>c'. r = Ok c' \<longrightarrow> on_the_way c' (fst t)) s"
proof (cases "\<exists>start token reg. c = ConnectSocket start token reg")
  case True
  with assms(1) show ?thesis
    by (auto simp: call_step_def wp_simps fresh_def intro!: wp_weaken [OF connect_reads] split: outcome.split)
next
  case False
  with assms show ?thesis
    by (cases c) (auto simp: call_step_def fresh_def some_ready with_kms_def me_identity_def sendM_def report_metric_def wp_simps wp_True
        start_mercury_event_loop_def take_event_rx_def split_beta split: outcome.split option.split)
qed

lemma run_on_the_way:
  assumes "on_the_way c (fst s)" "run_call E c s = (Ok (), t)"
  shows "Ex (ready (fst t))"
  using assms
proof (induction E c s rule: run_call.induct)
  case (1 E c s)
  show ?case
  proof (cases "returned c")
    case (Some r)
    then have "c = Returned r" by (cases c) simp_all
    with 1(2,3) show ?thesis by (simp add: run_returned liftM_def)
  next
    case None
    with 1(3) obtain c' s' where c: "call_step E c s = (Ok c', s')" "run_call E c' s' = (Ok (), t)"
      by (auto simp: run_step bindM_Ok)
    with wpD [OF call_step_on_the_way [OF 1(2) None] c(1)] 1(1) [OF None c(1) [symmetric]] show ?thesis by simp
  qed
qed

text \<open>A first \<open>connect\<close> that succeeds leaves a handler that is ready for the next frame.\<close>

lemma connect_ready: "fresh h \<Longrightarrow> handler_connect E (h, w) = (Ok (), t) \<Longrightarrow> Ex (ready (fst t))"
  using run_on_the_way [of ConnectCheck "(h, w)" E t] by (simp add: run_connect)

lemma live_ready: "Ex (ready (fst live_state))"
proof -
  obtain h' w' where "handler_connect full_env (sample_handler, world_init) = (Ok (), (h', w'))" using sample_live by blast
  then have "handler_connect full_env (sample_handler, world_init) = (Ok (), live_state)" by (simp add: live_state_def)
  then show ?thesis by (rule connect_ready [rotated]) (simp add: fresh_def sample_handler_def mercury_socket_new_def)
qed

section \<open>Draining\<close>

lemma drained: "\<exists>n c. (deliver_step ^^ n) ch c \<and> (\<nexists>d. deliver_step c d)"
proof (induction "backlog ch" arbitrary: ch rule: less_induct)
  case less
  show ?case
  proof (cases "\<exists>c. deliver_step ch c")
    case True
    then obtain c where c: "deliver_step ch c" by blast
    with less [OF deliver_backlog [OF c]] show ?thesis by (meson relpowp_Suc_I2)
  next
    case False
    then show ?thesis by (intro exI [of _ 0] exI [of _ ch]) simp
  qed
qed

lemma live_idle:
  "\<exists>ch. channel_reach full_env {''t''} sample_config ([], live_state, ch) \<and> nobody_waits ch \<and> ch_buffer ch = [] \<and>
    0 < ch_capacity ch \<and> \<not> ch_closed ch"
proof -
  obtain ch where ch: "channel_reach full_env {''t''} sample_config ([], live_state, ch)" "\<not> ch_closed ch" using live_channel by blast
  obtain n c where c: "(deliver_step ^^ n) ch c" "\<nexists>d. deliver_step c d" using drained by blast
  from deliver_run [OF c(1) ch(1)] ch(2) have r: "channel_reach full_env {''t''} sample_config ([], live_state, c)" "\<not> ch_closed c" by simp_all
  have p: "0 < ch_capacity c" using channel_reach_inv [OF r(1)] by (simp add: channel_inv_def)
  with deliver_stuck [OF p c(2)] r show ?thesis by (auto simp: waiting_def nobody_waits_def split: option.splits)
qed

section \<open>Deletions arriving\<close>

text \<open>A frame that announces the deletion of a message.\<close>

definition deletion_frame :: json where
  "deletion_frame = JObject [(''data'', JObject
     [(''activity'', JObject [(''object'', JObject [(''id'', JString ''m1''), (''objectType'', JString ''activity'')]), (''verb'', JString ''delete'')]),
      (''eventType'', JString ''conversation.activity'')])]"

abbreviation deletion :: mercury_activity where
  "deletion \<equiv> \<lparr>av_id = [], av_url = None, av_verb = ''delete'', av_actor = actor_default,
     av_object = object_default\<lparr>ob_id := ''m1'', ob_object_type := ''activity''\<rparr>, av_target = target_default, av_published = [],
     av_encryption_key_url = None, av_parent = None\<rparr>"

abbreviation deletion_event :: handler_event where
  "deletion_event \<equiv> MessageDeleted \<lparr>dl_message_id = ''m1'', dl_room_id = [], dl_person_id = []\<rparr>"

lemma deletion_frame_event: "event_of deletion_frame = Some (EvActivity deletion)"
  by (simp add: event_of_def deletion_frame_def get_str_def json_get_def event_type_of_def as_str_def starts_with_def de_activity_def
      fields_of_def fld_def de_object_def de_opt_def finalize_inputs_def object_default_def)

lemma deletion_frame_length: "length (put_json deletion_frame) \<le> MAX_MESSAGE_BYTES"
  by (simp add: deletion_frame_def put_str_length MAX_MESSAGE_BYTES_def)

lemma deletion_events: "events_for E b deletion d = [deletion_event]"
  by (simp add: events_for_def class_of_def class_table_def object_default_def target_default_def actor_default_def)

lemma deletion_arrives:
  assumes "ready h k" "nobody_waits ch" "json_from_slice E (as_bytes (put_json deletion_frame)) = Inr deletion_frame"
  shows "\<exists>t k'. (channel_step E T Inside)\<^sup>*\<^sup>* (cs, (h, w), ch) (cs, t, task_send deletion_event ch) \<and> ready (fst t) k'"
  using activity_arrives [OF assms(1,2) deletion_frame_length assms(3) deletion_frame_event, where w = w and T = T and cs = cs]
  by (auto simp: deletion_events)

text \<open>As many of them as the buffer has room for fill it, and one more waits.\<close>

lemma deletions_fill:
  assumes "ready h k" "nobody_waits ch" "\<not> ch_closed ch" "json_from_slice E (as_bytes (put_json deletion_frame)) = Inr deletion_frame"
    and "length (ch_buffer ch) + n \<le> ch_capacity ch"
  shows "\<exists>t k' ch'. (channel_step E T Inside)\<^sup>*\<^sup>* (cs, (h, w), ch) (cs, t, ch') \<and> ready (fst t) k' \<and> nobody_waits ch' \<and> \<not> ch_closed ch' \<and>
    ch_capacity ch' = ch_capacity ch \<and> length (ch_buffer ch') = length (ch_buffer ch) + n"
  using assms(5)
proof (induction n)
  case 0
  with assms(1-3) show ?case by (intro exI [of _ "(h, w)"] exI [of _ k] exI [of _ ch]) simp
next
  case (Suc n)
  then obtain t k' c where t: "(channel_step E T Inside)\<^sup>*\<^sup>* (cs, (h, w), ch) (cs, t, c)" "ready (fst t) k'" "nobody_waits c" "\<not> ch_closed c"
    "ch_capacity c = ch_capacity ch" "length (ch_buffer c) = length (ch_buffer ch) + n" by auto
  from deletion_arrives [OF t(2,3) assms(4), where T = T and cs = cs and w = "snd t"] obtain t' k'' where
    t': "(channel_step E T Inside)\<^sup>*\<^sup>* (cs, t, c) (cs, t', task_send deletion_event c)" "ready (fst t') k''" by auto
  have "task_send deletion_event c = c\<lparr>ch_buffer := ch_buffer c @ [deletion_event]\<rparr>"
    using t Suc.prems by (simp add: task_send_def channel_offer_def buffer_put_def)
  with t t' rtranclp_trans [OF t(1) t'(1)] show ?case
    by (intro exI [of _ t'] exI [of _ k''] exI [of _ "task_send deletion_event c"]) (simp add: nobody_waits_def)
qed

lemma stall_reached:
  assumes "ready h k" "nobody_waits ch" "\<not> ch_closed ch" "json_from_slice E (as_bytes (put_json deletion_frame)) = Inr deletion_frame"
    and "length (ch_buffer ch) \<le> ch_capacity ch"
  shows "\<exists>t ch'. (channel_step E T Inside)\<^sup>*\<^sup>* (cs, (h, w), ch) (cs, t, ch') \<and> ch_task_waits ch' = Some deletion_event \<and>
    length (ch_buffer ch') = ch_capacity ch' \<and> \<not> ch_closed ch'"
proof -
  from deletions_fill [OF assms(1-4), where n = "ch_capacity ch - length (ch_buffer ch)" and T = T and cs = cs and w = w] assms(5)
  obtain t k' c where t: "(channel_step E T Inside)\<^sup>*\<^sup>* (cs, (h, w), ch) (cs, t, c)" "ready (fst t) k'" "nobody_waits c" "\<not> ch_closed c"
    "length (ch_buffer c) = ch_capacity c" by auto
  from deletion_arrives [OF t(2,3) assms(4), where T = T and cs = cs and w = "snd t"] obtain t' where
    t': "(channel_step E T Inside)\<^sup>*\<^sup>* (cs, t, c) (cs, t', task_send deletion_event c)" by auto
  have "task_send deletion_event c = c\<lparr>ch_task_waits := Some deletion_event\<rparr>"
    using t by (simp add: task_send_def channel_offer_def buffer_put_def)
  with t t' rtranclp_trans [OF t(1) t'] show ?thesis by (intro exI [of _ t'] exI [of _ "task_send deletion_event c"]) simp
qed

section \<open>On a connected handler\<close>

lemma full_reads_deletion: "json_from_slice full_env (as_bytes (put_json deletion_frame)) = Inr deletion_frame"
  by (simp add: full_env_fields json_parse_put)

lemma live_deletion:
  "\<exists>s ch. channel_reach full_env {''t''} sample_config ([], s, ch) \<and> \<not> ch_closed ch \<and> ch_buffer ch = [deletion_event] \<and> nobody_waits ch"
proof -
  obtain ch where ch: "channel_reach full_env {''t''} sample_config ([], live_state, ch)" "nobody_waits ch" "ch_buffer ch = []"
    "0 < ch_capacity ch" "\<not> ch_closed ch" using live_idle by blast
  obtain k where "ready (fst live_state) k" using live_ready by blast
  from deletion_arrives [OF this ch(2) full_reads_deletion, where T = "{''t''}" and cs = "[]" and w = "snd live_state"] obtain t where
    t: "(channel_step full_env {''t''} Inside)\<^sup>*\<^sup>* ([], live_state, ch) ([], t, task_send deletion_event ch)" by auto
  have "task_send deletion_event ch = ch\<lparr>ch_buffer := [deletion_event]\<rparr>"
    using ch by (simp add: task_send_def channel_offer_def buffer_put_def)
  with ch channel_reach_path [OF ch(1) t] show ?thesis
    by (intro exI [of _ t] exI [of _ "task_send deletion_event ch"]) (simp add: nobody_waits_def)
qed

lemma live_stall:
  "\<exists>s ch. channel_reach full_env {''t''} sample_config ([], s, ch) \<and> ch_task_waits ch = Some deletion_event \<and>
    length (ch_buffer ch) = ch_capacity ch \<and> \<not> ch_closed ch"
proof -
  obtain ch where ch: "channel_reach full_env {''t''} sample_config ([], live_state, ch)" "nobody_waits ch" "ch_buffer ch = []"
    "0 < ch_capacity ch" "\<not> ch_closed ch" using live_idle by blast
  obtain k where "ready (fst live_state) k" using live_ready by blast
  from stall_reached [OF this ch(2,5) full_reads_deletion, where T = "{''t''}" and cs = "[]" and w = "snd live_state"] ch(3,4) obtain t c where
    t: "(channel_step full_env {''t''} Inside)\<^sup>*\<^sup>* ([], live_state, ch) ([], t, c)" "ch_task_waits c = Some deletion_event"
    "length (ch_buffer c) = ch_capacity c" "\<not> ch_closed c" by auto
  with channel_reach_path [OF ch(1) t(1)] show ?thesis by blast
qed

theorem delivery_exact_witness:
  "\<exists>s ch. channel_reach full_env {''t''} sample_config ([], s, ch) \<and>
    filter activity_event (wh_events (fst s)) = filter activity_event (ch_received ch) @ [deletion_event]"
proof -
  obtain s ch where ch: "channel_reach full_env {''t''} sample_config ([], s, ch)" "\<not> ch_closed ch" "ch_buffer ch = [deletion_event]" "nobody_waits ch"
    using live_deletion by blast
  from delivery_exact [OF ch(1,2)] ch show ?thesis
    by (intro exI [of _ s] exI [of _ ch]) (simp add: waiting_def nobody_waits_def)
qed

theorem delivery_completes_witness:
  "\<exists>s ch. channel_reach full_env {''t''} sample_config ([], s, ch) \<and> deletion_event \<in> set (ch_received ch) \<and>
    filter activity_event (ch_received ch) = filter activity_event (wh_events (fst s))"
proof -
  obtain s ch where ch: "channel_reach full_env {''t''} sample_config ([], s, ch)" "\<not> ch_closed ch" "ch_buffer ch = [deletion_event]" "nobody_waits ch"
    using live_deletion by blast
  let ?got = "ch\<lparr>ch_buffer := [], ch_received := ch_received ch @ [deletion_event]\<rparr>"
  have "deliver_step ch ?got" by (rule deliver_recv [of _ deletion_event]) (simp add: channel_recv_def ch)
  then have run: "(deliver_step ^^ Suc 0) ch ?got" by auto
  have "\<nexists>c. deliver_step ?got c" using ch(4) by (auto simp: nobody_waits_def channel_recv_def elim!: deliver_step.cases)
  with delivery_completes [OF ch(1,2) run] deliver_run [OF run ch(1)] show ?thesis by (intro exI [of _ s] exI [of _ ?got]) simp
qed


section \<open>Typed data\<close>

text \<open>An environment whose parser refuses what is not UTF-8.\<close>

definition typed_env :: "(nat, nat, nat) env" where
  "typed_env = sample_env\<lparr>json_from_slice := \<lambda>bs. case json_parse bs of
     Inl e \<Rightarrow> Inl e | Inr j \<Rightarrow> if json_typed j then Inr j else Inl ''invalid unicode code point''\<rparr>"

lemma typed_env_typed: "typed_json typed_env" "typed_captures typed_env"
  by (auto simp: typed_env_def typed_json_def typed_captures_def sample_env_def split: sum.splits if_splits)

lemma deletion_frame_typed: "json_typed deletion_frame"
  by code_simp


text \<open>An activity with every field.\<close>

definition wire_sample :: mercury_activity where
  "wire_sample = \<lparr>av_id = ''a1'', av_url = Some ''u1'', av_verb = ''post'',
     av_actor = \<lparr>ac_id = ''p1'', ac_object_type = ''person'', ac_email_address = Some ''p@e''\<rparr>,
     av_object = \<lparr>ob_id = ''o1'', ob_object_type = ''comment'', ob_display_name = Some ''hi'', ob_content = None, ob_encryption_key_url = None,
       ob_inputs = Some (JObject [(''k'', JBool True)]), ob_inputs_encrypted = None, ob_files = Some [''f1'', ''f2'']\<rparr>,
     av_target = \<lparr>tg_id = ''r1'', tg_object_type = ''conversation'', tg_encryption_key_url = None, tg_tags = [''ONE_ON_ONE'']\<rparr>,
     av_published = ''2024'', av_encryption_key_url = Some ''kms://k/1'', av_parent = Some \<lparr>pa_id = ''m0'', pa_parent_type = ''reply''\<rparr>\<rparr>"

lemma wire_sample_valid: "activity_valid json_wf wire_sample"
  by code_simp


end
