(* ===== verification/Basic_Bot.thy ===== *)
theory Basic_Bot
  imports Live_Pipeline
begin

text \<open>
  \<^verbatim>\<open>examples/basic_bot.rs\<close>: the example bot, a consumer of the library. Its main task creates the
  handler, takes the receiver, connects, waits for Ctrl+C and disconnects, while a second task prints
  every event it receives. The two tasks run beside the handler's own, with what each prints kept
  apart, since their order on the terminal is open.
\<close>

section \<open>What it prints\<close>

datatype printed = Stdout string | Stderr string

text \<open>The line of an event; \<open>dbg\<close> is the \<open>Debug\<close> form of a JSON value.\<close>

definition message_line :: "decrypted_message \<Rightarrow> string" where
  "message_line msg =
     (let room_type = unwrap_or ''unknown'' (dm_room_type msg) in
      ''['' @ dm_person_email msg @ '' in '' @ dm_room_id msg @ '' ('' @ room_type @ '')] '' @ dm_text msg)"

fun bot_line :: "(json \<Rightarrow> string) \<Rightarrow> handler_event \<Rightarrow> printed" where
  "bot_line dbg (MessageCreated msg) = Stdout (message_line msg)"
| "bot_line dbg (MessageUpdated msg) = Stdout (''[EDIT] '' @ message_line msg)"
| "bot_line dbg (MessageDeleted del) =
     Stdout (''Message '' @ dl_message_id del @ '' deleted by '' @ dl_person_id del @ '' in '' @ dl_room_id del)"
| "bot_line dbg (MembershipCreated membership) =
     Stdout (''Membership '' @ mb_action membership @ '': '' @ mb_actor_id membership @ '' affected '' @
       mb_person_id membership @ '' in '' @ mb_room_id membership)"
| "bot_line dbg (AttachmentActionCreated action) =
     Stdout (''Card submitted by '' @ at_person_email action @ '' in '' @ at_room_id action @ '': '' @ dbg (at_inputs action))"
| "bot_line dbg (RoomCreated room) = Stdout (''Room created: '' @ rm_room_id room @ '' by '' @ rm_actor_id room)"
| "bot_line dbg (RoomUpdated room) = Stdout (''Room updated: '' @ rm_room_id room @ '' by '' @ rm_actor_id room)"
| "bot_line dbg HandlerConnected = Stdout ''Connected to Webex''"
| "bot_line dbg (HandlerDisconnected reason) = Stdout (''Disconnected: '' @ reason)"
| "bot_line dbg (HandlerReconnecting n) = Stdout (''Reconnecting (attempt '' @ show_nat (unat n) @ '')...'')"
| "bot_line dbg (HandlerError err) = Stderr (''Error: '' @ err)"

section \<open>The main task\<close>

definition bot_config :: "string \<Rightarrow> config" where
  "bot_config token = config_default\<lparr>cf_token := token\<rparr>"

text \<open>Up to the connection: the variable is read, the handler created and its receiver taken.\<close>

definition bot_boot :: "string + string \<Rightarrow> webex_message_handler result" where
  "bot_boot var =
     (case var of
        Inl e \<Rightarrow> Panic (''WEBEX_BOT_TOKEN environment variable not set: '' @ e)
      | Inr token \<Rightarrow>
          bind_ok (handler_new (bot_config token)) (\<lambda>handler.
          case handler_take_event_rx handler of
            (True, handler') \<Rightarrow> Ok handler'
          | (False, handler') \<Rightarrow> Panic ''Event receiver already taken''))"

text \<open>Where the main task is; \<open>main\<close> returns a boxed error, of which only the text is left.\<close>

datatype bot_stage = Starting | Running | Stopping | Exited "(string, unit) outcome"

record bot =
  bt_stage :: bot_stage
  bt_main_lines :: "printed list"
  bt_event_lines :: "printed list"

definition bot_init :: bot where
  "bot_init = \<lparr>bt_stage = Starting, bt_main_lines = [], bt_event_lines = []\<rparr>"

definition exited :: "bot \<Rightarrow> bool" where
  "exited b \<longleftrightarrow> (\<exists>r. bt_stage b = Exited r)"

definition bot_moves_to :: "bot_stage \<Rightarrow> string \<Rightarrow> bot \<Rightarrow> bot" where
  "bot_moves_to stage line b = b\<lparr>bt_stage := stage, bt_main_lines := bt_main_lines b @ [Stdout line]\<rparr>"

text \<open>
  One step of the process, until it exits: of the handler's tasks or of the call the main task waits
  for, of the printing task, or of the main task itself.
\<close>

inductive bot_step ::
  "(json \<Rightarrow> string) \<Rightarrow> ('sk, 'pk, 'rsa) env \<Rightarrow> bot \<times> channel_state \<Rightarrow> bot \<times> channel_state \<Rightarrow> bool" for dbg E where
  bot_works: "channel_step E {} Inside (cs, s, ch) (cs', s', ch') \<Longrightarrow> \<not> exited b \<Longrightarrow> length cs' = length cs \<Longrightarrow>
    bot_step dbg E (b, (cs, s, ch)) (b, (cs', s', ch'))"
| bot_panics: "call_step E c s = (Panic p, s') \<Longrightarrow> \<not> exited b \<Longrightarrow> locks_client c \<longrightarrow> ch_task_waits ch = None \<Longrightarrow>
    bot_step dbg E (b, ([c], s, ch)) (b\<lparr>bt_stage := Exited (Panic p)\<rparr>, ([], s', fold channel_try_send (new_events s s') ch))"
| bot_prints: "channel_recv ch = Some (ev, ch') \<Longrightarrow> bt_stage b \<in> {Running, Stopping} \<Longrightarrow>
    bot_step dbg E (b, (cs, s, ch)) (b\<lparr>bt_event_lines := bt_event_lines b @ [bot_line dbg ev]\<rparr>, (cs, s, ch'))"
| bot_connected: "bt_stage b = Starting \<Longrightarrow>
    bot_step dbg E (b, ([Returned (Ok ())], s, ch)) (bot_moves_to Running ''Bot is running. Press Ctrl+C to stop.'' b, ([], s, ch))"
| bot_fails: "bt_stage b = Starting \<Longrightarrow>
    bot_step dbg E (b, ([Returned (Err e)], s, ch)) (b\<lparr>bt_stage := Exited (Err (display e))\<rparr>, ([], s, ch))"
| bot_interrupted: "bt_stage b = Running \<Longrightarrow>
    bot_step dbg E (b, ([], s, ch)) (bot_moves_to Stopping (CHR 0x0A # ''Shutting down...'') b, ([DisconnectMark None], s, ch))"
| bot_no_signal: "bt_stage b = Running \<Longrightarrow>
    bot_step dbg E (b, ([], s, ch)) (b\<lparr>bt_stage := Exited (Err io_error)\<rparr>, ([], s, ch))"
| bot_stopped: "bt_stage b = Stopping \<Longrightarrow>
    bot_step dbg E (b, ([Returned r], s, ch)) (bot_moves_to (Exited (Ok ())) ''Disconnected. Goodbye!'' b, ([], s, ch))"

inductive bot_reach ::
  "(json \<Rightarrow> string) \<Rightarrow> ('sk, 'pk, 'rsa) env \<Rightarrow> string \<Rightarrow> bot \<times> channel_state \<Rightarrow> bool" for dbg E token where
  bot_starts: "bot_boot (Inr token) = Ok h \<Longrightarrow>
    bot_reach dbg E token (bot_init, ([ConnectCheck], (h, world_init), channel_new (bot_config token)))"
| bot_goes_on: "bot_reach dbg E token x \<Longrightarrow> bot_step dbg E x y \<Longrightarrow> bot_reach dbg E token y"

section \<open>The bot within the system\<close>

lemma bot_boot_exact:
  "bot_boot var =
     (case var of
        Inl e \<Rightarrow> Panic (''WEBEX_BOT_TOKEN environment variable not set: '' @ e)
      | Inr token \<Rightarrow>
          if token = [] then Err (Internal ''WebexMessageHandler requires a non-empty token string'')
          else Ok (sample_handler\<lparr>wh_token := token, wh_config := bot_config token, wh_rx_taken := True\<rparr>))"
  by (simp add: bot_boot_def handler_new_def bot_config_def config_default_def sample_handler_def validate_mode_def http_adapter_of_def
      from_secs_f64_def channel_capacity_def handler_take_event_rx_def split: sum.split)

lemma inside_any: "channel_step E T Inside x y \<Longrightarrow> length (fst x) = length (fst y) \<Longrightarrow> channel_step E T' Inside x y"
  by (induction Inside x y rule: channel_step.induct) (auto intro: channel_step.intros loop_loses [simplified])

lemma bot_boot_new:
  assumes "bot_boot (Inr token) = Ok h"
  obtains h0 where "handler_new (bot_config token) = Ok h0" "h = snd (handler_take_event_rx h0)"
  using assms by (auto simp: bot_boot_def bind_ok_eq_Ok handler_take_event_rx_def split: if_splits bool.splits)

lemma bot_step_channel:
  assumes "bot_step dbg E (b, x) (b', y)" "channel_reach E {token} config x"
  shows "channel_reach E {token} config y"
  using assms(1)
proof cases
  case (bot_works cs s ch cs' s' ch')
  then show ?thesis using assms(2) inside_any [OF bot_works(4), of "{token}"] by (auto intro: channel_more)
next
  case (bot_panics c s p s' ch)
  then show ?thesis using assms(2) channel_more call_dies [of E c s p s' ch "{token}" "[]" "[]"] by fastforce
next
  case (bot_prints ch ev ch' cs s)
  then show ?thesis using assms(2) by (auto intro: channel_more consumer_receives)
next
  case (bot_interrupted s ch)
  then show ?thesis using assms(2) channel_more [OF _ call_begins [of "DisconnectMark None" "{token}" E "[]" s ch]] by simp
qed (use assms(2) channel_more [OF _ call_ends [of E "{token}" "[]" _ "[]", simplified]] in auto)

lemma bot_reach_channel:
  assumes "bot_reach dbg E token (b, x)"
  shows "channel_reach E {token} (bot_config token) x"
  using assms
proof (induction "(b, x)" arbitrary: b x rule: bot_reach.induct)
  case (bot_starts h)
  then obtain h0 where h0: "handler_new (bot_config token) = Ok h0" "h = snd (handler_take_event_rx h0)" by (rule bot_boot_new)
  have "channel_reach E {token} (bot_config token) ([], (h0, world_init), channel_new (bot_config token))"
    by (rule channel_start [OF h0(1)]) (simp add: bot_config_def)
  then have "channel_reach E {token} (bot_config token) ([], (h, world_init), channel_new (bot_config token))"
    unfolding h0(2) by (rule channel_more) (rule receiver_taken)
  then show ?case by (rule channel_more) (rule call_begins, simp)
next
  case (bot_goes_on x' b x)
  then show ?case by (cases x') (auto intro: bot_step_channel)
qed

section \<open>Nothing is lost\<close>

lemma sends_keep_received:
  "ch_received (fold channel_try_send evs ch) = ch_received ch \<and> ch_closed (fold channel_try_send evs ch) = ch_closed ch"
  "ch_received (fold loop_send evs ch) = ch_received ch \<and> ch_closed (fold loop_send evs ch) = ch_closed ch"
  "ch_received (fold task_send evs ch) = ch_received ch \<and> ch_closed (fold task_send evs ch) = ch_closed ch"
  by (induction evs arbitrary: ch)
    (auto simp: channel_try_send_def loop_send_def task_send_def channel_offer_def buffer_put_def)

lemma inside_received:
  "channel_step E T Inside (cs, s, ch) (cs', s', ch') \<Longrightarrow> ch_received ch' = ch_received ch \<and> ch_closed ch' = ch_closed ch"
  by (induction Inside "(cs, s, ch)" "(cs', s', ch')" rule: channel_step.induct) (auto simp: sends_keep_received buffer_put_def split: if_splits)

lemma recv_received: "channel_recv ch = Some (ev, ch') \<Longrightarrow> ch_received ch' = ch_received ch @ [ev] \<and> ch_closed ch' = ch_closed ch"
  by (auto simp: channel_recv_def split: list.splits)

lemma bot_lines:
  assumes "bot_reach dbg E token x"
  shows "bt_event_lines (fst x) = map (bot_line dbg) (ch_received (snd (snd (snd x)))) \<and> \<not> ch_closed (snd (snd (snd x)))"
  using assms
proof (induction rule: bot_reach.induct)
  case (bot_starts h)
  show ?case by (simp add: bot_init_def channel_new_def)
next
  case (bot_goes_on x y)
  from bot_goes_on(2,3) show ?case
    by (induction rule: bot_step.induct) (auto simp: bot_moves_to_def sends_keep_received dest!: inside_received recv_received)
qed

text \<open>
  The example bot shows everything: whatever the interleaving of the handler, the printing task
  and the main task, the printing task has printed one line for each event it received, in order, and
  the activity events it printed, those buffered and those waiting are together exactly those the
  handler produced.
\<close>

theorem bot_shows_everything:
  assumes "bot_reach dbg E token (b, (cs, s, ch))"
  shows "bt_event_lines b = map (bot_line dbg) (ch_received ch) \<and>
    filter activity_event (ch_received ch @ ch_buffer ch @ waiting ch) = filter activity_event (wh_events (fst s))"
  using bot_lines [OF assms] channel_reach_inv [OF bot_reach_channel [OF assms]]
  by (simp add: channel_inv_def in_order_def pipeline_def)

section \<open>Stopping\<close>

text \<open>Where the call of \<open>disconnect\<close> can be.\<close>

fun stopping :: "call \<Rightarrow> bool" where
  "stopping (DisconnectMark nt) = (nt = None)"
| "stopping (DisconnectSocket nt) = (nt = None)"
| "stopping (DisconnectToken nt) = (nt = None)"
| "stopping (DisconnectUnregister nt token) = (nt = None)"
| "stopping (DisconnectRegistration nt) = (nt = None)"
| "stopping (DisconnectClient nt) = (nt = None)"
| "stopping (DisconnectHandler nt) = (nt = None)"
| "stopping (DisconnectIdentity nt) = (nt = None)"
| "stopping (Returned r) = (r = Ok ())"
| "stopping c = False"

lemma unregister_returns: "wp (unregister E token) (\<lambda>r t. \<not> is_panic r) s"
  using unregister_no_panic [of E token s] by (auto intro: wpI)

lemma stopping_step:
  assumes "stopping c"
  shows "wp (call_step E c) (\<lambda>r t. \<exists>c'. r = Ok c' \<and> stopping c') s"
  using assms
  by (cases c) (auto simp: call_step_def wp_simps split: option.split outcome.split intro!: wp_weaken [OF unregister_returns])

definition bot_inv :: "bot \<times> channel_state \<Rightarrow> bool" where
  "bot_inv x \<longleftrightarrow> (case x of (b, (cs, s, ch)) \<Rightarrow>
     (bt_stage b = Starting \<longrightarrow> (\<exists>c. cs = [c])) \<and> (bt_stage b = Running \<longrightarrow> cs = []) \<and>
     (bt_stage b = Stopping \<longrightarrow> (\<exists>c. cs = [c] \<and> stopping c)))"

lemma inside_one_call:
  assumes "channel_step E T Inside ([c], s, ch) (cs', s', ch')" "length cs' = 1"
  shows "cs' = [c] \<or> (\<exists>c' t. cs' = [c'] \<and> call_step E c s = (Ok c', t))"
  using assms by cases (auto simp: append_eq_Cons_conv Cons_eq_append_conv)

lemma bot_works_inv:
  assumes "channel_step E {} Inside (cs, s, ch) (cs', s', ch')" "length cs' = length cs" "bot_inv (b, (cs, s, ch))"
  shows "bot_inv (b, (cs', s', ch'))"
proof (cases "bt_stage b = Stopping")
  case True
  with assms(3) obtain c where c: "cs = [c]" "stopping c" by (auto simp: bot_inv_def)
  from inside_one_call [OF assms(1) [unfolded c(1)]] assms(2) consider "cs' = [c]" | c' t where "cs' = [c']" "call_step E c s = (Ok c', t)"
    by (auto simp: c(1))
  then show ?thesis
  proof cases
    case 2
    with wpD [OF stopping_step [OF c(2)] 2(2)] True show ?thesis by (simp add: bot_inv_def)
  qed (use c True in \<open>simp add: bot_inv_def\<close>)
next
  case False
  with assms(2,3) show ?thesis by (auto simp: bot_inv_def length_Suc_conv)
qed

lemma bot_reach_inv:
  assumes "bot_reach dbg E token x"
  shows "bot_inv x"
  using assms
proof (induction rule: bot_reach.induct)
  case (bot_starts h)
  show ?case by (simp add: bot_inv_def bot_init_def)
next
  case (bot_goes_on x y)
  from bot_goes_on(2,3) show ?case
  proof (induction rule: bot_step.induct)
    case (bot_works cs s ch cs' s' ch' b)
    then show ?case by (auto intro: bot_works_inv)
  qed (auto simp: bot_inv_def bot_moves_to_def)
qed

text \<open>The printing task empties the channel, and then the call goes on to its end.\<close>

lemma deliver_bot:
  assumes "deliver_step ch ch'" "bt_stage b = Stopping"
  shows "\<exists>ls. bot_step dbg E (b, (cs, s, ch)) (b\<lparr>bt_event_lines := ls\<rparr>, (cs, s, ch'))"
  using assms(1)
proof cases
  case (deliver_recv ev)
  from bot_prints [OF this, of b] assms(2) show ?thesis by blast
next
  case (deliver_loop ev ch1)
  from bot_works [OF loop_admitted [OF deliver_loop(2,3)], where b = b and cs = cs and s = s] assms(2) deliver_loop(1) show ?thesis
    by (intro exI [of _ "bt_event_lines b"]) (simp add: exited_def)
next
  case (deliver_task ev ch1)
  from bot_works [OF task_admitted [OF deliver_task(2,3)], where b = b and cs = cs and s = s] assms(2) deliver_task(1) show ?thesis
    by (intro exI [of _ "bt_event_lines b"]) (simp add: exited_def)
qed

lemma delivers_bot:
  assumes "(deliver_step ^^ n) ch ch'" "bt_stage b = Stopping"
  shows "\<exists>ls. (bot_step dbg E)\<^sup>*\<^sup>* (b, (cs, s, ch)) (b\<lparr>bt_event_lines := ls\<rparr>, (cs, s, ch'))"
  using assms(1)
proof (induction n arbitrary: ch')
  case 0
  then show ?case by (intro exI [of _ "bt_event_lines b"]) simp
next
  case (Suc n)
  then obtain c where c: "(deliver_step ^^ n) ch c" "deliver_step c ch'" by auto
  from Suc.IH [OF c(1)] obtain ls where ls: "(bot_step dbg E)\<^sup>*\<^sup>* (b, (cs, s, ch)) (b\<lparr>bt_event_lines := ls\<rparr>, (cs, s, c))" by blast
  from deliver_bot [OF c(2), of "b\<lparr>bt_event_lines := ls\<rparr>" dbg E cs s] assms(2) obtain ls' where
    "bot_step dbg E (b\<lparr>bt_event_lines := ls\<rparr>, (cs, s, c)) (b\<lparr>bt_event_lines := ls'\<rparr>, (cs, s, ch'))" by auto
  with ls show ?case by (blast intro: rtranclp.rtrancl_into_rtrancl)
qed

text \<open>A step of the handler beside a call that its caller waits for.\<close>

definition works :: "('sk, 'pk, 'rsa) env \<Rightarrow> channel_state \<Rightarrow> channel_state \<Rightarrow> bool" where
  "works E x y \<longleftrightarrow> channel_step E {} Inside x y \<and> length (fst y) = length (fst x)"

lemma works_bot: "(works E)\<^sup>*\<^sup>* x y \<Longrightarrow> \<not> exited b \<Longrightarrow> (bot_step dbg E)\<^sup>*\<^sup>* (b, x) (b, y)"
proof (induction rule: rtranclp_induct)
  case (step y z)
  obtain cs s ch cs' s' ch' where "y = (cs, s, ch)" "z = (cs', s', ch')" by (metis prod_cases3)
  with step(2,4) have "bot_step dbg E (b, y) (b, z)" by (auto simp: works_def intro: bot_works)
  with step show ?case by (auto intro: rtranclp.rtrancl_into_rtrancl)
qed simp

lemma call_runs:
  assumes "\<forall>c s r t. P c s \<longrightarrow> returned c = None \<longrightarrow> call_step E c s = (r, t) \<longrightarrow> (\<exists>c'. r = Ok c' \<and> P c' t)"
    and "P c s" "ch_task_waits ch = None"
  shows "\<exists>r s' ch'. (works E)\<^sup>*\<^sup>* ([c], s, ch) ([Returned r], s', ch') \<and> P (Returned r) s'"
  using assms(2,3)
proof (induction "rank c" arbitrary: c s ch rule: less_induct)
  case less
  show ?case
  proof (cases "returned c")
    case (Some r)
    then have "c = Returned r" by (cases c) simp_all
    with less.prems(1) show ?thesis by (intro exI [of _ r] exI [of _ s] exI [of _ ch]) simp
  next
    case None
    obtain r t where "call_step E c s = (r, t)" using prod.exhaust by blast
    with assms(1) less.prems(1) None obtain c' where c: "call_step E c s = (Ok c', t)" "P c' t" by blast
    let ?ch = "fold channel_try_send (new_events s t) ch"
    have "works E ([c], s, ch) ([c'], t, ?ch)"
      using call_moves [OF c(1), of ch "{}" "[]" "[]"] less.prems(2) by (simp add: works_def)
    moreover have "rank c' < rank c" using call_step_less [OF c(1) [symmetric] None] .
    moreover have "ch_task_waits ?ch = None" using try_send_keeps [of "new_events s t" ch] less.prems(2) by simp
    ultimately show ?thesis using less.hyps [of c' t ?ch] c(2) by (blast intro: converse_rtranclp_into_rtranclp)
  qed
qed

lemma stopping_works:
  assumes "stopping c" "ch_task_waits ch = None"
  shows "\<exists>s' ch'. (works E)\<^sup>*\<^sup>* ([c], s, ch) ([Returned (Ok ())], s', ch')"
proof -
  have "\<forall>c s r t. stopping c \<longrightarrow> returned c = None \<longrightarrow> call_step E c s = (r, t) \<longrightarrow> (\<exists>c'. r = Ok c' \<and> stopping c')"
    using wpD [OF stopping_step] by blast
  from call_runs [OF this assms] show ?thesis by auto
qed

lemma stopping_runs:
  assumes "stopping c" "ch_task_waits ch = None" "bt_stage b = Stopping"
  shows "\<exists>s' ch'. (bot_step dbg E)\<^sup>*\<^sup>* (b, ([c], s, ch)) (b, ([Returned (Ok ())], s', ch'))"
proof -
  have "\<not> exited b" using assms(3) by (simp add: exited_def)
  with stopping_works [OF assms(1,2), of E s] works_bot show ?thesis by blast
qed

text \<open>
  C17. The example bot can always stop: once Ctrl+C was received, whatever is buffered, waits to be
  handed over or is locked, printing what the channel holds lets \<open>disconnect\<close> run to its end, and
  the bot says goodbye and exits successfully.
\<close>

theorem bot_stops:
  assumes "bot_reach dbg E token (b, (cs, s, ch))" "bt_stage b = Stopping"
  shows "\<exists>b' s' ch'. (bot_step dbg E)\<^sup>*\<^sup>* (b, (cs, s, ch)) (b', ([], s', ch')) \<and> bt_stage b' = Exited (Ok ()) \<and>
    bt_main_lines b' = bt_main_lines b @ [Stdout ''Disconnected. Goodbye!'']"
proof -
  obtain c where c: "cs = [c]" "stopping c" using bot_reach_inv [OF assms(1)] assms(2) by (auto simp: bot_inv_def)
  obtain n d where d: "(deliver_step ^^ n) ch d" "\<nexists>x. deliver_step d x" using drained by blast
  from deliver_run [OF d(1) bot_reach_channel [OF assms(1)]] have "0 < ch_capacity d"
    by (auto dest: channel_reach_inv simp: channel_inv_def)
  with deliver_stuck [OF _ d(2)] have free: "ch_task_waits d = None" by (auto simp: waiting_def split: option.splits)
  from delivers_bot [OF d(1) assms(2)] obtain ls where
    1: "(bot_step dbg E)\<^sup>*\<^sup>* (b, ([c], s, ch)) (b\<lparr>bt_event_lines := ls\<rparr>, ([c], s, d))" by blast
  from stopping_runs [OF c(2) free, of "b\<lparr>bt_event_lines := ls\<rparr>" dbg E s] assms(2) obtain s' ch' where
    2: "(bot_step dbg E)\<^sup>*\<^sup>* (b\<lparr>bt_event_lines := ls\<rparr>, ([c], s, d)) (b\<lparr>bt_event_lines := ls\<rparr>, ([Returned (Ok ())], s', ch'))"
    by auto
  have 3: "bot_step dbg E (b\<lparr>bt_event_lines := ls\<rparr>, ([Returned (Ok ())], s', ch'))
      (bot_moves_to (Exited (Ok ())) ''Disconnected. Goodbye!'' (b\<lparr>bt_event_lines := ls\<rparr>), ([], s', ch'))"
    by (rule bot_stopped) (simp add: assms(2))
  have "(bot_step dbg E)\<^sup>*\<^sup>* (b, ([c], s, ch)) (b\<lparr>bt_event_lines := ls\<rparr>, ([Returned (Ok ())], s', ch'))" using 1 2 by (rule rtranclp_trans)
  then have "(bot_step dbg E)\<^sup>*\<^sup>* (b, ([c], s, ch)) (bot_moves_to (Exited (Ok ())) ''Disconnected. Goodbye!'' (b\<lparr>bt_event_lines := ls\<rparr>), ([], s', ch'))"
    using 3 by (rule rtranclp.rtrancl_into_rtrancl)
  then show ?thesis unfolding c(1)
    by (intro exI [of _ "bot_moves_to (Exited (Ok ())) ''Disconnected. Goodbye!'' (b\<lparr>bt_event_lines := ls\<rparr>)"] exI [of _ s'] exI [of _ ch'])
      (simp add: bot_moves_to_def)
qed

section \<open>A bot that runs\<close>

lemma full_env_welcomes:
  assumes "wh_token h = ''t''" "wh_device_manager h = device_manager_new" "\<not> wh_connecting h" "\<not> wh_connected h"
  shows "\<exists>t. handler_connect full_env (h, world_init) = (Ok (), t)"
proof -
  obtain reg dm w1 where r: "register full_env (wh_token sample_handler) (wh_device_manager sample_handler, world_init\<lparr>w_ticks := Suc (w_ticks world_init)\<rparr>) =
      (Ok reg, (dm, w1))" and i: "\<exists>resp data i. http_do full_env (w_sent w1) (me_request (wh_token sample_handler)) = Inr resp \<and> rs_ok resp \<and>
      json_from_slice full_env (rs_body resp) = Inr data \<and> get_str ''id'' data = Some i" by (rule sample_attempt)
  have "\<exists>h' w. handler_connect full_env (h, world_init) = (Ok (), (h', w)) \<and> hs_status (status_of h') = Connected"
    by (rule connect_gets_there) (use r i full_env_connects full_handshake assms in \<open>auto simp: sample_handler_def\<close>)
  then show ?thesis by blast
qed

lemma bot_reach_path: "(bot_step dbg E)\<^sup>*\<^sup>* x y \<Longrightarrow> bot_reach dbg E token x \<Longrightarrow> bot_reach dbg E token y"
  by (induction rule: rtranclp_induct) (auto intro: bot_goes_on)

lemma connect_works:
  assumes "handler_connect E s = (Ok (), t)" "ch_task_waits ch = None"
  shows "\<exists>s' ch'. (works E)\<^sup>*\<^sup>* ([ConnectCheck], s, ch) ([Returned (Ok ())], s', ch')"
proof -
  let ?P = "\<lambda>c s. run_call E c s = (Ok (), t)"
  have "\<forall>c s r s'. ?P c s \<longrightarrow> returned c = None \<longrightarrow> call_step E c s = (r, s') \<longrightarrow> (\<exists>c'. r = Ok c' \<and> ?P c' s')"
    by (auto simp: run_step bindM_Ok)
  moreover have "?P ConnectCheck s" using assms(1) by (simp add: run_connect)
  ultimately obtain r s' ch' where r: "(works E)\<^sup>*\<^sup>* ([ConnectCheck], s, ch) ([Returned r], s', ch')" "?P (Returned r) s'"
    using call_runs [of ?P E ConnectCheck s ch] assms(2) by blast
  from r(2) have "r = Ok ()" by (simp add: run_returned liftM_def)
  with r(1) show ?thesis by blast
qed

lemma bot_runs: "\<exists>b s ch. bot_reach dbg full_env ''t'' (b, ([], s, ch)) \<and> bt_stage b = Running"
proof -
  let ?h = "sample_handler\<lparr>wh_rx_taken := True\<rparr>"
  have "sample_handler\<lparr>wh_token := ''t'', wh_config := bot_config ''t'', wh_rx_taken := True\<rparr> = ?h"
    by (simp add: sample_handler_def bot_config_def sample_config_def)
  then have boot: "bot_boot (Inr ''t'') = Ok ?h" by (simp add: bot_boot_exact)
  have start: "ch_task_waits (channel_new (bot_config ''t'')) = None" "\<not> exited bot_init"
    by (simp_all add: channel_new_def exited_def bot_init_def)
  have "\<exists>t. handler_connect full_env (?h, world_init) = (Ok (), t)" by (rule full_env_welcomes) (simp_all add: sample_handler_def)
  with connect_works [OF _ start(1)] obtain s' ch
    where r: "(works full_env)\<^sup>*\<^sup>* ([ConnectCheck], (?h, world_init), channel_new (bot_config ''t'')) ([Returned (Ok ())], s', ch)" by blast
  from bot_reach_path [OF works_bot [OF r start(2)] bot_starts [OF boot]]
  have "bot_reach dbg full_env ''t'' (bot_init, ([Returned (Ok ())], s', ch))" .
  then have "bot_reach dbg full_env ''t'' (bot_moves_to Running ''Bot is running. Press Ctrl+C to stop.'' bot_init, ([], s', ch))"
    by (rule bot_goes_on) (rule bot_connected, simp add: bot_init_def)
  then show ?thesis by (intro exI conjI) (assumption, simp add: bot_moves_to_def)
qed

theorem bot_shows_everything_witness:
  "\<exists>b s ch. bot_reach (\<lambda>j. ''{}'') full_env ''t'' (b, ([], s, ch)) \<and> bt_stage b = Running \<and>
    bt_event_lines b = map (bot_line (\<lambda>j. ''{}'')) (ch_received ch)"
proof -
  obtain b s ch where b: "bot_reach (\<lambda>j. ''{}'') full_env ''t'' (b, ([], s, ch))" "bt_stage b = Running" using bot_runs by blast
  with bot_shows_everything [OF b(1)] show ?thesis by blast
qed

theorem bot_stops_witness:
  "\<exists>b x b' y. bot_reach (\<lambda>j. ''{}'') full_env ''t'' (b, x) \<and> bt_stage b = Stopping \<and> (bot_step (\<lambda>j. ''{}'') full_env)\<^sup>*\<^sup>* (b, x) (b', y) \<and>
    bt_stage b' = Exited (Ok ())"
proof -
  obtain b s ch where b: "bot_reach (\<lambda>j. ''{}'') full_env ''t'' (b, ([], s, ch))" "bt_stage b = Running" using bot_runs by blast
  let ?b = "bot_moves_to Stopping (CHR 0x0A # ''Shutting down...'') b"
  from bot_goes_on [OF b(1) bot_interrupted [OF b(2)]] have r: "bot_reach (\<lambda>j. ''{}'') full_env ''t'' (?b, ([DisconnectMark None], s, ch))" .
  have st: "bt_stage ?b = Stopping" by (simp add: bot_moves_to_def)
  from bot_stops [OF r st] r st show ?thesis by blast
qed

end
