(* ===== verification/Proxy_Test.thy ===== *)
theory Proxy_Test
  imports Basic_Bot
begin

text \<open>
  \<^verbatim>\<open>examples/test_proxy.rs\<close>: a program that connects through an HTTP proxy and reports whether it worked.
  Its main task connects, then waits up to thirty seconds for a second task that reads events until
  it sees \<open>Connected\<close> or an error. Building the HTTP client is the business of \<open>reqwest\<close>: the parameter
  \<open>build\<close> gives the client for a proxy URL, or the error.
\<close>

section \<open>The two tasks\<close>

definition proxy_url :: "string + string \<Rightarrow> string" where
  "proxy_url var = (case var of Inr url \<Rightarrow> url | Inl e \<Rightarrow> ''http://localhost:8080'')"

definition proxy_config :: "string \<Rightarrow> handle \<Rightarrow> config" where
  "proxy_config token client = config_default\<lparr>cf_token := token, cf_client := Some client\<rparr>"

text \<open>Up to the connection; of the boxed error of \<open>main\<close> only the text is left.\<close>

definition proxy_boot ::
  "(string \<Rightarrow> string + handle) \<Rightarrow> string + string \<Rightarrow> string + string \<Rightarrow> (string, config \<times> webex_message_handler) outcome" where
  "proxy_boot build token_var proxy_var =
     (case token_var of
        Inl e \<Rightarrow> Panic (''WEBEX_BOT_TOKEN environment variable not set: '' @ e)
      | Inr token \<Rightarrow>
          bind_ok (of_sum id (build (proxy_url proxy_var))) (\<lambda>client.
          let config = proxy_config token client in
          bind_ok (map_err display (handler_new config)) (\<lambda>handler.
          case handler_take_event_rx handler of
            (True, handler') \<Rightarrow> Ok (config, handler')
          | (False, handler') \<Rightarrow> Panic ''Event receiver already taken'')))"

text \<open>What the reading task does with an event: its verdict when it returns one, and what it prints.\<close>

fun proxy_reaction :: "handler_event \<Rightarrow> bool option \<times> printed list" where
  "proxy_reaction HandlerConnected =
     (Some True,
      [Stdout (CHR 0x0A # ''SUCCESS: Connected through proxy!''), Stdout ''   - Device registered (via proxy)'',
       Stdout ''   - Mercury WebSocket connected (direct)'', Stdout ''   - KMS initialized (via proxy)''])"
| "proxy_reaction (HandlerError err) = (Some False, [Stderr (CHR 0x0A # ''ERROR: '' @ err)])"
| "proxy_reaction ev = (None, [])"

datatype proxy_end = Passed | ExitOne | MainErr string | MainPanic string

datatype proxy_stage = Dialling | Watching | Settling | Leaving | Ended proxy_end

record proxy =
  px_stage :: proxy_stage
  px_verdict :: "bool option"
  px_main_lines :: "printed list"
  px_watch_lines :: "printed list"

definition proxy_init :: "string \<Rightarrow> proxy" where
  "proxy_init url =
     \<lparr>px_stage = Dialling, px_verdict = None,
      px_main_lines = map Stdout [CHR 0x0A # ''=== Webex Proxy Test (Rust) ==='', ''Using proxy: '' @ url,
        ''Note: HTTP requests go through proxy; WebSocket connects directly'' @ [CHR 0x0A],
        ''Connecting to Webex through proxy...''],
      px_watch_lines = []\<rparr>"

definition proxy_moves_to :: "proxy_stage \<Rightarrow> printed list \<Rightarrow> proxy \<Rightarrow> proxy" where
  "proxy_moves_to stage ls p = p\<lparr>px_stage := stage, px_main_lines := px_main_lines p @ ls\<rparr>"

definition ended :: "proxy \<Rightarrow> bool" where
  "ended p \<longleftrightarrow> (\<exists>r. px_stage p = Ended r)"

text \<open>
  One step of the process until it ends. The reading task drops the receiver when it returns. The
  timeout may strike at any moment before there is a verdict.
\<close>

inductive proxy_step :: "('sk, 'pk, 'rsa) env \<Rightarrow> proxy \<times> channel_state \<Rightarrow> proxy \<times> channel_state \<Rightarrow> bool" for E where
  proxy_works: "works E x y \<Longrightarrow> \<not> ended p \<Longrightarrow> proxy_step E (p, x) (p, y)"
| proxy_panics: "call_step E c s = (Panic e, s') \<Longrightarrow> \<not> ended p \<Longrightarrow> locks_client c \<longrightarrow> ch_task_waits ch = None \<Longrightarrow>
    proxy_step E (p, ([c], s, ch)) (proxy_moves_to (Ended (MainPanic e)) [] p, ([], s', fold channel_try_send (new_events s s') ch))"
| proxy_connected: "px_stage p = Dialling \<Longrightarrow>
    proxy_step E (p, ([Returned (Ok ())], s, ch)) (proxy_moves_to Watching [] p, ([], s, ch))"
| proxy_fails: "px_stage p = Dialling \<Longrightarrow>
    proxy_step E (p, ([Returned (Err e)], s, ch)) (proxy_moves_to (Ended (MainErr (display e))) [] p, ([], s, ch))"
| proxy_sees: "px_stage p = Watching \<Longrightarrow> px_verdict p = None \<Longrightarrow> channel_recv ch = Some (ev, ch') \<Longrightarrow> proxy_reaction ev = (v, ls) \<Longrightarrow>
    proxy_step E (p, (cs, s, ch)) (p\<lparr>px_verdict := v, px_watch_lines := px_watch_lines p @ ls\<rparr>,
      (cs, s, if v = None then ch' else channel_close ch'))"
| proxy_success: "px_stage p = Watching \<Longrightarrow> px_verdict p = Some True \<Longrightarrow>
    proxy_step E (p, x) (proxy_moves_to Settling [] p, x)"
| proxy_failure: "px_stage p = Watching \<Longrightarrow> px_verdict p = Some False \<Longrightarrow>
    proxy_step E (p, x) (proxy_moves_to (Ended ExitOne) [Stderr ''FAILED: Connection error''] p, x)"
| proxy_timeout: "px_stage p = Watching \<Longrightarrow> px_verdict p = None \<Longrightarrow>
    proxy_step E (p, x) (proxy_moves_to (Ended ExitOne) [Stderr ''FAILED: Timeout waiting for connection''] p, x)"
| proxy_leaves: "px_stage p = Settling \<Longrightarrow>
    proxy_step E (p, ([], s, ch)) (proxy_moves_to Leaving [Stdout (CHR 0x0A # ''Proxy validation complete - disconnecting...'')] p,
      ([DisconnectMark None], s, ch))"
| proxy_done: "px_stage p = Leaving \<Longrightarrow>
    proxy_step E (p, ([Returned r], s, ch))
      (proxy_moves_to (Ended Passed) [Stdout (''SUCCESS: Rust proxy test passed'' @ [CHR 0x0A])] p, ([], s, ch))"

inductive proxy_reach ::
  "(string \<Rightarrow> string + handle) \<Rightarrow> ('sk, 'pk, 'rsa) env \<Rightarrow> string \<Rightarrow> string + string \<Rightarrow> proxy \<times> channel_state \<Rightarrow> bool"
  for build E token proxy_var where
  proxy_starts: "proxy_boot build (Inr token) proxy_var = Ok (config, h) \<Longrightarrow>
    proxy_reach build E token proxy_var (proxy_init (proxy_url proxy_var), ([ConnectCheck], (h, world_init), channel_new config))"
| proxy_goes_on: "proxy_reach build E token proxy_var x \<Longrightarrow> proxy_step E x y \<Longrightarrow> proxy_reach build E token proxy_var y"

section \<open>What it reports\<close>

text \<open>The verdict on what was received: the first event that has one.\<close>

fun decisive :: "handler_event \<Rightarrow> bool" where
  "decisive HandlerConnected = True"
| "decisive (HandlerError err) = True"
| "decisive ev = False"

definition verdict_of :: "handler_event list \<Rightarrow> bool option" where
  "verdict_of evs = (case filter decisive evs of [] \<Rightarrow> None | ev # _ \<Rightarrow> Some (ev = HandlerConnected))"

lemma reaction_verdict: "fst (proxy_reaction ev) = (if decisive ev then Some (ev = HandlerConnected) else None)"
  by (cases ev) simp_all

lemma works_received: "works E (cs, s, ch) (cs', s', ch') \<Longrightarrow> ch_received ch' = ch_received ch \<and> ch_closed ch' = ch_closed ch"
  by (auto simp: works_def dest: inside_received)

definition proxy_told :: "proxy \<times> channel_state \<Rightarrow> bool" where
  "proxy_told x \<longleftrightarrow> (case x of (p, (cs, s, ch)) \<Rightarrow>
     px_verdict p = verdict_of (ch_received ch) \<and> ch_closed ch = (px_verdict p \<noteq> None) \<and>
     length (filter decisive (ch_received ch)) \<le> 1 \<and> (px_verdict p \<noteq> None \<longrightarrow> decisive (last (ch_received ch))) \<and>
     (px_stage p = Dialling \<longrightarrow> px_verdict p = None) \<and>
     (px_stage p \<in> {Settling, Leaving, Ended Passed} \<longrightarrow> px_verdict p = Some True) \<and> (px_stage p = Ended ExitOne \<longrightarrow> px_verdict p \<noteq> Some True))"

lemma proxy_step_told: "proxy_step E x y \<Longrightarrow> proxy_told x \<Longrightarrow> proxy_told y"
proof (induction rule: proxy_step.induct)
  case (proxy_works x y p)
  obtain cs s ch cs' s' ch' where "x = (cs, s, ch)" "y = (cs', s', ch')" by (metis prod_cases3)
  with proxy_works works_received [of E cs s ch cs' s' ch'] show ?case by (auto simp: proxy_told_def)
next
  case (proxy_sees p ch ev ch' v ls cs s)
  have "v = (if decisive ev then Some (ev = HandlerConnected) else None)" using reaction_verdict [of ev] proxy_sees(4) by simp
  with proxy_sees recv_received [OF proxy_sees(3)] show ?case
    by (auto simp: proxy_told_def verdict_of_def channel_close_def split: if_splits list.splits)
qed (auto simp: proxy_told_def proxy_moves_to_def sends_keep_received)

section \<open>Where the calls are\<close>

text \<open>The device stays registered from the end of \<open>connect\<close> until \<open>disconnect\<close>.\<close>

fun dialling :: "call \<Rightarrow> bool \<Rightarrow> bool" where
  "dialling (ConnectDone start) reg = reg"
| "dialling (ConnectLive start) reg = reg"
| "dialling (Returned r) reg = (r = Ok () \<longrightarrow> reg)"
| "dialling (ReconnectCheck t) reg = False"
| "dialling (ReconnectToken t) reg = False"
| "dialling (DisconnectMark nt) reg = False"
| "dialling (DisconnectSocket nt) reg = False"
| "dialling (DisconnectToken nt) reg = False"
| "dialling (DisconnectUnregister nt t) reg = False"
| "dialling (DisconnectRegistration nt) reg = False"
| "dialling (DisconnectClient nt) reg = False"
| "dialling (DisconnectHandler nt) reg = False"
| "dialling (DisconnectIdentity nt) reg = False"
| "dialling c reg = True"

abbreviation registered :: "webex_message_handler \<times> world \<Rightarrow> bool" where
  "registered s \<equiv> wh_registration (fst s) \<noteq> None"

lemma dialling_mono: "dialling c reg \<Longrightarrow> (reg \<longrightarrow> reg') \<Longrightarrow> dialling c reg'"
  by (cases c) auto

lemma dialling_step:
  assumes "dialling c (registered s)"
  shows "wp (call_step E c) (\<lambda>r t. \<forall>c'. r = Ok c' \<longrightarrow> dialling c' (registered t)) s"
  using assms
  by (cases c) (auto simp: call_step_def with_kms_def me_identity_def sendM_def report_metric_def wp_simps wp_True
      start_mercury_event_loop_def split_beta split: outcome.split option.split)

lemma loop_event_registered: "wp (loop_event E ev) (\<lambda>r t. registered s \<longrightarrow> registered t) s"
  by (cases ev) (auto simp: with_kms_def sendM_def wp_simps wp_True split: outcome.split option.split)

lemma loop_step_registered: "handler_step E LoopStep s s' \<Longrightarrow> registered s \<Longrightarrow> registered s'"
proof (induction LoopStep s s' rule: handler_step.induct)
  case (loop_receives h w r t)
  from wpD [OF loop_event_registered loop_receives(3)] loop_receives(4) show ?case by (simp add: loop_after_def)
next
  case (loop_sweeps h w now)
  then show ?case by (simp add: sweep_def)
qed

lemma works_registered:
  assumes "works E (cs, s, ch) (cs', s', ch')"
  shows "(\<exists>c c'. cs = [c] \<and> cs' = [c'] \<and> call_step E c s = (Ok c', s')) \<or> cs' = cs \<and> (registered s \<longrightarrow> registered s') \<or> 1 < length cs"
proof -
  have "channel_step E {} Inside (cs, s, ch) (cs', s', ch')" "length cs' = length cs" using assms by (simp_all add: works_def)
  then show ?thesis
  proof cases
    case loop_acts
    then show ?thesis using loop_step_registered by blast
  next
    case (activity_runs h as a bs w r)
    with activity_task_keeps [OF activity_runs(6)] show ?thesis by simp
  qed (auto simp: handler_take_event_rx_def append_eq_Cons_conv Cons_eq_append_conv)
qed

definition proxy_inv :: "proxy \<times> channel_state \<Rightarrow> bool" where
  "proxy_inv x \<longleftrightarrow> (case x of (p, (cs, s, ch)) \<Rightarrow>
     (px_stage p = Dialling \<longrightarrow> (\<exists>c. cs = [c] \<and> dialling c (registered s))) \<and>
     (px_stage p \<in> {Watching, Settling, Ended ExitOne} \<longrightarrow> cs = [] \<and> registered s) \<and>
     (px_stage p = Leaving \<longrightarrow> (\<exists>c. cs = [c] \<and> stopping c)))"

lemma proxy_works_inv:
  assumes "works E (cs, s, ch) (cs', s', ch')" "\<not> ended p" "proxy_inv (p, (cs, s, ch))"
  shows "proxy_inv (p, (cs', s', ch'))"
proof (cases "cs = []")
  case True
  with works_registered [OF assms(1)] assms(2,3) show ?thesis by (cases "px_stage p") (auto simp: proxy_inv_def ended_def)
next
  case False
  then obtain c where c: "cs = [c]" "px_stage p = Dialling \<and> dialling c (registered s) \<or> px_stage p = Leaving \<and> stopping c"
    using assms(2,3) by (cases "px_stage p") (auto simp: proxy_inv_def ended_def)
  with works_registered [OF assms(1)] consider (moves) c' where "cs' = [c']" "call_step E c s = (Ok c', s')"
    | (stays) "cs' = [c]" "registered s \<longrightarrow> registered s'" by auto
  then show ?thesis
  proof cases
    case moves
    from c(2) show ?thesis
      using wpD [OF dialling_step moves(2)] wpD [OF stopping_step moves(2)] moves(1) by (auto simp: proxy_inv_def)
  next
    case stays
    with c(2) show ?thesis using dialling_mono [of c "registered s" "registered s'"] by (auto simp: proxy_inv_def)
  qed
qed

lemma proxy_step_inv: "proxy_step E x y \<Longrightarrow> proxy_inv x \<Longrightarrow> proxy_inv y"
proof (induction rule: proxy_step.induct)
  case (proxy_works x y p)
  obtain cs s ch cs' s' ch' where "x = (cs, s, ch)" "y = (cs', s', ch')" by (metis prod_cases3)
  with proxy_works proxy_works_inv show ?case by blast
qed (auto simp: proxy_inv_def proxy_moves_to_def)

lemma proxy_reach_inv: "proxy_reach build E token v x \<Longrightarrow> proxy_inv x \<and> proxy_told x"
proof (induction rule: proxy_reach.induct)
  case (proxy_starts config h)
  show ?case by (simp add: proxy_inv_def proxy_told_def proxy_init_def channel_new_def verdict_of_def)
next
  case (proxy_goes_on x y)
  then show ?case using proxy_step_inv proxy_step_told by blast
qed

section \<open>The program within the system\<close>

lemma proxy_boot_Ok:
  assumes "proxy_boot build (Inr token) v = Ok (config, h)"
  obtains h0 where "handler_new config = Ok h0" "h = snd (handler_take_event_rx h0)" "cf_token config = token"
proof -
  from assms obtain client h0 where c: "config = proxy_config token client" "handler_new config = Ok h0" "h = snd (handler_take_event_rx h0)"
    by (auto simp: proxy_boot_def bind_ok_eq_Ok Let_def handler_take_event_rx_def split: bool.splits)
  with that show ?thesis by (simp add: proxy_config_def)
qed

lemma proxy_step_channel:
  assumes "proxy_step E (p, x) (p', y)" "channel_reach E {token} config x"
  shows "channel_reach E {token} config y"
  using assms(1)
proof cases
  case proxy_works
  then show ?thesis using assms(2) inside_any [of E "{}" x y "{token}"] by (auto simp: works_def intro: channel_more)
next
  case (proxy_panics c s e s' ch)
  then show ?thesis using assms(2) channel_more call_dies [of E c s e s' ch "{token}" "[]" "[]"] by fastforce
next
  case (proxy_sees ch ev ch' v ls cs s)
  have "channel_reach E {token} config (cs, s, ch')" using assms(2) proxy_sees by (auto intro: channel_more consumer_receives)
  moreover have "channel_reach E {token} config (cs, s, channel_close ch')" by (rule channel_more [OF calculation consumer_closes])
  ultimately show ?thesis using proxy_sees by simp
next
  case (proxy_leaves s ch)
  then show ?thesis using assms(2) channel_more [OF _ call_begins [of "DisconnectMark None" "{token}" E "[]" s ch]] by simp
qed (use assms(2) channel_more [OF _ call_ends [of E "{token}" "[]" _ "[]", simplified]] in auto)

lemma proxy_reach_channel:
  assumes "proxy_reach build E token v (p, x)"
  shows "\<exists>config. channel_reach E {token} config x"
  using assms
proof (induction "(p, x)" arbitrary: p x rule: proxy_reach.induct)
  case (proxy_starts config h)
  then obtain h0 where h0: "handler_new config = Ok h0" "h = snd (handler_take_event_rx h0)" "cf_token config = token" by (rule proxy_boot_Ok)
  have "channel_reach E {token} config ([], (h0, world_init), channel_new config)" by (rule channel_start [OF h0(1)]) (simp add: h0(3))
  then have "channel_reach E {token} config ([], (h, world_init), channel_new config)"
    unfolding h0(2) by (rule channel_more) (rule receiver_taken)
  then show ?case by (intro exI [of _ config], rule channel_more) (rule call_begins, simp)
next
  case (proxy_goes_on x' p x)
  then show ?case by (cases x') (auto intro: proxy_step_channel)
qed

text \<open>
  C18. The proxy test reports what happened: its verdict is that of the first \<open>Connected\<close> or error it
  received, it reads nothing after it, and every event it received was produced by the handler. It
  reports success, after \<open>disconnect\<close>, only when the handler produced \<open>Connected\<close>; when it exits with
  status one, for an error or the timeout, it does so without disconnecting, and the device of the
  handler is still registered.
\<close>

theorem proxy_reports:
  assumes "proxy_reach build E token proxy_var (p, (cs, s, ch))"
  shows "px_verdict p = verdict_of (ch_received ch) \<and> length (filter decisive (ch_received ch)) \<le> 1 \<and>
    (px_verdict p \<noteq> None \<longrightarrow> decisive (last (ch_received ch))) \<and> set (ch_received ch) \<subseteq> set (wh_events (fst s)) \<and>
    (px_stage p = Ended Passed \<longrightarrow> px_verdict p = Some True \<and> HandlerConnected \<in> set (wh_events (fst s))) \<and>
    (px_stage p = Ended ExitOne \<longrightarrow> px_verdict p \<noteq> Some True \<and> wh_registration (fst s) \<noteq> None)"
proof -
  from proxy_reach_channel [OF assms] have r: "set (ch_received ch) \<subseteq> set (wh_events (fst s))"
    by (auto dest!: channel_reach_inv simp: channel_inv_def pipeline_def)
  have "HandlerConnected \<in> set (ch_received ch)" if "verdict_of (ch_received ch) = Some True"
    using that by (auto simp: verdict_of_def filter_eq_Cons_iff split: list.splits)
  moreover have "proxy_inv (p, (cs, s, ch))" "proxy_told (p, (cs, s, ch))" using proxy_reach_inv [OF assms] by blast+
  ultimately show ?thesis using r unfolding proxy_inv_def proxy_told_def prod.case by fastforce
qed

section \<open>A test that runs\<close>

lemma works_proxy: "(works E)\<^sup>*\<^sup>* x y \<Longrightarrow> \<not> ended p \<Longrightarrow> proxy_reach build E token v (p, x) \<Longrightarrow> proxy_reach build E token v (p, y)"
  by (induction rule: rtranclp_induct) (auto intro: proxy_goes_on proxy_works)

text \<open>A success is always within reach: a buffered \<open>Connected\<close> with no error before it is read and the call to disconnect ends.\<close>

lemma proxy_reads:
  assumes "proxy_reach build E token v (p, (cs, s, ch))" "px_stage p = Watching" "px_verdict p = None"
    and "ch_buffer ch = evs @ HandlerConnected # rest" "\<not> list_ex decisive evs"
  shows "\<exists>p' ch'. proxy_reach build E token v (p', (cs, s, ch')) \<and> px_stage p' = Watching \<and> px_verdict p' = Some True \<and> ch_task_waits ch' = None"
  using assms
proof (induction evs arbitrary: p ch)
  case Nil
  obtain ch1 where "channel_recv ch = Some (HandlerConnected, ch1)" using Nil(4) by (auto simp: channel_recv_def)
  obtain ls where "proxy_reaction HandlerConnected = (Some True, ls)" by simp
  let ?p = "p\<lparr>px_verdict := Some True, px_watch_lines := px_watch_lines p @ ls\<rparr>"
  have "proxy_reach build E token v (?p, (cs, s, channel_close ch1))"
    using proxy_goes_on [OF Nil(1) proxy_sees [OF Nil(2,3) \<open>channel_recv ch = _\<close> \<open>proxy_reaction HandlerConnected = _\<close>]] by simp
  with Nil(2) show ?case by (intro exI [of _ ?p] exI [of _ "channel_close ch1"]) (simp add: channel_close_def)
next
  case (Cons ev evs)
  obtain ch1 where ch1: "channel_recv ch = Some (ev, ch1)" "ch_buffer ch1 = evs @ HandlerConnected # rest"
    using Cons.prems(4) by (auto simp: channel_recv_def)
  obtain ls where ls: "proxy_reaction ev = (None, ls)" using Cons.prems(5) by (cases ev) auto
  let ?p = "p\<lparr>px_verdict := None, px_watch_lines := px_watch_lines p @ ls\<rparr>"
  have "proxy_reach build E token v (?p, (cs, s, ch1))"
    using proxy_goes_on [OF Cons.prems(1) proxy_sees [OF Cons.prems(2,3) ch1(1) ls, of E cs s]] by simp
  from Cons.IH [OF this] Cons.prems(2,5) ch1(2) show ?case by simp
qed

lemma proxy_passes:
  assumes "proxy_reach build E token v (p, (cs, s, ch))" "px_stage p = Watching" "px_verdict p = None"
    and "ch_buffer ch = evs @ HandlerConnected # rest" "\<not> list_ex decisive evs"
  shows "\<exists>p' x. proxy_reach build E token v (p', x) \<and> px_stage p' = Ended Passed"
proof -
  from proxy_reads [OF assms] obtain p1 ch1 where p1: "proxy_reach build E token v (p1, (cs, s, ch1))" "px_stage p1 = Watching"
    "px_verdict p1 = Some True" "ch_task_waits ch1 = None" by blast
  have "cs = []" using proxy_reach_inv [OF p1(1)] p1(2) by (simp add: proxy_inv_def)
  let ?p2 = "proxy_moves_to Settling [] p1"
  have "proxy_reach build E token v (?p2, ([], s, ch1))" using proxy_goes_on [OF p1(1) proxy_success [OF p1(2,3)]] \<open>cs = []\<close> by simp
  moreover have "px_stage ?p2 = Settling" by (simp add: proxy_moves_to_def)
  ultimately have l: "proxy_reach build E token v (proxy_moves_to Leaving [Stdout (CHR 0x0A # ''Proxy validation complete - disconnecting...'')] ?p2,
      ([DisconnectMark None], s, ch1))" (is "proxy_reach _ _ _ _ (?p3, _)") by (blast intro: proxy_goes_on proxy_leaves)
  have st: "px_stage ?p3 = Leaving" by (simp add: proxy_moves_to_def)
  obtain s' ch' where "(works E)\<^sup>*\<^sup>* ([DisconnectMark None], s, ch1) ([Returned (Ok ())], s', ch')"
    using stopping_works [of "DisconnectMark None" ch1 E s] p1(4) by auto
  from works_proxy [OF this _ l] st have "proxy_reach build E token v (?p3, ([Returned (Ok ())], s', ch'))" by (simp add: ended_def)
  from proxy_goes_on [OF this proxy_done [OF st]] show ?thesis by (intro exI conjI) (assumption, simp add: proxy_moves_to_def)
qed

theorem proxy_reports_witness:
  "\<exists>p s ch. proxy_reach (\<lambda>url. Inr 7) full_env ''t'' (Inl ''environment variable not found'') (p, ([], s, ch)) \<and>
    px_stage p = Ended ExitOne \<and> wh_registration (fst s) \<noteq> None"
proof -
  let ?v = "Inl ''environment variable not found'' :: string + string" and ?c = "proxy_config ''t'' 7"
  let ?h = "sample_handler\<lparr>wh_http := NativeAdapter (Some 7), wh_config := ?c, wh_rx_taken := True\<rparr>"
  let ?p = "proxy_init (proxy_url ?v)"
  have boot: "proxy_boot (\<lambda>url. Inr 7) (Inr ''t'') ?v = Ok (?c, ?h)"
    by (simp add: proxy_boot_def handler_new_def proxy_config_def config_default_def sample_handler_def validate_mode_def http_adapter_of_def
        from_secs_f64_def channel_capacity_def handler_take_event_rx_def Let_def)
  have "\<exists>t. handler_connect full_env (?h, world_init) = (Ok (), t)" by (rule full_env_welcomes) (simp_all add: sample_handler_def)
  with connect_works [of full_env "(?h, world_init)" _ "channel_new ?c"] obtain s ch
    where "(works full_env)\<^sup>*\<^sup>* ([ConnectCheck], (?h, world_init), channel_new ?c) ([Returned (Ok ())], s, ch)"
    by (auto simp: channel_new_def)
  from works_proxy [OF this _ proxy_starts [OF boot]]
  have "proxy_reach (\<lambda>url. Inr 7) full_env ''t'' ?v (?p, ([Returned (Ok ())], s, ch))" by (simp add: ended_def proxy_init_def)
  moreover have "px_stage ?p = Dialling" by (simp add: proxy_init_def)
  ultimately have w: "proxy_reach (\<lambda>url. Inr 7) full_env ''t'' ?v (proxy_moves_to Watching [] ?p, ([], s, ch))"
    by (blast intro: proxy_goes_on proxy_connected)
  have st: "px_stage (proxy_moves_to Watching [] ?p) = Watching" "px_verdict (proxy_moves_to Watching [] ?p) = None"
    by (simp_all add: proxy_moves_to_def proxy_init_def)
  note e = proxy_goes_on [OF w proxy_timeout [OF st]]
  have "px_stage (proxy_moves_to (Ended ExitOne) ls q) = Ended ExitOne" for ls q by (simp add: proxy_moves_to_def)
  with proxy_reports [OF e] e show ?thesis by blast
qed

end
