(* ===== verification/Regex.thy ===== *)
theory Regex
  imports Prelude
begin

text \<open>
  The regular expressions of the crate as the \<open>regex\<close> library documents them: a pattern text is
  compiled to a sequence of pieces, matched by backtracking with greedy repetition, and searched for
  from left to right. Only the syntax the patterns of the crate use is compiled: literal characters,
  \<open>[^c]*\<close>, one capture group around such a repetition, and the flag \<open>(?i)\<close>.
\<close>

section \<open>Patterns\<close>

text \<open>
  A piece is one character in one of its spellings, a repetition of everything but a character, or
  such a repetition that is captured.
\<close>

datatype piece = One "string list" | Many char | Group char

text \<open>
  The spellings of a character without regard to case: Unicode folds the long s to s and the Kelvin
  sign to k.
\<close>

definition ascii_upper :: "char \<Rightarrow> char" where
  "ascii_upper c = (let n = of_char c :: nat in if 97 \<le> n \<and> n \<le> 122 then char_of (n - 32) else c)"

definition spellings :: "bool \<Rightarrow> char \<Rightarrow> string list" where
  "spellings caseless c =
     (if \<not> caseless then [[c]]
      else
        [[ascii_lower c]] @ (if ascii_upper c = ascii_lower c then [] else [[ascii_upper c]]) @
        (if ascii_lower c = CHR ''s'' then [[CHR 0xC5, CHR 0xBF]] else []) @
        (if ascii_lower c = CHR ''k'' then [[CHR 0xE2, CHR 0x84, CHR 0xAA]] else []))"

text \<open>The meaning of the pattern characters; \<open>None\<close> for syntax outside the subset.\<close>

definition special :: "char \<Rightarrow> bool" where
  "special c \<longleftrightarrow> c \<in> set ''[](){}*+?|^$.'' \<or> c = CHR 0x5C"

function compile_pieces :: "bool \<Rightarrow> string \<Rightarrow> piece list option" where
  "compile_pieces i pat =
     (case pat of
        [] \<Rightarrow> Some []
      | a # rest \<Rightarrow>
          if take 2 pat = ''[^'' \<and> 5 \<le> length pat \<and> take 2 (drop 3 pat) = '']*''
          then map_option (Cons (Many (pat ! 2))) (compile_pieces i (drop 5 pat))
          else if take 3 pat = ''([^'' \<and> 7 \<le> length pat \<and> take 3 (drop 4 pat) = '']*)''
          then map_option (Cons (Group (pat ! 3))) (compile_pieces i (drop 7 pat))
          else if special a then None
          else map_option (Cons (One (spellings i a))) (compile_pieces i rest))"
  by pat_completeness auto
termination
  by (relation "measure (\<lambda>(i, pat). length pat)") auto

declare compile_pieces.simps [simp del]

definition compile :: "string \<Rightarrow> piece list option" where
  "compile pat = (if starts_with ''(?i)'' pat then compile_pieces True (drop 4 pat) else compile_pieces False pat)"

section \<open>Matching\<close>

text \<open>
  A match at the start of a text: the captures and the text after it. Spellings are tried in turn, a
  repetition takes as much as it can and gives back one character at a time.
\<close>

function re_match :: "piece list \<Rightarrow> string \<Rightarrow> (string list \<times> string) option" where
  "re_match [] s = Some ([], s)"
| "re_match (One [] # ps) s = None"
| "re_match (One (a # as) # ps) s =
     (case (if starts_with a s then re_match ps (drop (length a) s) else None) of
        Some r \<Rightarrow> Some r
      | None \<Rightarrow> re_match (One as # ps) s)"
| "re_match (Many c # ps) [] = re_match ps []"
| "re_match (Many c # ps) (x # s) =
     (case (if x = c then None else re_match (Many c # ps) s) of
        Some r \<Rightarrow> Some r
      | None \<Rightarrow> re_match ps (x # s))"
| "re_match (Group c # ps) [] = map_option (\<lambda>(cs, rest). ([] # cs, rest)) (re_match ps [])"
| "re_match (Group c # ps) (x # s) =
     (case (if x = c then None else re_match (Group c # ps) s) of
        Some (cs, rest) \<Rightarrow> Some ((x # hd cs) # tl cs, rest)
      | None \<Rightarrow> map_option (\<lambda>(cs, rest). ([] # cs, rest)) (re_match ps (x # s)))"
  by pat_completeness auto
termination
  by (relation "measures [\<lambda>(ps, s). length ps, \<lambda>(ps, s). case ps of One as # ps \<Rightarrow> length as | _ \<Rightarrow> length s]") auto

text \<open>\<open>captures_iter\<close>: the leftmost match, then on from its end. An empty match is passed over.\<close>

function captures_iter :: "piece list \<Rightarrow> string \<Rightarrow> (string \<times> string list) list" where
  "captures_iter ps [] = []"
| "captures_iter ps (x # s) =
     (case re_match ps (x # s) of
        Some (cs, rest) \<Rightarrow>
          if length rest \<le> length s then (take (Suc (length s) - length rest) (x # s), cs) # captures_iter ps rest
          else captures_iter ps s
      | None \<Rightarrow> captures_iter ps s)"
  by pat_completeness auto
termination
  by (relation "measure (\<lambda>(ps, s). length s)") auto

definition captures :: "piece list \<Rightarrow> string \<Rightarrow> (string \<times> string list) option" where
  "captures ps s = (case captures_iter ps s of [] \<Rightarrow> None | m # ms \<Rightarrow> Some m)"

section \<open>What a match is\<close>

inductive matches :: "piece list \<Rightarrow> string \<Rightarrow> string list \<Rightarrow> bool" where
  matches_end: "matches [] [] []"
| matches_one: "a \<in> set as \<Longrightarrow> matches ps s cs \<Longrightarrow> matches (One as # ps) (a @ s) cs"
| matches_many: "c \<notin> set u \<Longrightarrow> matches ps s cs \<Longrightarrow> matches (Many c # ps) (u @ s) cs"
| matches_group: "c \<notin> set u \<Longrightarrow> matches ps s cs \<Longrightarrow> matches (Group c # ps) (u @ s) (u # cs)"

inductive_cases matches_NilE: "matches [] s cs"
inductive_cases matches_OneE: "matches (One as # ps) s cs"
inductive_cases matches_ManyE: "matches (Many c # ps) s cs"
inductive_cases matches_GroupE: "matches (Group c # ps) s cs"

lemma matches_many_none: "matches ps s cs \<Longrightarrow> matches (Many c # ps) s cs"
  using matches_many [of c "[]"] by simp

lemma matches_group_none: "matches ps s cs \<Longrightarrow> matches (Group c # ps) s ([] # cs)"
  using matches_group [of c "[]"] by simp

lemma matches_many_step: "x \<noteq> c \<Longrightarrow> matches (Many c # ps) s cs \<Longrightarrow> matches (Many c # ps) (x # s) cs"
  by (erule matches_ManyE) (metis append_Cons matches_many set_ConsD)

lemma matches_group_step: "x \<noteq> c \<Longrightarrow> matches (Group c # ps) s cs \<Longrightarrow> matches (Group c # ps) (x # s) ((x # hd cs) # tl cs)"
  by (erule matches_GroupE) (simp, metis append_Cons matches_group set_ConsD)

lemmas matches_steps = matches_end matches_many_none matches_group_none matches_many_step matches_group_step

lemma re_match_sound: "re_match ps s = Some (cs, rest) \<Longrightarrow> \<exists>u. s = u @ rest \<and> matches ps u cs"
proof (induction ps s arbitrary: cs rest rule: re_match.induct)
  case (3 a as ps s)
  then show ?case
    by (auto simp: starts_with_iff split: option.splits if_splits elim!: matches_OneE)
      (metis append.assoc append_eq_conv_conj list.set_intros(1,2) matches_one)+
next
  case (7 c ps x s)
  show ?case
  proof (cases "if x = c then None else re_match (Group c # ps) s")
    case None
    with 7 obtain a where a: "re_match ps (x # s) = Some (a, rest)" "cs = [] # a" by auto
    with 7(2) [OF None a(1)] show ?thesis by (auto intro: matches_group_none)
  next
    case (Some r)
    with 7 show ?thesis by (cases r) (auto split: if_splits dest!: matches_group_step)
  qed
qed (auto split: option.splits if_splits intro: matches_steps)

lemma re_match_one: "a \<in> set as \<Longrightarrow> re_match ps s \<noteq> None \<Longrightarrow> re_match (One as # ps) (a @ s) \<noteq> None"
  by (induction as) (auto split: option.split)

lemma re_match_many: "c \<notin> set u \<Longrightarrow> re_match ps s \<noteq> None \<Longrightarrow> re_match (Many c # ps) (u @ s) \<noteq> None"
proof (induction u)
  case Nil
  then show ?case by (cases s) (auto split: option.split)
qed (auto split: option.split)

lemma re_match_group: "c \<notin> set u \<Longrightarrow> re_match ps s \<noteq> None \<Longrightarrow> re_match (Group c # ps) (u @ s) \<noteq> None"
proof (induction u)
  case Nil
  then show ?case by (cases s) (auto split: option.split)
qed (auto split: option.split)

lemma re_match_complete: "matches ps u cs \<Longrightarrow> re_match ps (u @ rest) \<noteq> None"
proof (induction rule: matches.induct)
  case (matches_one a as ps s cs)
  then show ?case using re_match_one [of a as ps "s @ rest"] by simp
next
  case (matches_many c u ps s cs)
  then show ?case using re_match_many [of c u ps "s @ rest"] by simp
next
  case (matches_group c u ps s cs)
  then show ?case using re_match_group [of c u ps "s @ rest"] by simp
qed simp

lemma re_match_None: "re_match ps s = None \<longleftrightarrow> (\<nexists>u rest cs. s = u @ rest \<and> matches ps u cs)"
proof (cases "re_match ps s")
  case None
  with re_match_complete show ?thesis by metis
next
  case (Some r)
  with re_match_sound [of ps s "fst r" "snd r"] show ?thesis by auto
qed

section \<open>Searching\<close>

text \<open>A pattern with a character in it matches no empty text.\<close>

definition solid :: "piece list \<Rightarrow> bool" where
  "solid ps \<longleftrightarrow> list_ex (\<lambda>p. case p of One as \<Rightarrow> [] \<notin> set as | _ \<Rightarrow> False) ps"

lemma solid_match: "matches ps u cs \<Longrightarrow> solid ps \<Longrightarrow> u \<noteq> []"
  by (induction rule: matches.induct) (auto simp: solid_def)

lemma captures_iter_first:
  assumes "solid ps" "captures_iter ps s = (m, cs) # ms"
  shows "\<exists>a b. s = a @ m @ b \<and> matches ps m cs \<and> ms = captures_iter ps b \<and>
    (\<forall>a1 a2. a = a1 @ a2 \<longrightarrow> a2 \<noteq> [] \<longrightarrow> re_match ps (a2 @ m @ b) = None)"
  using assms(2)
proof (induction s)
  case (Cons x s)
  show ?case
  proof (cases "re_match ps (x # s)")
    case None
    with Cons.prems have "captures_iter ps s = (m, cs) # ms" by simp
    with Cons.IH obtain a b where ab: "s = a @ m @ b" "matches ps m cs" "ms = captures_iter ps b"
      "\<forall>a1 a2. a = a1 @ a2 \<longrightarrow> a2 \<noteq> [] \<longrightarrow> re_match ps (a2 @ m @ b) = None" by blast
    have "re_match ps (a2 @ m @ b) = None" if "x # a = a1 @ a2" "a2 \<noteq> []" for a1 a2
      using that ab(1,4) None by (cases a1) auto
    with ab show ?thesis by (intro exI [of _ "x # a"] exI [of _ b]) auto
  next
    case (Some r)
    obtain cs' rest where r: "r = (cs', rest)" by fastforce
    from re_match_sound [OF Some [unfolded r]] obtain u where u: "x # s = u @ rest" "matches ps u cs'" by blast
    have "u \<noteq> []" using solid_match [OF u(2) assms(1)] .
    with u(1) have l: "length rest \<le> length s" by (cases u) auto
    have lu: "Suc (length s) = length u + length rest" using arg_cong [OF u(1), of length] by simp
    have "take (Suc (length s) - length rest) (x # s) = u" unfolding u(1) lu by simp
    with Cons.prems Some r l have "m = u" "cs = cs'" "ms = captures_iter ps rest" by simp_all
    with u show ?thesis by (intro exI [of _ "[]"] exI [of _ rest]) auto
  qed
qed simp

lemma captures_iter_Nil: "solid ps \<Longrightarrow> captures_iter ps s = [] \<Longrightarrow> s = a @ t \<Longrightarrow> t \<noteq> [] \<Longrightarrow> re_match ps t = None"
proof (induction s arbitrary: a)
  case (Cons x s)
  have n: "re_match ps (x # s) = None"
  proof (cases "re_match ps (x # s)")
    case (Some r)
    obtain cs rest where r: "r = (cs, rest)" by fastforce
    from re_match_sound [OF Some [unfolded r]] obtain u where u: "x # s = u @ rest" "matches ps u cs" by blast
    have "u \<noteq> []" using solid_match [OF u(2) Cons.prems(1)] .
    with u(1) have "length rest \<le> length s" by (cases u) auto
    with Cons.prems(2) Some r show ?thesis by simp
  qed
  with Cons show ?case by (cases a) auto
qed simp

text \<open>
  The search is exact: for a pattern that contains a character, it finds nothing exactly when no
  part of the text is matched by the pattern; otherwise what it finds first is a part of the text
  that the pattern matches, no match starts before it, and the search goes on after it.
\<close>

theorem search_exact:
  assumes "solid ps"
  shows "case captures_iter ps s of
      [] \<Rightarrow> \<nexists>a u b cs. s = a @ u @ b \<and> matches ps u cs
    | (m, cs) # ms \<Rightarrow> \<exists>a b. s = a @ m @ b \<and> matches ps m cs \<and> ms = captures_iter ps b \<and>
        (\<nexists>a1 a2 u b' cs'. a = a1 @ a2 \<and> a2 \<noteq> [] \<and> a2 @ m @ b = u @ b' \<and> matches ps u cs')"
proof (cases "captures_iter ps s")
  case Nil
  have "\<not> matches ps u cs" if "s = a @ u @ b" for a u b cs
  proof
    assume m: "matches ps u cs"
    with solid_match [OF m assms] captures_iter_Nil [OF assms Nil that] re_match_complete [OF m, of b] show False by auto
  qed
  then show ?thesis unfolding Nil list.case by blast
next
  case (Cons x ms)
  obtain m cs where x: "x = (m, cs)" by fastforce
  from captures_iter_first [OF assms Cons [unfolded x]] show ?thesis
    unfolding Cons x list.case prod.case re_match_None by blast
qed

end
