(* ===== verification/Mention_Regex.thy ===== *)
theory Mention_Regex
  imports Typing Regex
begin

text \<open>
  The three patterns of \<^verbatim>\<open>mention_parser.rs\<close>, compiled, and \<open>parse_mentions\<close> with them in place of the
  parameters: what it finds in a message that mentions people and groups.
\<close>

section \<open>The patterns\<close>

definition MENTION_RE :: string where
  "MENTION_RE = ''(?i)<spark-mention[^>]*data-object-type=\"([^\"]*)\"[^>]*>''"

definition PERSON_ID_RE :: string where
  "PERSON_ID_RE = ''(?i)data-object-id=\"([^\"]*)\"''"

definition GROUP_TYPE_RE :: string where
  "GROUP_TYPE_RE = ''(?i)data-group-type=\"([^\"]*)\"''"

text \<open>\<open>Regex::new(..).unwrap()\<close>\<close>

definition pieces_of :: "string \<Rightarrow> piece list" where
  "pieces_of pat = the (compile pat)"

definition mention_pieces :: "piece list" where "mention_pieces = pieces_of MENTION_RE"
definition person_pieces :: "piece list" where "person_pieces = pieces_of PERSON_ID_RE"
definition group_pieces :: "piece list" where "group_pieces = pieces_of GROUP_TYPE_RE"

definition find_mentions :: "string \<Rightarrow> (string \<times> string) list" where
  "find_mentions h = map (\<lambda>(m, cs). (m, hd cs)) (captures_iter mention_pieces h)"

definition find_attribute :: "piece list \<Rightarrow> string \<Rightarrow> string option" where
  "find_attribute ps t = map_option (\<lambda>(m, cs). hd cs) (captures ps t)"

definition with_regex :: "('sk, 'pk, 'rsa) env \<Rightarrow> ('sk, 'pk, 'rsa) env" where
  "with_regex E = E\<lparr>mention_re := find_mentions, person_id_re := find_attribute person_pieces,
     group_type_re := find_attribute group_pieces\<rparr>"

abbreviation letters :: "string \<Rightarrow> piece list" where
  "letters s \<equiv> map (\<lambda>c. One (spellings True c)) s"

text \<open>The compiled patterns, spelled out: they compile, and evaluation starts from the pieces.\<close>

lemma mention_pieces_eval [code]: "mention_pieces =
   [One [''<''], One [''s'', ''S'', [CHR 0xC5, CHR 0xBF]], One [''p'', ''P''], One [''a'', ''A''], One [''r'', ''R''],
     One [''k'', ''K'', [CHR 0xE2, CHR 0x84, CHR 0xAA]], One [''-''], One [''m'', ''M''], One [''e'', ''E''], One [''n'', ''N''],
     One [''t'', ''T''], One [''i'', ''I''], One [''o'', ''O''], One [''n'', ''N''], Many (CHR ''>''), One [''d'', ''D''],
     One [''a'', ''A''], One [''t'', ''T''], One [''a'', ''A''], One [''-''], One [''o'', ''O''], One [''b'', ''B''],
     One [''j'', ''J''], One [''e'', ''E''], One [''c'', ''C''], One [''t'', ''T''], One [''-''], One [''t'', ''T''],
     One [''y'', ''Y''], One [''p'', ''P''], One [''e'', ''E''], One [''=''], One [[CHR 0x22]], Group (CHR 0x22),
     One [[CHR 0x22]], Many (CHR ''>''), One [''>'']]"
  by code_simp

lemma person_pieces_eval [code]: "person_pieces =
   [One [''d'', ''D''], One [''a'', ''A''], One [''t'', ''T''], One [''a'', ''A''], One [''-''], One [''o'', ''O''],
     One [''b'', ''B''], One [''j'', ''J''], One [''e'', ''E''], One [''c'', ''C''], One [''t'', ''T''], One [''-''],
     One [''i'', ''I''], One [''d'', ''D''], One [''=''], One [[CHR 0x22]], Group (CHR 0x22), One [[CHR 0x22]]]"
  by code_simp

lemma group_pieces_eval [code]: "group_pieces =
   [One [''d'', ''D''], One [''a'', ''A''], One [''t'', ''T''], One [''a'', ''A''], One [''-''], One [''g'', ''G''],
     One [''r'', ''R''], One [''o'', ''O''], One [''u'', ''U''], One [''p'', ''P''], One [''-''], One [''t'', ''T''],
     One [''y'', ''Y''], One [''p'', ''P''], One [''e'', ''E''], One [''=''], One [[CHR 0x22]], Group (CHR 0x22), One [[CHR 0x22]]]"
  by code_simp

lemma patterns_compile: "compile MENTION_RE \<noteq> None \<and> compile PERSON_ID_RE \<noteq> None \<and> compile GROUP_TYPE_RE \<noteq> None"
  by code_simp

section \<open>Matching a tag\<close>

lemma starts_with_Cons [simp]: "starts_with (a # as) (x # s) \<longleftrightarrow> a = x \<and> starts_with as s" "starts_with [] s" "\<not> starts_with (a # as) []"
  by (auto simp: starts_with_iff)

text \<open>A captured repetition, or one that is not, up to the character it excludes.\<close>

lemma group_until:
  "c \<notin> set u \<Longrightarrow> re_match (Group c # One [[c]] # ps) (u @ c # v) = map_option (\<lambda>(cs, rest). (u # cs, rest)) (re_match ps v)"
  by (induction u) (auto split: option.split)

lemma many_until: "c \<notin> set u \<Longrightarrow> re_match [Many c, One [[c]]] (u @ c # v) = Some ([], v)"
  by (induction u) auto

text \<open>What the characters of a pattern match.\<close>

lemma before_char: "w @ c # z = p @ y \<Longrightarrow> c \<notin> set p \<Longrightarrow> \<exists>q. w = p @ q"
proof (induction p arbitrary: w)
  case (Cons x p)
  then show ?case by (cases w) auto
qed simp

lemma ones_match: "matches (map One ass @ ps) u cs \<Longrightarrow> \<exists>vs y. u = concat vs @ y \<and> list_all2 (\<lambda>v as. v \<in> set as) vs ass"
proof (induction ass arbitrary: u)
  case Nil
  show ?case by (intro exI [of _ "[]"] exI [of _ u]) simp
next
  case (Cons as ass)
  then obtain v u' where u: "u = v @ u'" "v \<in> set as" "matches (map One ass @ ps) u' cs" by (auto elim: matches_OneE)
  from Cons.IH [OF u(3)] obtain vs y where "u' = concat vs @ y" "list_all2 (\<lambda>v as. v \<in> set as) vs ass" by blast
  with u show ?case by (intro exI [of _ "v # vs"] exI [of _ y]) simp
qed

lemma spelled_set:
  assumes "list_all2 (\<lambda>v as. v \<in> set as) vs ass"
  shows "set (concat vs) \<subseteq> set (concat (concat ass))" "[[c]] \<in> set ass \<Longrightarrow> c \<in> set (concat vs)"
  using assms by (induction rule: list_all2_induct) auto

text \<open>No attribute name starts in a text without equals signs before the end of the tag.\<close>

lemma no_attribute:
  assumes "[''=''] \<in> set ass" "CHR ''>'' \<notin> set (concat (concat ass))" "CHR ''='' \<notin> set w"
  shows "re_match (Many (CHR ''>'') # map One ass @ ps) (w @ CHR ''>'' # z) = None"
proof -
  have False if "w @ CHR ''>'' # z = u @ r" "matches (Many (CHR ''>'') # map One ass @ ps) u cs" for u r cs
  proof -
    from that(2) obtain v1 v2 where v: "u = v1 @ v2" "CHR ''>'' \<notin> set v1" "matches (map One ass @ ps) v2 cs" by (auto elim: matches_ManyE)
    from ones_match [OF v(3)] obtain vs y where vs: "v2 = concat vs @ y" "list_all2 (\<lambda>v as. v \<in> set as) vs ass" by blast
    let ?p = "v1 @ concat vs"
    have p: "CHR ''>'' \<notin> set ?p" "CHR ''='' \<in> set ?p" using spelled_set [OF vs(2)] assms(1,2) v(2) by auto
    have "w @ CHR ''>'' # z = ?p @ y @ r" using that(1) v vs by simp
    with before_char [of w _ z ?p "y @ r"] p(1) obtain q where "w = ?p @ q" by auto
    with p(2) assms(3) show False by auto
  qed
  then show ?thesis unfolding re_match_None by blast
qed

definition clean :: "string \<Rightarrow> bool" where
  "clean t \<longleftrightarrow> CHR 0x22 \<notin> set t \<and> CHR ''>'' \<notin> set t \<and> CHR ''='' \<notin> set t"

definition person_tag :: "string \<Rightarrow> string" where
  "person_tag i = ''<spark-mention data-object-type=\"person\" data-object-id=\"'' @ i @ ''\">''"

definition group_tag :: "string \<Rightarrow> string" where
  "group_tag g = ''<spark-mention data-object-type=\"groupMention\" data-group-type=\"'' @ g @ ''\">''"

text \<open>A text in lower case is matched by its own characters.\<close>

definition plain :: "string \<Rightarrow> bool" where
  "plain w \<longleftrightarrow> list_all (\<lambda>c. case spellings True c of [] \<Rightarrow> False
     | a # as \<Rightarrow> a = [c] \<and> list_all (\<lambda>b. case b of [] \<Rightarrow> False | d # _ \<Rightarrow> d \<noteq> c) as) w"

lemma other_spellings: "list_all (\<lambda>b. case b of [] \<Rightarrow> False | d # _ \<Rightarrow> d \<noteq> c) as \<Longrightarrow> re_match (One as # ps) (c # s) = None"
  by (induction as) (auto split: list.splits)

lemma plain_literal: "plain w \<Longrightarrow> re_match (letters w @ ps) (w @ s) = re_match ps s"
  by (induction w) (auto simp: plain_def other_spellings split: list.splits option.split)

lemma plain_names: "plain ''<spark-mention''" "plain ''data-object-type=\"''" "plain ''data-object-id=\"''"
    "plain ''data-group-type=\"''"
  by code_simp+

definition type_spellings :: "string list list" where
  "type_spellings = map (spellings True) ''data-object-type=\"''"

definition type_pieces :: "piece list" where
  "type_pieces = map One type_spellings @ [Group (CHR 0x22), One [[CHR 0x22]], Many (CHR ''>''), One [''>'']]"

lemma type_pieces_eval: "type_pieces =
   [One [''d'', ''D''], One [''a'', ''A''], One [''t'', ''T''], One [''a'', ''A''], One [''-''], One [''o'', ''O''], One [''b'', ''B''],
     One [''j'', ''J''], One [''e'', ''E''], One [''c'', ''C''], One [''t'', ''T''], One [''-''], One [''t'', ''T''],
     One [''y'', ''Y''], One [''p'', ''P''], One [''e'', ''E''], One [''=''], One [[CHR 0x22]], Group (CHR 0x22),
     One [[CHR 0x22]], Many (CHR ''>''), One [''>'']]"
  by code_simp

lemma mention_pieces_split: "mention_pieces = letters ''<spark-mention'' @ Many (CHR ''>'') # type_pieces"
  by code_simp

lemma type_nowhere: "CHR ''='' \<notin> set w \<Longrightarrow> re_match (Many (CHR ''>'') # type_pieces) (w @ CHR ''>'' # z) = None"
proof -
  have "[''=''] \<in> set type_spellings" "CHR ''>'' \<notin> set (concat (concat type_spellings))" by code_simp+
  then show "CHR ''='' \<notin> set w \<Longrightarrow> ?thesis" unfolding type_pieces_def by (rule no_attribute)
qed

lemma type_pieces_from:
  "type_pieces = One [''d'', ''D''] # One [''a'', ''A''] # drop 2 type_pieces"
  "type_pieces = letters ''data-object-'' @ One [''t'', ''T''] # drop 13 type_pieces"
  "type_pieces = letters ''data-'' @ One [''o'', ''O''] # drop 6 type_pieces"
  "type_pieces = letters ''data-object-type=\"'' @ Group (CHR 0x22) # One [[CHR 0x22]] # [Many (CHR ''>''), One [''>'']]"
  by code_simp+

lemma one_fails: "(\<And>a. a \<in> set as \<Longrightarrow> starts_with a s \<Longrightarrow> re_match ps (drop (length a) s) = None) \<Longrightarrow> re_match (One as # ps) s = None"
  by (induction as) auto

lemma type_elsewhere:
  "x \<notin> set ''dD'' \<Longrightarrow> re_match type_pieces (x # s) = None"
  "x' \<notin> set ''aA'' \<Longrightarrow> re_match type_pieces (x # x' # s) = None"
  by (subst type_pieces_from(1), intro one_fails, auto)+

lemma type_other_name:
  "re_match type_pieces (''data-object-'' @ ''id'' @ s) = None" "re_match type_pieces (''data-'' @ ''group-type'' @ s) = None"
proof -
  have p: "plain ''data-object-''" "plain ''data-''" by code_simp+
  show "re_match type_pieces (''data-object-'' @ ''id'' @ s) = None"
    by (subst type_pieces_from(2), subst plain_literal [OF p(1)]) simp
  show "re_match type_pieces (''data-'' @ ''group-type'' @ s) = None"
    by (subst type_pieces_from(3), subst plain_literal [OF p(2)]) simp
qed

lemma type_found: "CHR 0x22 \<notin> set t \<Longrightarrow> CHR ''>'' \<notin> set u \<Longrightarrow>
    re_match type_pieces (''data-object-type=\"'' @ t @ CHR 0x22 # u @ CHR ''>'' # z) = Some ([t], z)"
  unfolding type_pieces_from(4) plain_literal [OF plain_names(2)] by (subst group_until) (simp_all add: many_until)

lemma many_skip: "x \<noteq> c \<Longrightarrow> re_match ps (x # s) = None \<Longrightarrow> re_match (Many c # ps) (x # s) = re_match (Many c # ps) s"
  by (simp split: option.split)

lemma many_stop: "x \<noteq> c \<Longrightarrow> re_match (Many c # ps) s = None \<Longrightarrow> re_match (Many c # ps) (x # s) = re_match ps (x # s)"
  by simp

text \<open>
  In a mention tag with its type first, the search comes back from the attributes behind the type to
  the type itself.
\<close>

lemma mention_tag:
  assumes "clean i"
  shows "re_match mention_pieces (person_tag i @ rest) = Some ([''person''], rest)"
    "re_match mention_pieces (group_tag i @ rest) = Some ([''groupMention''], rest)"
proof -
  let ?m = "re_match (Many (CHR ''>'') # type_pieces)"
  have i: "?m (i @ CHR 0x22 # CHR ''>'' # rest) = None" using type_nowhere [of "i @ [CHR 0x22]" rest] assms by (simp add: clean_def)
  note other = type_other_name [simplified]
  have "?m (''ata-object-type=\"person\" data-object-id=\"'' @ i @ ''\">'' @ rest) = None"
    using i by (simp add: many_skip type_elsewhere other del: re_match.simps)
  with type_found [of "''person''" "'' data-object-id=\"'' @ i @ [CHR 0x22]" rest] assms
  show "re_match mention_pieces (person_tag i @ rest) = Some ([''person''], rest)"
    unfolding mention_pieces_split person_tag_def
    by (simp add: many_skip many_stop type_elsewhere clean_def plain_literal [OF plain_names(1), simplified] del: re_match.simps)
  have "?m (''ata-object-type=\"groupMention\" data-group-type=\"'' @ i @ ''\">'' @ rest) = None"
    using i by (simp add: many_skip type_elsewhere other del: re_match.simps)
  with type_found [of "''groupMention''" "'' data-group-type=\"'' @ i @ [CHR 0x22]" rest] assms
  show "re_match mention_pieces (group_tag i @ rest) = Some ([''groupMention''], rest)"
    unfolding mention_pieces_split group_tag_def
    by (simp add: many_skip many_stop type_elsewhere clean_def plain_literal [OF plain_names(1), simplified] del: re_match.simps)
qed

end
