(* ===== verification/Mention_Search.thy ===== *)
theory Mention_Search
  imports Mention_Regex
begin

text \<open>
  What \<open>parse_mentions\<close> finds in a message written by a client: tags that mention people and groups,
  between other text and markup.
\<close>

section \<open>Searching a message\<close>

lemma da_elsewhere:
  "x \<notin> set ''dD'' \<Longrightarrow> re_match (One [''d'', ''D''] # ps) (x # s) = None"
  "x' \<notin> set ''aA'' \<Longrightarrow> re_match (One [''d'', ''D''] # One [''a'', ''A''] # ps) (x # x' # s) = None"
  by (intro one_fails; auto)+

lemma attribute_pieces_from:
  "person_pieces = One [''d'', ''D''] # One [''a'', ''A''] # drop 2 person_pieces"
  "person_pieces = letters ''data-object-'' @ One [''i'', ''I''] # drop 13 person_pieces"
  "person_pieces = letters ''data-object-id=\"'' @ Group (CHR 0x22) # One [[CHR 0x22]] # []"
  "group_pieces = One [''d'', ''D''] # One [''a'', ''A''] # drop 2 group_pieces"
  "group_pieces = letters ''data-'' @ One [''g'', ''G''] # drop 6 group_pieces"
  "group_pieces = letters ''data-group-type=\"'' @ Group (CHR 0x22) # One [[CHR 0x22]] # []"
  by code_simp+

lemma attribute_elsewhere:
  "x \<notin> set ''dD'' \<Longrightarrow> re_match person_pieces (x # s) = None"
  "x' \<notin> set ''aA'' \<Longrightarrow> re_match person_pieces (x # x' # s) = None"
  "x \<notin> set ''dD'' \<Longrightarrow> re_match group_pieces (x # s) = None"
  "x' \<notin> set ''aA'' \<Longrightarrow> re_match group_pieces (x # x' # s) = None"
  by (subst attribute_pieces_from(1), rule da_elsewhere, assumption)+ (subst attribute_pieces_from(4), rule da_elsewhere, assumption)+

lemma attribute_other_name:
  "re_match person_pieces (''data-object-'' @ ''type'' @ s) = None" "re_match group_pieces (''data-'' @ ''object-type'' @ s) = None"
proof -
  have p: "plain ''data-object-''" "plain ''data-''" by code_simp+
  show "re_match person_pieces (''data-object-'' @ ''type'' @ s) = None"
    by (subst attribute_pieces_from(2), subst plain_literal [OF p(1)]) simp
  show "re_match group_pieces (''data-'' @ ''object-type'' @ s) = None"
    by (subst attribute_pieces_from(5), subst plain_literal [OF p(2)]) simp
qed

lemma attribute_found:
  "CHR 0x22 \<notin> set i \<Longrightarrow> re_match person_pieces (''data-object-id=\"'' @ i @ CHR 0x22 # z) = Some ([i], z)"
  "CHR 0x22 \<notin> set i \<Longrightarrow> re_match group_pieces (''data-group-type=\"'' @ i @ CHR 0x22 # z) = Some ([i], z)"
  unfolding attribute_pieces_from(3,6) plain_literal [OF plain_names(3)] plain_literal [OF plain_names(4)]
  by (simp_all add: group_until)

lemma find_attribute_skip: "re_match ps (x # s) = None \<Longrightarrow> find_attribute ps (x # s) = find_attribute ps s"
  by (simp add: find_attribute_def captures_def)

lemma find_attribute_hit: "re_match ps s = Some (cs, z) \<Longrightarrow> length z < length s \<Longrightarrow> find_attribute ps s = Some (hd cs)"
  by (cases s) (auto simp: find_attribute_def captures_def)

lemma tag_attribute:
  assumes "clean i"
  shows "find_attribute person_pieces (person_tag i) = Some i" "find_attribute group_pieces (group_tag i) = Some i"
proof -
  have q: "CHR 0x22 \<notin> set i" using assms by (simp add: clean_def)
  note other = attribute_other_name [simplified]
  have "find_attribute person_pieces (''data-object-id=\"'' @ i @ ''\">'') = Some i"
    using find_attribute_hit [OF attribute_found(1) [OF q]] by simp
  then show "find_attribute person_pieces (person_tag i) = Some i"
    unfolding person_tag_def by (simp add: find_attribute_skip attribute_elsewhere other)
  have "find_attribute group_pieces (''data-group-type=\"'' @ i @ ''\">'') = Some i"
    using find_attribute_hit [OF attribute_found(2) [OF q]] by simp
  then show "find_attribute group_pieces (group_tag i) = Some i"
    unfolding group_tag_def by (simp add: find_attribute_skip attribute_elsewhere other)
qed

text \<open>Text in which no tag name starts with an s has no mention.\<close>

fun quiet :: "string \<Rightarrow> bool" where
  "quiet [] = True"
| "quiet [c] = (c \<noteq> CHR ''<'')"
| "quiet (c # d # t) = ((c = CHR ''<'' \<longrightarrow> d \<notin> {CHR ''s'', CHR ''S'', CHR 0xC5}) \<and> quiet (d # t))"

lemma mention_elsewhere:
  "x \<noteq> CHR ''<'' \<Longrightarrow> re_match mention_pieces (x # s) = None"
  "x' \<notin> {CHR ''s'', CHR ''S'', CHR 0xC5} \<Longrightarrow> re_match mention_pieces (x # x' # s) = None"
proof -
  have p: "mention_pieces = One [''<''] # One [''s'', ''S'', [CHR 0xC5, CHR 0xBF]] # drop 2 mention_pieces" by code_simp
  show "x \<noteq> CHR ''<'' \<Longrightarrow> re_match mention_pieces (x # s) = None"
    "x' \<notin> {CHR ''s'', CHR ''S'', CHR 0xC5} \<Longrightarrow> re_match mention_pieces (x # x' # s) = None"
    by (subst p, intro one_fails, auto)+
qed

lemma quiet_skip: "quiet t \<Longrightarrow> find_mentions (t @ s) = find_mentions s"
  by (induction t rule: quiet.induct) (auto simp: find_mentions_def mention_elsewhere)

lemma find_mentions_hit:
  "re_match mention_pieces (t @ s) = Some ([ty], s) \<Longrightarrow> t \<noteq> [] \<Longrightarrow> find_mentions (t @ s) = (t, ty) # find_mentions s"
  by (cases t) (simp_all add: find_mentions_def)

section \<open>Messages\<close>

text \<open>A message in parts: mentions with the name they show, and other text.\<close>

datatype part = Person string string | Everyone string string | Other string

primrec part_html :: "part \<Rightarrow> string" where
  "part_html (Person i name) = person_tag i @ name @ ''</spark-mention>''"
| "part_html (Everyone g name) = group_tag g @ name @ ''</spark-mention>''"
| "part_html (Other t) = t"

primrec part_ok :: "part \<Rightarrow> bool" where
  "part_ok (Person i name) \<longleftrightarrow> clean i \<and> quiet name \<and> \<not> starts_with ''group:'' i"
| "part_ok (Everyone g name) \<longleftrightarrow> clean g \<and> quiet name"
| "part_ok (Other t) \<longleftrightarrow> quiet t"

definition html_of :: "part list \<Rightarrow> string" where
  "html_of ps = concat (map part_html ps)"

primrec part_tags :: "part \<Rightarrow> (string \<times> string) list" where
  "part_tags (Person i name) = [(person_tag i, ''person'')]"
| "part_tags (Everyone g name) = [(group_tag g, ''groupMention'')]"
| "part_tags (Other t) = []"

definition people_of :: "part list \<Rightarrow> string list" where
  "people_of ps = List.map_filter (\<lambda>p. case p of Person i name \<Rightarrow> if i = [] then None else Some i | _ \<Rightarrow> None) ps"

definition groups_of :: "part list \<Rightarrow> string list" where
  "groups_of ps = List.map_filter (\<lambda>p. case p of Everyone g name \<Rightarrow> if g = [] then None else Some g | _ \<Rightarrow> None) ps"

lemma close_tag: "find_mentions (''</spark-mention>'' @ s) = find_mentions s"
  by (rule quiet_skip) simp

lemma find_part: "part_ok p \<Longrightarrow> find_mentions (part_html p @ s) = part_tags p @ find_mentions s"
proof (cases p)
  case (Person i name)
  have "person_tag i \<noteq> []" by (simp add: person_tag_def)
  with Person show "part_ok p \<Longrightarrow> ?thesis"
    by (simp add: find_mentions_hit [OF mention_tag(1)] quiet_skip close_tag [simplified])
next
  case (Everyone g name)
  have "group_tag g \<noteq> []" by (simp add: group_tag_def)
  with Everyone show "part_ok p \<Longrightarrow> ?thesis"
    by (simp add: find_mentions_hit [OF mention_tag(2)] quiet_skip close_tag [simplified])
qed (simp add: quiet_skip)

lemma find_parts: "list_all part_ok ps \<Longrightarrow> find_mentions (html_of ps) = concat (map part_tags ps)"
proof (induction ps)
  case (Cons p ps)
  then show ?case using find_part [of p "html_of ps"] by (simp add: html_of_def)
qed (simp add: html_of_def find_mentions_def)

lemma parts_people: "list_all part_ok ps \<Longrightarrow> person_ids (with_regex E) (concat (map part_tags ps)) = people_of ps"
  by (induction ps) (auto simp: person_ids_def people_of_def map_filter_def with_regex_def tag_attribute split: part.splits)

lemma parts_groups: "list_all part_ok ps \<Longrightarrow> group_types (with_regex E) (concat (map part_tags ps)) = groups_of ps"
  by (induction ps) (auto simp: group_types_def groups_of_def map_filter_def with_regex_def tag_attribute split: part.splits)

lemma people_not_groups: "list_all part_ok ps \<Longrightarrow> \<forall>i \<in> set (people_of ps). \<not> starts_with ''group:'' i"
  by (auto simp: people_of_def map_filter_def list_all_iff split: part.splits if_splits)

lemma parse_parts:
  assumes "list_all part_ok ps"
  shows "parse_mentions (with_regex E) (Some (html_of ps)) =
    \<lparr>mentioned_people = firsts (people_of ps), mentioned_groups = firsts (groups_of ps)\<rparr>"
proof -
  have m: "mention_re (with_regex E) (html_of ps) = concat (map part_tags ps)"
    using find_parts [OF assms] by (simp add: with_regex_def)
  have "parse_mentions (with_regex E) (Some h) = snd (foldl (mention_step (with_regex E)) ([], parsed_mentions_default) (mention_re (with_regex E) h))" for h
    by (simp add: parse_mentions_def with_regex_def find_mentions_def)
  then show ?thesis
    using people_not_groups [OF assms] by (simp add: m mention_fold_firsts parts_people [OF assms] parts_groups [OF assms])
qed


definition sample_parts :: "part list" where
  "sample_parts = [Other ''<p>'', Person ''p1'' ''Alice'', Other '', '', Everyone ''all'' ''All'', Person ''p1'' ''Alice'', Person ''p2'' ''Bob'']"


section \<open>Captures are text\<close>

text \<open>A text in UTF-8 divides before and behind an ASCII character.\<close>

lemma follow_high: "utf8_follow b = Some st \<Longrightarrow> list_all (\<lambda>(lo, hi). 128 \<le> lo) st"
  by (auto simp: utf8_follow_def split: if_splits)

lemma follow_ascii: "b < 128 \<Longrightarrow> utf8_follow b = Some []"
  by (simp add: utf8_follow_def word_le_nat_alt word_less_nat_alt)

lemma utf8_run_split:
  "utf8_run st (a @ c # b) \<Longrightarrow> c < 128 \<Longrightarrow> list_all (\<lambda>(lo, hi). 128 \<le> lo) st \<Longrightarrow> utf8_run st a \<and> utf8_run [] b"
proof (induction st a rule: utf8_run.induct)
  case (1 st)
  then show ?case by (cases st) (auto simp: follow_ascii)
next
  case (2 lo hi st x bs)
  then show ?case by auto
next
  case (3 x bs)
  then show ?case by (auto split: option.splits dest: follow_high)
qed

lemma ascii_word: "(of_char c :: nat) < 128 \<Longrightarrow> (word_of_nat (of_char c) :: u8) < 128"
  by (simp add: word_less_nat_alt unat_of_nat)

lemma valid_str_split: "valid_str (a @ c # b) \<Longrightarrow> (of_char c :: nat) < 128 \<Longrightarrow> valid_str a \<and> valid_str b"
  using utf8_run_split [of "[]" "as_bytes a" "word_of_nat (of_char c)" "as_bytes b"] ascii_word [of c]
  by (simp add: valid_str_def utf8_valid_def as_bytes_def)

lemma valid_str_Cons: "(of_char c :: nat) < 128 \<Longrightarrow> valid_str s \<Longrightarrow> valid_str (c # s)"
  using ascii_word [of c] by (simp add: valid_str_def utf8_valid_def as_bytes_def follow_ascii)

lemma valid_str_between: "valid_str (a @ c # u @ d # b) \<Longrightarrow> (of_char c :: nat) < 128 \<Longrightarrow> (of_char d :: nat) < 128 \<Longrightarrow> valid_str u \<and> valid_str b"
  using valid_str_split [of a c "u @ d # b"] valid_str_split [of u d b] by simp

lemma valid_str_delimited: "(of_char c :: nat) < 128 \<Longrightarrow> (of_char d :: nat) < 128 \<Longrightarrow> valid_str u \<Longrightarrow> valid_str (c # u @ [d])"
proof -
  have "valid_str []" by code_simp
  then show "(of_char c :: nat) < 128 \<Longrightarrow> (of_char d :: nat) < 128 \<Longrightarrow> valid_str u \<Longrightarrow> valid_str (c # u @ [d])"
    by (intro valid_str_Cons valid_str_append)
qed

text \<open>A mention is delimited by its brackets, an attribute by its quotes.\<close>

lemma matches_append: "matches (ps @ qs) u cs \<Longrightarrow> \<exists>v w ds es. u = v @ w \<and> cs = ds @ es \<and> matches ps v ds \<and> matches qs w es"
proof (induction ps arbitrary: u cs)
  case Nil
  then show ?case by (intro exI [of _ "[]"] exI [of _ u] exI [of _ cs]) (simp add: matches_end)
next
  case (Cons p ps)
  show ?case
  proof (cases p)
    case (One as)
    with Cons.prems obtain a u' where a: "a \<in> set as" "u = a @ u'" "matches (ps @ qs) u' cs" by (auto elim: matches_OneE)
    with Cons.IH [OF a(3)] One show ?thesis by (metis append.assoc matches_one)
  next
    case (Many c)
    with Cons.prems obtain a u' where a: "c \<notin> set a" "u = a @ u'" "matches (ps @ qs) u' cs" by (auto elim: matches_ManyE)
    with Cons.IH [OF a(3)] Many show ?thesis by (metis append.assoc matches_many)
  next
    case (Group c)
    with Cons.prems obtain a u' ds where a: "c \<notin> set a" "u = a @ u'" "cs = a # ds" "matches (ps @ qs) u' ds" by (auto elim: matches_GroupE)
    with Cons.IH [OF a(4)] Group show ?thesis by (metis append.assoc append_Cons matches_group)
  qed
qed

lemma mention_delimited: "matches mention_pieces u cs \<Longrightarrow> \<exists>v. u = CHR ''<'' # v @ [CHR ''>'']"
proof -
  assume m: "matches mention_pieces u cs"
  have "mention_pieces = One [''<''] # (take 35 (drop 1 mention_pieces) @ [One [''>'']])" by code_simp
  with m have "matches (One [''<''] # (take 35 (drop 1 mention_pieces) @ [One [''>'']])) u cs" by simp
  then obtain u' where u: "u = ''<'' @ u'" "matches (take 35 (drop 1 mention_pieces) @ [One [''>'']]) u' cs" by (auto elim: matches_OneE)
  from matches_append [OF u(2)] obtain v w es where "u' = v @ w" "matches [One [''>'']] w es" by blast
  with u(1) show ?thesis by (auto elim!: matches_OneE matches_NilE)
qed

lemma attribute_delimited:
  assumes "matches (letters (n @ [CHR 0x22]) @ [Group (CHR 0x22), One [[CHR 0x22]]]) u cs"
  shows "\<exists>v g. u = v @ CHR 0x22 # g @ [CHR 0x22] \<and> cs = [g]"
proof -
  let ?e = "[One [[CHR 0x22]], Group (CHR 0x22), One [[CHR 0x22]]]"
  have "spellings True (CHR 0x22) = [[CHR 0x22]]" by code_simp
  with assms have "matches (letters n @ ?e) u cs" by simp
  from matches_append [OF this] obtain v w ds es
    where s: "u = v @ w" "cs = ds @ es" "matches (letters n) v ds" "matches ?e w es" by blast
  have "ds = []" using s(3) by (induction n arbitrary: v ds) (auto elim: matches_NilE matches_OneE)
  with s show ?thesis by (auto elim!: matches_OneE matches_NilE matches_GroupE)
qed

lemma solid_patterns: "solid mention_pieces" "solid person_pieces" "solid group_pieces"
  by code_simp+

lemma mentions_valid: "valid_str h \<Longrightarrow> list_all (\<lambda>(m, cs). valid_str m) (captures_iter mention_pieces h)"
proof (induction h rule: measure_induct_rule [of length])
  case (less h)
  show ?case
  proof (cases "captures_iter mention_pieces h")
    case (Cons x ms)
    obtain m cs where x: "x = (m, cs)" by fastforce
    from captures_iter_first [OF solid_patterns(1) Cons [unfolded x]] obtain a b
      where h: "h = a @ m @ b" "matches mention_pieces m cs" "ms = captures_iter mention_pieces b" by blast
    from mention_delimited [OF h(2)] obtain v where v: "m = CHR ''<'' # v @ [CHR ''>'']" by blast
    have "valid_str v \<and> valid_str b" using less.prems by (intro valid_str_between [of a "CHR ''<''" v "CHR ''>''"]) (simp_all add: h(1) v)
    moreover from this have "valid_str m" unfolding v by (intro valid_str_delimited) simp_all
    moreover have "length b < length h" by (simp add: h(1) v)
    ultimately show ?thesis unfolding Cons x h(3) using less.IH [of b] by simp
  qed simp
qed

lemma attribute_valid:
  assumes "valid_str t" "solid ps" "ps = letters (n @ [CHR 0x22]) @ [Group (CHR 0x22), One [[CHR 0x22]]]"
  shows "pred_option valid_str (find_attribute ps t)"
proof (cases "captures_iter ps t")
  case (Cons x ms)
  obtain m cs where x: "x = (m, cs)" by fastforce
  from captures_iter_first [OF assms(2) Cons [unfolded x]] obtain a b where h: "t = a @ m @ b" "matches ps m cs" by blast
  from attribute_delimited [OF h(2) [unfolded assms(3)]] obtain v g where g: "m = v @ CHR 0x22 # g @ [CHR 0x22]" "cs = [g]" by blast
  have "valid_str g \<and> valid_str b" using assms(1) by (intro valid_str_between [of "a @ v" "CHR 0x22" g "CHR 0x22"]) (simp_all add: h(1) g)
  with Cons x g show ?thesis by (simp add: find_attribute_def captures_def)
qed (simp add: find_attribute_def captures_def)

text \<open>The compiled patterns are an instance of what the event types rely on.\<close>

lemma with_regex_typed: "typed_captures (with_regex E)"
proof -
  have p: "person_pieces = letters (''data-object-id='' @ [CHR 0x22]) @ [Group (CHR 0x22), One [[CHR 0x22]]]"
    "group_pieces = letters (''data-group-type='' @ [CHR 0x22]) @ [Group (CHR 0x22), One [[CHR 0x22]]]" by code_simp+
  have m: "list_all (\<lambda>(m, ty). valid_str m) (find_mentions h)" if "valid_str h" for h
    using mentions_valid [OF that] by (auto simp: find_mentions_def list_all_iff)
  show ?thesis
    using m attribute_valid [OF _ solid_patterns(2) p(1)] attribute_valid [OF _ solid_patterns(3) p(2)]
    by (simp add: typed_captures_def with_regex_def)
qed

end
