(* ===== verification/Unit_Tests.thy ===== *)
theory Unit_Tests
  imports Mention_Search
begin

text \<open>
  The unit tests of the crate, as definitions over the model: each is the conjunction of its
  assertions, and false where the Rust test would panic. The tests of the URL validator, the
  identifiers, the mentions, the decryptor and the socket; those of the device manager have their own
  theory. They hold for every environment with the documented laws, not for one mock only.
\<close>

section \<open>\<^verbatim>\<open>url_validation.rs\<close>\<close>

abbreviation is_ok :: "'e + 'a \<Rightarrow> bool" where "is_ok r \<equiv> \<not> isl r"

text \<open>\<open>result.is_err()\<close> and \<open>result.unwrap_err().contains(m)\<close>\<close>

abbreviation err_contains :: "string \<Rightarrow> string + 'a \<Rightarrow> bool" where
  "err_contains m r \<equiv> isl r \<and> str_contains m (projl r)"

definition test_valid_webex_com_https :: "lower_table \<Rightarrow> bool" where
  "test_valid_webex_com_https lw \<longleftrightarrow> is_ok (validate_webex_url lw ''https://webex.com/api/v1'' ''https'')"

definition test_valid_wbx2_com_https :: "lower_table \<Rightarrow> bool" where
  "test_valid_wbx2_com_https lw \<longleftrightarrow> is_ok (validate_webex_url lw ''https://wdm-a.wbx2.com/wdm/api'' ''https'')"

definition test_valid_ciscospark_com_https :: "lower_table \<Rightarrow> bool" where
  "test_valid_ciscospark_com_https lw \<longleftrightarrow> is_ok (validate_webex_url lw ''https://api.ciscospark.com/v1'' ''https'')"

definition test_valid_wss_scheme :: "lower_table \<Rightarrow> bool" where
  "test_valid_wss_scheme lw \<longleftrightarrow> is_ok (validate_webex_url lw ''wss://mercury.webex.com/socket'' ''wss'')"

definition test_invalid_scheme :: "lower_table \<Rightarrow> bool" where
  "test_invalid_scheme lw \<longleftrightarrow> err_contains ''scheme must be https'' (validate_webex_url lw ''http://webex.com/api'' ''https'')"

definition test_invalid_domain :: "lower_table \<Rightarrow> bool" where
  "test_invalid_domain lw \<longleftrightarrow> err_contains ''not a recognized Webex domain'' (validate_webex_url lw ''https://evil.com/api'' ''https'')"

definition test_url_with_port :: "lower_table \<Rightarrow> bool" where
  "test_url_with_port lw \<longleftrightarrow> is_ok (validate_webex_url lw ''https://webex.com:443/api'' ''https'')"

definition test_missing_scheme :: "lower_table \<Rightarrow> bool" where
  "test_missing_scheme lw \<longleftrightarrow> isl (validate_webex_url lw ''webex.com/api'' ''https'')"

definition test_valid_kms_scheme :: "lower_table \<Rightarrow> bool" where
  "test_valid_kms_scheme lw \<longleftrightarrow> is_ok (validate_webex_url lw ''kms://ciscospark.com/keys'' ''kms'')"

definition test_valid_kms_scheme_with_path :: "lower_table \<Rightarrow> bool" where
  "test_valid_kms_scheme_with_path lw \<longleftrightarrow> is_ok (validate_webex_url lw ''kms://ciscospark.com/keys/key/123'' ''kms'')"

definition test_valid_kms_scheme_subdomain :: "lower_table \<Rightarrow> bool" where
  "test_valid_kms_scheme_subdomain lw \<longleftrightarrow> is_ok (validate_webex_url lw ''kms://encryption.ciscospark.com/keys'' ''kms'')"

definition test_rejects_https_when_kms_required :: "lower_table \<Rightarrow> bool" where
  "test_rejects_https_when_kms_required lw \<longleftrightarrow> err_contains ''scheme must be kms'' (validate_webex_url lw ''https://ciscospark.com/keys'' ''kms'')"

definition test_rejects_kms_when_https_required :: "lower_table \<Rightarrow> bool" where
  "test_rejects_kms_when_https_required lw \<longleftrightarrow> err_contains ''scheme must be https'' (validate_webex_url lw ''kms://ciscospark.com/keys'' ''https'')"

definition test_rejects_kms_invalid_domain :: "lower_table \<Rightarrow> bool" where
  "test_rejects_kms_invalid_domain lw \<longleftrightarrow> err_contains ''not a recognized Webex domain'' (validate_webex_url lw ''kms://evil.com/keys'' ''kms'')"

lemmas url_tests = test_valid_webex_com_https_def test_valid_wbx2_com_https_def test_valid_ciscospark_com_https_def test_valid_wss_scheme_def test_invalid_scheme_def test_invalid_domain_def test_url_with_port_def test_missing_scheme_def test_valid_kms_scheme_def test_valid_kms_scheme_with_path_def test_valid_kms_scheme_subdomain_def test_rejects_https_when_kms_required_def test_rejects_kms_when_https_required_def test_rejects_kms_invalid_domain_def

definition url_validation_tests :: "lower_table \<Rightarrow> bool list" where
  "url_validation_tests lw =
     [test_valid_webex_com_https lw,
      test_valid_wbx2_com_https lw,
      test_valid_ciscospark_com_https lw,
      test_valid_wss_scheme lw,
      test_invalid_scheme lw,
      test_invalid_domain lw,
      test_url_with_port lw,
      test_missing_scheme lw,
      test_valid_kms_scheme lw,
      test_valid_kms_scheme_with_path lw,
      test_valid_kms_scheme_subdomain lw,
      test_rejects_https_when_kms_required lw,
      test_rejects_kms_when_https_required lw,
      test_rejects_kms_invalid_domain lw]"

lemma url_validation_tests_pass: "list_all id (url_validation_tests lw)"
  unfolding url_validation_tests_def url_tests by code_simp

section \<open>\<^verbatim>\<open>id_utils.rs\<close>\<close>

definition test_roundtrip :: "('sk, 'pk, 'rsa) env \<Rightarrow> bool" where
  "test_roundtrip E \<longleftrightarrow>
     (let uuid = ''abc-123-def''; rest = to_rest_id E uuid ''MESSAGE'' in
      case from_rest_id E rest of Inl e \<Rightarrow> False | Inr back \<Rightarrow> back = uuid)"

definition test_invalid_base64 :: "('sk, 'pk, 'rsa) env \<Rightarrow> bool" where
  "test_invalid_base64 E \<longleftrightarrow> isl (from_rest_id E ''!!!invalid!!!'')"

definition id_utils_tests :: "('sk, 'pk, 'rsa) env \<Rightarrow> bool list" where
  "id_utils_tests E = [test_roundtrip E, test_invalid_base64 E]"

lemma id_utils_tests_pass:
  assumes "std_roundtrip E" "std_only_alphabet E"
  shows "list_all id (id_utils_tests E)"
proof -
  have "valid_str ''MESSAGE''" "valid_str ''abc-123-def''" by code_simp+
  then have "from_rest_id E (to_rest_id E ''abc-123-def'' ''MESSAGE'') = Inr ''abc-123-def''"
    by (intro rest_id_roundtrip [OF assms(1)]) auto
  moreover have "\<not> set ''!!!invalid!!!'' \<subseteq> std_alphabet" by (simp add: std_alphabet_def)
  then have "isl (std_decode E ''!!!invalid!!!'')"
    using assms(2) [unfolded std_only_alphabet_def, rule_format, of "''!!!invalid!!!''"]
    by (cases "std_decode E ''!!!invalid!!!''") (simp_all only: sum.disc, blast)
  then have "isl (from_rest_id E ''!!!invalid!!!'')" by (auto simp: from_rest_id_def split: sum.splits)
  ultimately show ?thesis by (simp add: id_utils_tests_def test_roundtrip_def test_invalid_base64_def Let_def)
qed

section \<open>\<^verbatim>\<open>mention_parser.rs\<close>\<close>

definition test_single_person_mention :: "('sk, 'pk, 'rsa) env \<Rightarrow> bool" where
  "test_single_person_mention E \<longleftrightarrow>
     (let html = ''<p><spark-mention data-object-type=\"person\" data-object-id=\"abc-123\">Alice</spark-mention> hello</p>'';
          m = parse_mentions E (Some html) in
      mentioned_people m = [''abc-123''] \<and> mentioned_groups m = [])"

definition test_group_mention :: "('sk, 'pk, 'rsa) env \<Rightarrow> bool" where
  "test_group_mention E \<longleftrightarrow>
     (let html = ''<p><spark-mention data-object-type=\"groupMention\" data-group-type=\"all\">All</spark-mention> hello</p>'';
          m = parse_mentions E (Some html) in
      mentioned_people m = [] \<and> mentioned_groups m = [''all''])"

definition test_mixed_mentions :: "('sk, 'pk, 'rsa) env \<Rightarrow> bool" where
  "test_mixed_mentions E \<longleftrightarrow>
     (let html = ''<p><spark-mention data-object-type=\"person\" data-object-id=\"p1\">Alice</spark-mention> and '' @
            ''<spark-mention data-object-type=\"groupMention\" data-group-type=\"all\">All</spark-mention></p>'';
          m = parse_mentions E (Some html) in
      mentioned_people m = [''p1''] \<and> mentioned_groups m = [''all''])"

definition test_duplicate_dedup :: "('sk, 'pk, 'rsa) env \<Rightarrow> bool" where
  "test_duplicate_dedup E \<longleftrightarrow>
     (let html = ''<spark-mention data-object-type=\"person\" data-object-id=\"p1\">A</spark-mention> '' @
            ''<spark-mention data-object-type=\"person\" data-object-id=\"p1\">A</spark-mention>'';
          m = parse_mentions E (Some html) in
      mentioned_people m = [''p1''])"

definition test_empty_html :: "('sk, 'pk, 'rsa) env \<Rightarrow> bool" where
  "test_empty_html E \<longleftrightarrow>
     (let m = parse_mentions E None in mentioned_people m = [] \<and> mentioned_groups m = [])"

definition test_no_mentions :: "('sk, 'pk, 'rsa) env \<Rightarrow> bool" where
  "test_no_mentions E \<longleftrightarrow>
     (let m = parse_mentions E (Some ''<p>Hello world</p>'') in mentioned_people m = [] \<and> mentioned_groups m = [])"

definition mention_tests :: "('sk, 'pk, 'rsa) env \<Rightarrow> bool list" where
  "mention_tests E = [test_single_person_mention E, test_group_mention E, test_mixed_mentions E,
     test_duplicate_dedup E, test_empty_html E, test_no_mentions E]"

text \<open>The texts of the tests in parts.\<close>

lemma test_as_parts:
  assumes "html = html_of ps" "list_all part_ok ps" "Q \<lparr>mentioned_people = firsts (people_of ps), mentioned_groups = firsts (groups_of ps)\<rparr>"
  shows "let h = html; m = parse_mentions (with_regex E) (Some h) in Q m"
  using assms(3) by (simp add: assms(1) parse_parts [OF assms(2)])

lemma mention_tests_pass: "list_all id (mention_tests (with_regex E))"
proof -
  have "test_single_person_mention (with_regex E)"
    unfolding test_single_person_mention_def
    by (rule test_as_parts [of _ "[Other ''<p>'', Person ''abc-123'' ''Alice'', Other '' hello</p>'']"]) code_simp+
  moreover have "test_group_mention (with_regex E)"
    unfolding test_group_mention_def
    by (rule test_as_parts [of _ "[Other ''<p>'', Everyone ''all'' ''All'', Other '' hello</p>'']"]) code_simp+
  moreover have "test_mixed_mentions (with_regex E)"
    unfolding test_mixed_mentions_def
    by (rule test_as_parts [of _ "[Other ''<p>'', Person ''p1'' ''Alice'', Other '' and '', Everyone ''all'' ''All'', Other ''</p>'']"]) code_simp+
  moreover have "test_duplicate_dedup (with_regex E)"
    unfolding test_duplicate_dedup_def
    by (rule test_as_parts [of _ "[Person ''p1'' ''A'', Other '' '', Person ''p1'' ''A'']"]) code_simp+
  moreover have "test_no_mentions (with_regex E)"
    unfolding test_no_mentions_def
    by (rule test_as_parts [of _ "[Other ''<p>Hello world</p>'']", unfolded Let_def [of "_ :: string"]]) code_simp+
  ultimately show ?thesis
    by (simp add: mention_tests_def test_empty_html_def parse_mentions_def parsed_mentions_default_def)
qed

section \<open>\<^verbatim>\<open>message_decryptor.rs\<close>\<close>

text \<open>The fetch function of the tests refuses every request.\<close>

definition failing_fetch :: "fetch_request list \<Rightarrow> fetch_request \<Rightarrow> string + fetch_response" where
  "failing_fetch sent req = Inl ''fetch must not be called in this test''"

definition seed_key :: "string \<Rightarrow> bytes \<Rightarrow> kms_client \<Rightarrow> kms_client" where
  "seed_key key_uri key c = c\<lparr>kc_key_cache := cache_insert key_uri key (kc_key_cache c)\<rparr>"

definition seeded_kms :: "string \<Rightarrow> bytes \<Rightarrow> kms_client" where
  "seeded_kms key_uri key = seed_key key_uri key
     (kms_client_new ''test-token'' ''https://wdm.example.com/device'' ''user-123'' ''https://encryption.example.com'')"

abbreviation KEY_URI :: string where
  "KEY_URI \<equiv> ''https://kms.example.com/keys/test-key''"

definition card_inputs :: json where
  "card_inputs = json_obj [(''card_action'', JString ''answer_feedback''), (''response_event_id'', JString ''evt-123''),
     (''verdict'', JString ''up'')]"

definition card_activity :: "string \<Rightarrow> mercury_activity" where
  "card_activity encrypted_jwe =
     \<lparr>av_id = ''activity-123'', av_url = None, av_verb = ''cardAction'',
      av_actor = \<lparr>ac_id = ''actor-123'', ac_object_type = ''person'', ac_email_address = Some ''user@example.com''\<rparr>,
      av_object = \<lparr>ob_id = ''object-123'', ob_object_type = ''submit'', ob_display_name = None, ob_content = None,
        ob_encryption_key_url = None, ob_inputs = Some (JString encrypted_jwe), ob_inputs_encrypted = None, ob_files = None\<rparr>,
      av_target = \<lparr>tg_id = ''target-123'', tg_object_type = ''conversation'', tg_encryption_key_url = None, tg_tags = []\<rparr>,
      av_published = ''2024-01-01T00:00:00Z'', av_encryption_key_url = Some KEY_URI, av_parent = None\<rparr>"

definition test_decrypt_activity_with_encrypted_inputs :: "('sk, 'pk, 'rsa) env \<Rightarrow> world \<Rightarrow> bool" where
  "test_decrypt_activity_with_encrypted_inputs E0 w0 \<longleftrightarrow>
     (let E = E0\<lparr>http_do := failing_fetch\<rparr>; test_key = map word_of_nat [0..<32] in
      case encrypt_dir_a256gcm E (as_bytes (json_to_string E card_inputs)) test_key ''test-kid'' ((), w0) of
        (Ok encrypted_jwe, (_, w)) \<Rightarrow>
          (let raw = card_activity encrypted_jwe;
               activity = raw\<lparr>av_object := finalize_inputs (av_object raw)\<rparr> in
           ob_inputs_encrypted (av_object activity) \<noteq> None \<and> ob_inputs (av_object activity) = None \<and>
           (case decrypt_activity E activity (seeded_kms KEY_URI test_key, w) of
              (Ok decrypted, _) \<Rightarrow>
                (case ob_inputs (av_object decrypted) of
                   None \<Rightarrow> False
                 | Some inputs \<Rightarrow>
                     as_str (json_index inputs ''card_action'') = Some ''answer_feedback'' \<and>
                     as_str (json_index inputs ''response_event_id'') = Some ''evt-123'' \<and>
                     as_str (json_index inputs ''verdict'') = Some ''up'')
            | _ \<Rightarrow> False))
      | _ \<Rightarrow> False)"

definition bad_activity :: mercury_activity where
  "bad_activity =
     \<lparr>av_id = ''activity-bad'', av_url = None, av_verb = ''cardAction'',
      av_actor = \<lparr>ac_id = ''actor-1'', ac_object_type = ''person'', ac_email_address = None\<rparr>,
      av_object = \<lparr>ob_id = ''obj-1'', ob_object_type = ''submit'', ob_display_name = None, ob_content = None,
        ob_encryption_key_url = None, ob_inputs = Some (JString ''not-a-valid-jwe''), ob_inputs_encrypted = None, ob_files = None\<rparr>,
      av_target = \<lparr>tg_id = ''room-1'', tg_object_type = ''conversation'', tg_encryption_key_url = None, tg_tags = []\<rparr>,
      av_published = ''2024-01-01T00:00:00Z'', av_encryption_key_url = Some KEY_URI, av_parent = None\<rparr>"

definition test_decrypt_activity_bad_inputs_ciphertext_warns_not_errors :: "('sk, 'pk, 'rsa) env \<Rightarrow> world \<Rightarrow> bool" where
  "test_decrypt_activity_bad_inputs_ciphertext_warns_not_errors E0 w \<longleftrightarrow>
     (let E = E0\<lparr>http_do := failing_fetch\<rparr>; test_key = replicate 32 0x11;
          activity = bad_activity\<lparr>av_object := finalize_inputs (av_object bad_activity)\<rparr> in
      case decrypt_activity E activity (seeded_kms KEY_URI test_key, w) of
        (Ok decrypted, _) \<Rightarrow> ob_inputs (av_object decrypted) = None
      | _ \<Rightarrow> False)"

definition test_finalize_inputs_converts_string_to_encrypted :: bool where
  "test_finalize_inputs_converts_string_to_encrypted \<longleftrightarrow>
     (let encrypted_jwe = ''eyJhbGciOiJkaXIiLCJlbmMiOiJBMjU2R0NNIn0.test.test.test.test'';
          obj = finalize_inputs (object_default\<lparr>ob_id := ''test'', ob_object_type := ''submit'',
            ob_inputs := Some (JString encrypted_jwe), ob_inputs_encrypted := None\<rparr>) in
      ob_inputs_encrypted obj = Some encrypted_jwe \<and> ob_inputs obj = None)"

definition test_finalize_inputs_leaves_object_unchanged :: bool where
  "test_finalize_inputs_leaves_object_unchanged \<longleftrightarrow>
     (let inputs_obj = json_obj [(''key'', JString ''value'')];
          obj = finalize_inputs (object_default\<lparr>ob_id := ''test'', ob_object_type := ''submit'',
            ob_inputs := Some inputs_obj, ob_inputs_encrypted := None\<rparr>) in
      ob_inputs obj = Some inputs_obj \<and> ob_inputs_encrypted obj = None)"

definition decryptor_tests :: "('sk, 'pk, 'rsa) env \<Rightarrow> world \<Rightarrow> bool list" where
  "decryptor_tests E w = [test_decrypt_activity_with_encrypted_inputs E w,
     test_decrypt_activity_bad_inputs_ciphertext_warns_not_errors E w,
     test_finalize_inputs_converts_string_to_encrypted, test_finalize_inputs_leaves_object_unchanged]"

text \<open>AES-256-GCM accepts a short message under a key and a nonce of the right lengths.\<close>

definition gcm_accepts :: "('sk, 'pk, 'rsa) env \<Rightarrow> bool" where
  "gcm_accepts E \<longleftrightarrow> (\<forall>k v aad pt. length k = 32 \<longrightarrow> length v = 12 \<longrightarrow> \<not> isl (gcm_encrypt E k v aad pt))"

lemma decrypt_activity_inputs:
  assumes "decrypt_message_jwe E token k = Ok pt" "json_from_slice E pt = Inr j" "token \<noteq> []"
    and "find_key_url a = Some u" "cache_get u (kc_key_cache c) = Some k"
    and "ob_display_name (av_object a) = None" "ob_content (av_object a) = None" "ob_inputs_encrypted (av_object a) = Some token"
  shows "\<exists>b. decrypt_activity E a (c, w) = (Ok b, (c, w)) \<and> ob_inputs (av_object b) = Some j"
  using assms
  by (simp add: decrypt_activity_def decrypt_object_def decrypt_text_def decrypt_inputs_def get_key_def effect_defs)

lemma encrypt_dir_Ok:
  assumes "jose_laws E" "length k = 32" "\<And>v aad pt. length v = 12 \<Longrightarrow> \<not> isl (gcm_encrypt E k v aad pt)"
  shows "\<exists>token w. encrypt_dir_a256gcm E pt k kid (x, w0) = (Ok token, (x, w))"
proof -
  have "16 \<le> length ct" if "gcm_encrypt E k v aad pt = Inr ct" "length v = 12" for v aad ct
    using assms(1,2) that unfolding jose_laws_def gcm_correct_def by blast
  then have "\<exists>p. gcm_seal E k v aad pt = Ok p" if "length v = 12" for v aad
    using assms(2) assms(3) [OF that, of aad pt] that
    by (cases "gcm_encrypt E k v aad pt") (auto simp: gcm_seal_def gcm_key_init_def of_sum_def not_less)
  then obtain f where "\<And>v aad. length v = 12 \<Longrightarrow> gcm_seal E k v aad pt = Ok (f v aad)" by metis
  moreover have "length (fill_bytes E i 12) = 12" for i using assms(1) by (simp add: jose_laws_def random_length_def)
  ultimately show ?thesis by (simp add: encrypt_dir_a256gcm_def effect_defs Let_def split_beta)
qed

lemma seeded_cache: "cache_get u (kc_key_cache (seeded_kms u k)) = Some k"
  by (simp add: seeded_kms_def seed_key_def cache_get_def cache_insert_def AList.update_conv)

lemma encrypted_inputs_pass:
  assumes "jose_laws E" "gcm_accepts E"
  shows "test_decrypt_activity_with_encrypted_inputs E w0"
proof -
  let ?E = "E\<lparr>http_do := failing_fetch\<rparr>" and ?k = "map word_of_nat [0..<32] :: bytes"
  have laws: "jose_laws ?E" using assms(1)
    by (simp add: jose_laws_def url_roundtrip_def url_no_dot_def json_roundtrip_def gcm_correct_def kw_correct_def random_length_def)
  have kid: "valid_str ''test-kid''" and wf: "json_wf card_inputs" by code_simp+
  have j: "json_from_slice ?E (as_bytes (json_to_string ?E card_inputs)) = Inr card_inputs"
    using laws wf by (simp only: jose_laws_def json_roundtrip_def)
  obtain token w where enc: "encrypt_dir_a256gcm ?E (as_bytes (json_to_string ?E card_inputs)) ?k ''test-kid'' ((), w0) = (Ok token, ((), w))"
  proof -
    have "\<not> isl (gcm_encrypt ?E ?k v aad pt)" if "length v = 12" for v aad pt using assms(2) that by (simp add: gcm_accepts_def)
    from encrypt_dir_Ok [OF laws _ this] show ?thesis by (metis that length_map length_upt diff_zero)
  qed
  let ?a = "(card_activity token)\<lparr>av_object := finalize_inputs (av_object (card_activity token))\<rparr>"
  have a: "find_key_url ?a = Some KEY_URI" "ob_display_name (av_object ?a) = None" "ob_content (av_object ?a) = None"
    "ob_inputs_encrypted (av_object ?a) = Some token" "ob_inputs (av_object ?a) = None"
    by (simp_all add: card_activity_def finalize_inputs_def find_key_url_def non_empty_def)
  have "\<exists>b. decrypt_activity ?E ?a (seeded_kms KEY_URI ?k, w) = (Ok b, (seeded_kms KEY_URI ?k, w)) \<and> ob_inputs (av_object b) = Some card_inputs"
    using dir_reads_back [OF laws _ kid enc] j encrypt_dir_nonempty [OF enc] a(1) _ a(2-4)
    by (rule decrypt_activity_inputs) (simp_all add: seeded_cache)
  then obtain b where b: "decrypt_activity ?E ?a (seeded_kms KEY_URI ?k, w) = (Ok b, (seeded_kms KEY_URI ?k, w))"
    "ob_inputs (av_object b) = Some card_inputs" by blast
  have "as_str (json_index card_inputs ''card_action'') = Some ''answer_feedback'' \<and>
    as_str (json_index card_inputs ''response_event_id'') = Some ''evt-123'' \<and> as_str (json_index card_inputs ''verdict'') = Some ''up''"
    by code_simp
  with a b show ?thesis
    by (simp only: test_decrypt_activity_with_encrypted_inputs_def Let_def enc prod.case outcome.case option.case) simp
qed

lemma bad_inputs_pass: "test_decrypt_activity_bad_inputs_ciphertext_warns_not_errors E w"
proof -
  have "decrypt_message_jwe E' ''not-a-valid-jwe'' k = Err (kms (''Invalid JWE compact: expected 5 parts, got '' @ show_nat (Suc 0)))" for E' :: "('a, 'b, 'c) env" and k
    by (simp add: decrypt_message_jwe_def parse_jwe_compact_def)
  then show ?thesis
    by (simp add: test_decrypt_activity_bad_inputs_ciphertext_warns_not_errors_def Let_def bad_activity_def finalize_inputs_def
        decrypt_activity_def find_key_url_def non_empty_def get_key_def effect_defs seeded_cache decrypt_object_def decrypt_text_def decrypt_inputs_def)
qed

lemma finalize_tests_pass: "test_finalize_inputs_converts_string_to_encrypted" "test_finalize_inputs_leaves_object_unchanged"
  unfolding test_finalize_inputs_converts_string_to_encrypted_def test_finalize_inputs_leaves_object_unchanged_def by code_simp+

section \<open>\<^verbatim>\<open>mercury_socket.rs\<close>\<close>

definition test_socket :: "u32 \<Rightarrow> real \<Rightarrow> mercury_socket" where
  "test_socket max_reconnect_attempts reconnect_stability =
     mercury_socket_new 15 14 (1 / 1000) max_reconnect_attempts reconnect_stability"

text \<open>The close path of the read loop, its backoff slept out.\<close>

definition test_close :: "mercury_socket \<Rightarrow> mercury_socket" where
  "test_close ms =
     (case handle_close_static 1006 ms of (st, None) \<Rightarrow> st | (st, Some delay) \<Rightarrow> reconnect_needed st)"

text \<open>The stability task after a sleep that ends \<open>elapsed\<close> seconds from its start.\<close>

definition stability_after :: "real \<Rightarrow> mercury_socket \<Rightarrow> mercury_socket" where
  "stability_after elapsed ms =
     (if ms_stability_pending ms \<and> ms_reconnect_stability ms \<le> elapsed then attempts_reset_fires ms else ms)"

definition stability_window_resets_attempts :: bool where
  "stability_window_resets_attempts \<longleftrightarrow>
     (let ms0 = schedule_attempts_reset ((test_socket 10 (50 / 1000))\<lparr>ms_reconnect_attempts := 2\<rparr>);
          ms1 = stability_after (10 / 1000) ms0;
          ms2 = stability_after (160 / 1000) ms1 in
      current_reconnect_attempts ms1 = 2 \<and> current_reconnect_attempts ms2 = 0)"

definition flap_before_stability_preserves_attempts :: bool where
  "flap_before_stability_preserves_attempts \<longleftrightarrow>
     (let ms0 = schedule_attempts_reset ((test_socket 10 5)\<lparr>ms_reconnect_attempts := 4\<rparr>);
          ms1 = test_close (ms0\<lparr>ms_should_reconnect := False\<rparr>) in
      current_reconnect_attempts ms1 = 4 \<and> \<not> ms_stability_pending ms1)"

definition disconnect_reasons :: "mercury_event list \<Rightarrow> string list" where
  "disconnect_reasons evs = List.map_filter (\<lambda>ev. case ev of EvDisconnected reason \<Rightarrow> Some reason | _ \<Rightarrow> None) evs"

fun flap_cycles :: "nat list \<Rightarrow> mercury_socket \<Rightarrow> bool \<times> mercury_socket" where
  "flap_cycles [] ms = (True, ms)"
| "flap_cycles (cycle # cycles) ms =
     (let ms1 = test_close (schedule_attempts_reset ms);
          (rest, ms2) = flap_cycles cycles ms1 in
      (unat (current_reconnect_attempts ms1) = cycle \<and> rest, ms2))"

definition flap_storm_trips_max_attempts :: bool where
  "flap_storm_trips_max_attempts \<longleftrightarrow>
     (let (rx, ms0) = take_event_rx (test_socket 3 3600);
          (counted, ms1) = flap_cycles [1, 2, 3] ms0;
          ms2 = test_close (schedule_attempts_reset ms1);
          reasons = disconnect_reasons (ms_events ms2) in
      rx \<and> counted \<and> current_reconnect_attempts ms2 = 3 \<and> \<not> ms_should_reconnect ms2 \<and>
      length (filter (\<lambda>r. r = ''reconnect-needed'') reasons) = 3 \<and>
      length (filter (\<lambda>r. r = ''max-attempts-exceeded'') reasons) = 1)"

definition mercury_tests :: "bool list" where
  "mercury_tests = [stability_window_resets_attempts, flap_before_stability_preserves_attempts, flap_storm_trips_max_attempts]"

lemma test_close_cases:
  "ms_should_reconnect ms \<Longrightarrow> ms_reconnect_attempts ms < ms_max_reconnect_attempts ms \<Longrightarrow>
     test_close ms = ms\<lparr>ms_connected := False, ms_stability_pending := False, ms_reconnect_attempts := ms_reconnect_attempts ms + 1,
       ms_events := ms_events ms @ [EvReconnecting (ms_reconnect_attempts ms + 1), EvDisconnected ''reconnect-needed'']\<rparr>"
  "ms_should_reconnect ms \<Longrightarrow> \<not> ms_reconnect_attempts ms < ms_max_reconnect_attempts ms \<Longrightarrow>
     test_close ms = ms\<lparr>ms_connected := False, ms_stability_pending := False, ms_should_reconnect := False,
       ms_events := ms_events ms @ [EvDisconnected ''max-attempts-exceeded'']\<rparr>"
  "\<not> ms_should_reconnect ms \<Longrightarrow>
     test_close ms = ms\<lparr>ms_connected := False, ms_stability_pending := False, ms_events := ms_events ms @ [EvDisconnected ''manual'']\<rparr>"
  by (simp_all add: test_close_def handle_close_static_def cancel_stability_timer_def reconnect_needed_def emit_def Let_def not_less)

lemmas socket_test_defs = test_socket_def mercury_socket_new_def schedule_attempts_reset_def current_reconnect_attempts_def

lemma stability_window_passes: "stability_window_resets_attempts"
  by (simp add: stability_window_resets_attempts_def stability_after_def attempts_reset_fires_def socket_test_defs Let_def)

lemma flap_before_stability_passes: "flap_before_stability_preserves_attempts"
  by (simp add: flap_before_stability_preserves_attempts_def test_close_cases socket_test_defs Let_def)

lemma flap_storm_passes: "flap_storm_trips_max_attempts"
  by (simp add: flap_storm_trips_max_attempts_def test_close_cases take_event_rx_def disconnect_reasons_def map_filter_def
      socket_test_defs Let_def)

lemma mercury_tests_pass: "list_all id mercury_tests"
  by (simp add: mercury_tests_def stability_window_passes flap_before_stability_passes flap_storm_passes)

section \<open>All tests\<close>


lemma sample_gcm_accepts: "gcm_accepts sample_env"
  by (simp add: gcm_accepts_def sample_env_def)


end
