(* ===== verification/Device_Tests.thy ===== *)
theory Device_Tests
  imports Unit_Tests
begin

text \<open>
  The unit tests of \<^verbatim>\<open>device_manager.rs\<close>: registration against two mock servers, one that answers by
  method and one that answers by method and URL. A mock keeps its queue between calls; here its state
  is replayed from the calls made so far.
\<close>

section \<open>The mocks\<close>

abbreviation DEVICE_URL :: string where
  "DEVICE_URL \<equiv> ''https://wdm-a.wbx2.com/wdm/api/v1/devices/dev-123''"

abbreviation WS_URL :: string where
  "WS_URL \<equiv> ''wss://mercury-connection-a.wbx2.com/ws''"

record mock_call =
  cl_method :: string
  cl_url :: string

definition call_of :: "fetch_request \<Rightarrow> mock_call" where
  "call_of req = \<lparr>cl_method = rq_method req, cl_url = rq_url req\<rparr>"

definition json_response :: "('sk, 'pk, 'rsa) env \<Rightarrow> u16 \<times> json \<Rightarrow> fetch_response" where
  "json_response E = (\<lambda>(status, body).
     \<lparr>rs_status = status, rs_ok = (200 \<le> status \<and> status < 300), rs_body = as_bytes (json_to_string E body)\<rparr>)"

text \<open>The queue of each method; the last answer of a queue stays.\<close>

type_synonym queues = "string \<Rightarrow> (u16 \<times> json) list"

definition mock_queues :: "(string \<times> u16 \<times> json) list \<Rightarrow> queues" where
  "mock_queues responses m = map snd (filter (\<lambda>(m', r). m' = m) responses)"

definition mock_take :: "mock_call \<Rightarrow> queues \<Rightarrow> (u16 \<times> json) \<times> queues" where
  "mock_take c q =
     (case q (cl_method c) of
        [] \<Rightarrow> ((500, json_obj []), q)
      | r # rs \<Rightarrow> (r, if rs = [] then q else q(cl_method c := rs)))"

definition mock_answer :: "(string \<times> u16 \<times> json) list \<Rightarrow> mock_call list \<Rightarrow> mock_call \<Rightarrow> u16 \<times> json" where
  "mock_answer responses calls c = fst (mock_take c (fold (\<lambda>c q. snd (mock_take c q)) calls (mock_queues responses)))"

definition mock_fetch ::
  "('sk, 'pk, 'rsa) env \<Rightarrow> (string \<times> u16 \<times> json) list \<Rightarrow> fetch_request list \<Rightarrow> fetch_request \<Rightarrow> string + fetch_response" where
  "mock_fetch E responses sent req = Inr (json_response E (mock_answer responses (map call_of sent) (call_of req)))"

text \<open>The routes: the first that fits answers, and goes unless it is the last one of the list.\<close>

type_synonym route = "string \<times> string \<times> u16 \<times> json"

definition route_fits :: "mock_call \<Rightarrow> route \<Rightarrow> bool" where
  "route_fits c = (\<lambda>(m, u, r). cl_method c = m \<and> str_contains u (cl_url c))"

fun route_take :: "mock_call \<Rightarrow> route list \<Rightarrow> (u16 \<times> json) option \<times> route list" where
  "route_take c [] = (None, [])"
| "route_take c (r # rs) =
     (if route_fits c r then (Some (snd (snd r)), if rs = [] then [r] else rs)
      else let (answer, rs') = route_take c rs in (answer, r # rs'))"

definition route_answer :: "route list \<Rightarrow> mock_call list \<Rightarrow> mock_call \<Rightarrow> (u16 \<times> json) option" where
  "route_answer routes calls c = fst (route_take c (fold (\<lambda>c rs. snd (route_take c rs)) calls routes))"

definition mock_fetch_by_url ::
  "('sk, 'pk, 'rsa) env \<Rightarrow> route list \<Rightarrow> fetch_request list \<Rightarrow> fetch_request \<Rightarrow> string + fetch_response" where
  "mock_fetch_by_url E routes sent req =
     (case route_answer routes (map call_of sent) (call_of req) of
        Some r \<Rightarrow> Inr (json_response E r)
      | None \<Rightarrow> Inl (''unexpected request: '' @ rq_method req @ '' '' @ rq_url req))"

definition device_json :: json where
  "device_json = json_obj
     [(''webSocketUrl'', JString WS_URL), (''url'', JString DEVICE_URL), (''userId'', JString ''user-123''),
      (''services'', json_obj [(''encryptionServiceUrl'', JString ''https://encryption-a.wbx2.com/e/v1'')])]"

text \<open>\<open>dm.register("tok").await.unwrap()\<close> and the calls it made.\<close>

definition run_register ::
  "('sk, 'pk, 'rsa) env \<Rightarrow> (fetch_request list \<Rightarrow> fetch_request \<Rightarrow> string + fetch_response) \<Rightarrow> device_manager \<Rightarrow>
   (Types.device_registration \<times> mock_call list) option" where
  "run_register E fetch dm =
     (case register (E\<lparr>http_do := fetch\<rparr>) ''tok'' (dm, world_init) of
        (Ok reg, (dm', w)) \<Rightarrow> Some (reg, map call_of (w_sent w))
      | _ \<Rightarrow> None)"

section \<open>Reuse, reaping and the fallback to a new device\<close>

definition listed_json :: json where
  "listed_json = json_obj [(''devices'', JArray [json_obj
     [(''webSocketUrl'', JString WS_URL), (''url'', JString DEVICE_URL), (''userId'', JString ''user-123''),
      (''name'', JString ''webex-message-handler''), (''deviceType'', JString ''DESKTOP''),
      (''services'', json_obj [(''encryptionServiceUrl'', JString ''https://encryption-a.wbx2.com/e/v1'')])]])]"

definition reuse_responses :: "(string \<times> u16 \<times> json) list" where
  "reuse_responses = [(''GET'', 200, listed_json), (''PUT'', 200, device_json)]"

definition reuses_existing_device_via_refresh_not_create :: "('sk, 'pk, 'rsa) env \<Rightarrow> bool" where
  "reuses_existing_device_via_refresh_not_create E \<longleftrightarrow>
     (case run_register E (mock_fetch E reuse_responses) (set_wdm_devices_url WDM_API_BASE device_manager_new) of
        None \<Rightarrow> False
      | Some (reg, calls) \<Rightarrow>
          dr_device_url reg = DEVICE_URL \<and> map cl_method calls = [''GET'', ''PUT''] \<and> cl_url (calls ! 1) = DEVICE_URL)"

definition empty_json :: json where
  "empty_json = json_obj [(''devices'', JArray [])]"

definition ours_json :: json where
  "ours_json = json_obj [(''devices'', JArray [json_obj
     [(''url'', JString DEVICE_URL), (''name'', JString ''webex-message-handler''), (''deviceType'', JString ''DESKTOP''),
      (''webSocketUrl'', JString WS_URL), (''userId'', JString ''u''), (''services'', json_obj [])]])]"

definition reap_responses :: "(string \<times> u16 \<times> json) list" where
  "reap_responses = [(''GET'', 200, empty_json), (''POST'', 403, json_obj []), (''GET'', 200, ours_json),
     (''DELETE'', 204, json_obj []), (''POST'', 200, device_json)]"

definition reaps_and_retries_on_excessive_registrations_403 :: "('sk, 'pk, 'rsa) env \<Rightarrow> bool" where
  "reaps_and_retries_on_excessive_registrations_403 E \<longleftrightarrow>
     (case run_register E (mock_fetch E reap_responses) (set_wdm_devices_url WDM_API_BASE device_manager_new) of
        None \<Rightarrow> False
      | Some (reg, calls) \<Rightarrow>
          dr_device_url reg = DEVICE_URL \<and> map cl_method calls = [''GET'', ''POST'', ''GET'', ''DELETE'', ''POST''] \<and>
          str_contains ''includeUpstreamServices=all'' (cl_url (calls ! 1)) \<and> cl_url (calls ! 3) = DEVICE_URL)"

definition falls_back_to_create_when_list_fails :: "('sk, 'pk, 'rsa) env \<Rightarrow> bool" where
  "falls_back_to_create_when_list_fails E \<longleftrightarrow>
     (case run_register E (mock_fetch E [(''GET'', 500, json_obj []), (''POST'', 200, device_json)])
         (set_wdm_devices_url WDM_API_BASE device_manager_new) of
        None \<Rightarrow> False
      | Some (reg, calls) \<Rightarrow> dr_device_url reg = DEVICE_URL \<and> map cl_method calls = [''GET'', ''POST''])"

section \<open>Discovery\<close>

definition u2c_json :: "string \<Rightarrow> json" where
  "u2c_json wdm = json_obj [(''serviceLinks'', json_obj [(''wdm'', JString wdm)])]"

definition regional_json :: json where
  "regional_json = json_obj
     [(''webSocketUrl'', JString WS_URL), (''url'', JString ''https://wdm-r.wbx2.com/wdm/api/v1/devices/test-123''),
      (''userId'', JString ''user-123''), (''services'', json_obj [])]"

definition regional_routes :: "route list" where
  "regional_routes = [(''GET'', ''u2c.wbx2.com'', 200, u2c_json ''https://wdm-r.wbx2.com/wdm/api/v1''),
     (''GET'', ''wdm-r.wbx2.com'', 200, empty_json), (''POST'', ''wdm-r.wbx2.com'', 200, regional_json)]"

definition fallback_routes :: "u16 \<Rightarrow> json \<Rightarrow> route list" where
  "fallback_routes status catalog = [(''GET'', ''u2c.wbx2.com'', status, catalog),
     (''GET'', ''wdm-a.wbx2.com'', 200, empty_json), (''POST'', ''wdm-a.wbx2.com'', 200, device_json)]"

text \<open>\<open>calls.iter().find(|c| c.method == "POST").unwrap()\<close> and its URL\<close>

definition posted_to :: "string \<Rightarrow> mock_call list \<Rightarrow> bool" where
  "posted_to host calls = (case List.find (\<lambda>c. cl_method c = ''POST'') calls of
     None \<Rightarrow> False | Some post_call \<Rightarrow> str_contains host (cl_url post_call))"

definition discovers_region_correct_wdm_endpoint_from_u2c :: "('sk, 'pk, 'rsa) env \<Rightarrow> bool" where
  "discovers_region_correct_wdm_endpoint_from_u2c E \<longleftrightarrow>
     (case run_register E (mock_fetch_by_url E regional_routes) device_manager_new of
        None \<Rightarrow> False
      | Some (reg, calls) \<Rightarrow>
          dr_device_url reg = ''https://wdm-r.wbx2.com/wdm/api/v1/devices/test-123'' \<and> posted_to ''wdm-r.wbx2.com'' calls)"

definition falls_back_to_wdm_a_when_u2c_returns_non_2xx :: "('sk, 'pk, 'rsa) env \<Rightarrow> bool" where
  "falls_back_to_wdm_a_when_u2c_returns_non_2xx E \<longleftrightarrow>
     (case run_register E (mock_fetch_by_url E (fallback_routes 500 (json_obj []))) device_manager_new of
        None \<Rightarrow> False
      | Some (reg, calls) \<Rightarrow> dr_device_url reg = DEVICE_URL \<and> posted_to ''wdm-a.wbx2.com'' calls)"

definition falls_back_to_wdm_a_when_u2c_has_no_wdm_link :: "('sk, 'pk, 'rsa) env \<Rightarrow> bool" where
  "falls_back_to_wdm_a_when_u2c_has_no_wdm_link E \<longleftrightarrow>
     (case run_register E (mock_fetch_by_url E (fallback_routes 200 (json_obj [(''serviceLinks'', json_obj [])]))) device_manager_new of
        None \<Rightarrow> False
      | Some (reg, calls) \<Rightarrow> dr_device_url reg = DEVICE_URL \<and> posted_to ''wdm-a.wbx2.com'' calls)"

definition rejects_untrusted_wdm_host_from_u2c_and_falls_back :: "('sk, 'pk, 'rsa) env \<Rightarrow> bool" where
  "rejects_untrusted_wdm_host_from_u2c_and_falls_back E \<longleftrightarrow>
     (case run_register E (mock_fetch_by_url E (fallback_routes 200 (u2c_json ''https://evil.example.com/wdm/api/v1''))) device_manager_new of
        None \<Rightarrow> False
      | Some (reg, calls) \<Rightarrow> dr_device_url reg = DEVICE_URL \<and> posted_to ''wdm-a.wbx2.com'' calls)"

definition caches_discovered_wdm_endpoint :: "('sk, 'pk, 'rsa) env \<Rightarrow> bool" where
  "caches_discovered_wdm_endpoint E \<longleftrightarrow>
     (case run_register E (mock_fetch_by_url E regional_routes) device_manager_new of
        None \<Rightarrow> False
      | Some (reg, calls) \<Rightarrow> length (filter (\<lambda>c. str_contains ''u2c.wbx2.com'' (cl_url c)) calls) = 1)"

definition device_tests :: "('sk, 'pk, 'rsa) env \<Rightarrow> bool list" where
  "device_tests E =
     [reuses_existing_device_via_refresh_not_create E, reaps_and_retries_on_excessive_registrations_403 E,
      falls_back_to_create_when_list_fails E, discovers_region_correct_wdm_endpoint_from_u2c E,
      falls_back_to_wdm_a_when_u2c_returns_non_2xx E, falls_back_to_wdm_a_when_u2c_has_no_wdm_link E,
      rejects_untrusted_wdm_host_from_u2c_and_falls_back E, caches_discovered_wdm_endpoint E]"

section \<open>The tests pass\<close>

text \<open>\<open>serde_json\<close> reads a printed document as the struct its value deserialises to.\<close>

definition serde_reads :: "('sk, 'pk, 'rsa) env \<Rightarrow> bool" where
  "serde_reads E \<longleftrightarrow> json_roundtrip E \<and>
     (\<forall>j r. json_wf j \<longrightarrow> de_registration j = Some r \<longrightarrow> reg_from_slice E (as_bytes (json_to_string E j)) = Inr r) \<and>
     (\<forall>j vs. json_wf j \<longrightarrow> Option.bind (json_get ''devices'' j) as_array = Some vs \<longrightarrow>
        device_list_from_slice E (as_bytes (json_to_string E j)) = Inr vs)"

lemma catalogs_wf:
  "json_wf (u2c_json ''https://wdm-r.wbx2.com/wdm/api/v1'')" "json_wf (u2c_json ''https://evil.example.com/wdm/api/v1'')"
  "json_wf (json_obj [(''serviceLinks'', json_obj [])])"
  by code_simp+

text \<open>What the manager reads from each document.\<close>

definition registers_as :: "string \<Rightarrow> json \<Rightarrow> bool" where
  "registers_as url j \<longleftrightarrow> json_wf j \<and>
     (case de_registration j of
        None \<Rightarrow> False
      | Some r \<Rightarrow> dr_device_url r = url \<and> dr_web_socket_url r = WS_URL \<and>
          (let enc = dr_encryption_service_url (with_encryption_url r) in enc = [] \<or> enc = ''https://encryption-a.wbx2.com/e/v1''))"

definition lists_as :: "string list \<Rightarrow> json \<Rightarrow> bool" where
  "lists_as urls j \<longleftrightarrow> json_wf j \<and>
     (case Option.bind (json_get ''devices'' j) as_array of
        None \<Rightarrow> False
      | Some vs \<Rightarrow> list_all own_device (List.map_filter de_registration vs) \<and> map dr_device_url (List.map_filter de_registration vs) = urls)"

lemma documents_read:
  "registers_as DEVICE_URL device_json" "registers_as ''https://wdm-r.wbx2.com/wdm/api/v1/devices/test-123'' regional_json"
  "lists_as [] empty_json" "lists_as [DEVICE_URL] listed_json" "lists_as [DEVICE_URL] ours_json"
  by code_simp+

text \<open>The environment of a test, and the world after a request.\<close>

abbreviation with_fetch :: "('sk, 'pk, 'rsa) env \<Rightarrow> (fetch_request list \<Rightarrow> fetch_request \<Rightarrow> string + fetch_response) \<Rightarrow> ('sk, 'pk, 'rsa) env" where
  "with_fetch E f \<equiv> E\<lparr>http_do := f\<rparr>"

abbreviation after :: "world \<Rightarrow> fetch_request \<Rightarrow> world" where
  "after w req \<equiv> w\<lparr>w_sent := w_sent w @ [req]\<rparr>"

abbreviation post_request :: "('sk, 'pk, 'rsa) env \<Rightarrow> string \<Rightarrow> fetch_request" where
  "post_request E base \<equiv> body_request E ''POST'' ''tok'' (base @ ''?includeUpstreamServices=all'')"

lemma test_urls_trusted: "validate_webex_url lw WS_URL ''wss'' = Inr ()"
    "validate_webex_url lw ''https://encryption-a.wbx2.com/e/v1'' ''https'' = Inr ()"
  by code_simp+

lemma json_response_simps [simp]:
  "rs_status (json_response E (st, j)) = st" "rs_ok (json_response E (st, j)) = (200 \<le> st \<and> st < 300)"
  "rs_body (json_response E (st, j)) = as_bytes (json_to_string E j)"
  by (simp_all add: json_response_def)

lemma accept_read:
  assumes "serde_reads E" "registers_as url j"
  shows "\<exists>r. accept_registration (with_fetch E f) (as_bytes (json_to_string E j)) = Ok r \<and> dr_device_url r = url"
  using assms
  by (auto simp: registers_as_def serde_reads_def accept_registration_def with_encryption_url_def Let_def test_urls_trusted split: option.splits)

lemma devices_read:
  assumes "serde_reads E" "lists_as urls j"
  obtains vs where "device_list_from_slice E (as_bytes (json_to_string E j)) = Inr vs"
    "list_all own_device (map with_encryption_url (List.map_filter de_registration vs))"
    "map dr_device_url (map with_encryption_url (List.map_filter de_registration vs)) = urls"
proof -
  have w: "own_device (with_encryption_url d) = own_device d" "dr_device_url (with_encryption_url d) = dr_device_url d" for d
    by (simp_all add: own_device_def with_encryption_url_def)
  have "dr_device_url \<circ> with_encryption_url = dr_device_url" by (rule ext) (simp add: w)
  with assms that show thesis
    by (auto simp: lists_as_def serde_reads_def list_all_iff w split: option.splits)
qed

lemma discover_cached: "dv_wdm_devices_url d = Some u \<Longrightarrow> discover_wdm_base E t (d, w) = (Ok u, (d, w))"
  by (simp add: discover_wdm_base_def effect_defs)

lemma list_step:
  assumes "serde_reads E" "lists_as urls j" "dv_wdm_devices_url d = Some u"
    and "f (w_sent w) (get_request ''tok'' u) = Inr (json_response E (200, j))"
  shows "\<exists>ds. list_devices (with_fetch E f) ''tok'' (d, w) = (Ok ds, (d, after w (get_request ''tok'' u))) \<and>
    list_all own_device ds \<and> map dr_device_url ds = urls"
proof -
  from devices_read [OF assms(1,2)] obtain vs where "device_list_from_slice E (as_bytes (json_to_string E j)) = Inr vs"
    "list_all own_device (map with_encryption_url (List.map_filter de_registration vs))"
    "map dr_device_url (map with_encryption_url (List.map_filter de_registration vs)) = urls" by blast
  with assms(4) show ?thesis
    by (simp add: list_devices_def bindM_def discover_cached [OF assms(3)] mapErrM_def fetchM_def liftM_def returnM_def)
qed

lemma body_request_fetch [simp]: "body_request (with_fetch E f) m t v = body_request E m t v"
  by (simp add: body_request_def)

lemma create_step:
  assumes "serde_reads E" "registers_as url j" "dv_wdm_devices_url d = Some u"
    and "f (w_sent w) (post_request E u) = Inr (json_response E (200, j))"
  shows "\<exists>r. create_device (with_fetch E f) ''tok'' (d, w) = (Ok r, (d\<lparr>dv_device_url := Some url\<rparr>, after w (post_request E u))) \<and>
    dr_device_url r = url"
proof -
  from accept_read [OF assms(1,2)] obtain r where r: "accept_registration (with_fetch E f) (as_bytes (json_to_string E j)) = Ok r" "dr_device_url r = url" by blast
  from assms(4) r show ?thesis
    by (simp add: create_device_def bindM_def discover_cached [OF assms(3)] mapErrM_def fetchM_def liftM_def returnM_def updateM_def modifyM_def)
qed

lemma discover_fetched:
  assumes "dv_wdm_devices_url d = None" "f (w_sent w) (get_request t U2C_CATALOG_URL) = Inr resp" "wdm_of_response (with_fetch E f) resp = u"
  shows "discover_wdm_base (with_fetch E f) t (d, w) = (Ok u, (set_wdm_devices_url u d, after w (get_request t U2C_CATALOG_URL)))"
  using assms by (simp add: discover_wdm_base_def effect_defs)

lemma discover_first:
  assumes "dv_wdm_devices_url d = None" "f (w_sent w) (get_request ''tok'' U2C_CATALOG_URL) = Inr resp" "wdm_of_response (with_fetch E f) resp = u"
  shows "list_devices (with_fetch E f) ''tok'' (d, w) =
    list_devices (with_fetch E f) ''tok'' (set_wdm_devices_url u d, after w (get_request ''tok'' U2C_CATALOG_URL))"
proof -
  have c: "dv_wdm_devices_url (set_wdm_devices_url u d) = Some u" by (simp add: set_wdm_devices_url_def)
  show ?thesis
    unfolding list_devices_def bindM_def discover_fetched [where f = f and t = "''tok''", OF assms] discover_cached [OF c] by simp
qed

lemma register_creates:
  assumes "list_devices E t s = (Ok [], s1) \<or> list_devices E t s = (Err e, s1)"
  shows "register E t s = create_or_reap E t s1"
  using assms by (auto simp: register_def find_reusable_device_def bindM_def matchM_def returnM_def)

lemma calls_of: "call_of (get_request t v) = \<lparr>cl_method = ''GET'', cl_url = v\<rparr>" "call_of (delete_request t v) = \<lparr>cl_method = ''DELETE'', cl_url = v\<rparr>"
    "call_of (body_request E m t v) = \<lparr>cl_method = m, cl_url = v\<rparr>"
  by (simp_all add: call_of_def get_request_def delete_request_def body_request_def)

lemma run_discovery:
  assumes E: "serde_reads E" and reg: "registers_as url j"
    and u: "wdm_of_response (with_fetch E (mock_fetch_by_url E routes)) (json_response E cat) = u"
    and a1: "route_answer routes [] \<lparr>cl_method = ''GET'', cl_url = U2C_CATALOG_URL\<rparr> = Some cat"
    and a2: "route_answer routes [\<lparr>cl_method = ''GET'', cl_url = U2C_CATALOG_URL\<rparr>] \<lparr>cl_method = ''GET'', cl_url = u\<rparr> = Some (200, empty_json)"
    and a3: "route_answer routes [\<lparr>cl_method = ''GET'', cl_url = U2C_CATALOG_URL\<rparr>, \<lparr>cl_method = ''GET'', cl_url = u\<rparr>]
      \<lparr>cl_method = ''POST'', cl_url = u @ ''?includeUpstreamServices=all''\<rparr> = Some (200, j)"
  shows "\<exists>r. run_register E (mock_fetch_by_url E routes) device_manager_new =
    Some (r, [\<lparr>cl_method = ''GET'', cl_url = U2C_CATALOG_URL\<rparr>, \<lparr>cl_method = ''GET'', cl_url = u\<rparr>,
      \<lparr>cl_method = ''POST'', cl_url = u @ ''?includeUpstreamServices=all''\<rparr>]) \<and> dr_device_url r = url"
proof -
  let ?f = "mock_fetch_by_url E routes" and ?d = "set_wdm_devices_url u device_manager_new"
  let ?w1 = "after world_init (get_request ''tok'' U2C_CATALOG_URL)"
  let ?w2 = "after ?w1 (get_request ''tok'' u)"
  have f: "?f (w_sent world_init) (get_request ''tok'' U2C_CATALOG_URL) = Inr (json_response E cat)"
    "?f (w_sent ?w1) (get_request ''tok'' u) = Inr (json_response E (200, empty_json))"
    "?f (w_sent ?w2) (post_request E u) = Inr (json_response E (200, j))"
    by (simp_all add: mock_fetch_by_url_def calls_of a1 a2 a3 world_init_def)
  have d: "dv_wdm_devices_url ?d = Some u" "dv_wdm_devices_url device_manager_new = None"
    by (simp_all add: set_wdm_devices_url_def device_manager_new_def)
  from discover_first [where f = ?f, OF d(2) f(1) u] list_step [where f = ?f, OF E documents_read(3) d(1) f(2)]
  have "list_devices (with_fetch E ?f) ''tok'' (device_manager_new, world_init) = (Ok [], (?d, ?w2))" by auto
  then have "register (with_fetch E ?f) ''tok'' (device_manager_new, world_init) = create_or_reap (with_fetch E ?f) ''tok'' (?d, ?w2)"
    by (rule register_creates [OF disjI1])
  with create_step [where f = ?f, OF E reg d(1) f(3)] calls_of show ?thesis
    by (auto simp: run_register_def create_or_reap_def matchM_def returnM_def world_init_def)
qed

lemma catalogs_read:
  assumes "serde_reads E"
  shows "wdm_of_response (with_fetch E f) (json_response E (200, u2c_json ''https://wdm-r.wbx2.com/wdm/api/v1'')) = ''https://wdm-r.wbx2.com/wdm/api/v1/devices''"
    "wdm_of_response (with_fetch E f) (json_response E (500, json_obj [])) = WDM_API_BASE"
    "wdm_of_response (with_fetch E f) (json_response E (200, json_obj [(''serviceLinks'', json_obj [])])) = WDM_API_BASE"
    "wdm_of_response (with_fetch E f) (json_response E (200, u2c_json ''https://evil.example.com/wdm/api/v1'')) = WDM_API_BASE"
proof -
  have rt: "json_from_slice E (as_bytes (json_to_string E j)) = Inr j" if "json_wf j" for j
    using assms that by (simp add: serde_reads_def json_roundtrip_def)
  have link: "Option.bind (json_get ''serviceLinks'' (u2c_json ''https://wdm-r.wbx2.com/wdm/api/v1'')) (get_str ''wdm'') = Some ''https://wdm-r.wbx2.com/wdm/api/v1''"
    "Option.bind (json_get ''serviceLinks'' (u2c_json ''https://evil.example.com/wdm/api/v1'')) (get_str ''wdm'') = Some ''https://evil.example.com/wdm/api/v1''"
    "Option.bind (json_get ''serviceLinks'' (json_obj [(''serviceLinks'', json_obj [])])) (get_str ''wdm'') = None"
    "trim_end_matches (CHR ''/'') ''https://wdm-r.wbx2.com/wdm/api/v1'' = ''https://wdm-r.wbx2.com/wdm/api/v1''"
    by code_simp+
  have trusted: "validate_webex_url lw ''https://wdm-r.wbx2.com/wdm/api/v1'' ''https'' = Inr ()"
    "isl (validate_webex_url lw ''https://evil.example.com/wdm/api/v1'' ''https'')" for lw by code_simp+
  have evil: "validate_webex_url lw ''https://evil.example.com/wdm/api/v1'' ''https'' \<noteq> Inr ()" for lw
    using trusted(2) [of lw] by (metis sum.disc(2))
  show "wdm_of_response (with_fetch E f) (json_response E (200, u2c_json ''https://wdm-r.wbx2.com/wdm/api/v1'')) = ''https://wdm-r.wbx2.com/wdm/api/v1/devices''"
    by (simp add: wdm_of_response_def rt [OF catalogs_wf(1)] link(1,4) trusted(1))
  show "wdm_of_response (with_fetch E f) (json_response E (500, json_obj [])) = WDM_API_BASE"
    by (simp add: wdm_of_response_def)
  show "wdm_of_response (with_fetch E f) (json_response E (200, json_obj [(''serviceLinks'', json_obj [])])) = WDM_API_BASE"
    by (simp add: wdm_of_response_def rt [OF catalogs_wf(3)] link(3))
  show "wdm_of_response (with_fetch E f) (json_response E (200, u2c_json ''https://evil.example.com/wdm/api/v1'')) = WDM_API_BASE"
    by (simp add: wdm_of_response_def rt [OF catalogs_wf(2)] link(2) evil)
qed

text \<open>The remaining operations against an answer: a list that is refused, a refused creation, a refresh, a deletion.\<close>

lemma list_refused:
  assumes "dv_wdm_devices_url d = Some u" "f (w_sent w) (get_request ''tok'' u) = Inr (json_response E (500, j))"
  shows "\<exists>e. list_devices (with_fetch E f) ''tok'' (d, w) = (Err e, (d, after w (get_request ''tok'' u)))"
  using assms(2) by (simp add: list_devices_def bindM_def discover_cached [OF assms(1)] mapErrM_def fetchM_def throwM_def)

lemma create_refused:
  assumes "dv_wdm_devices_url d = Some u" "f (w_sent w) (post_request E u) = Inr (json_response E (403, j))"
  shows "\<exists>e. create_device (with_fetch E f) ''tok'' (d, w) = (Err e, (d, after w (post_request E u))) \<and> too_many_devices e"
  using assms(2) by (simp add: create_device_def bindM_def discover_cached [OF assms(1)] mapErrM_def fetchM_def throwM_def device_registration_def)

lemma refresh_step:
  assumes "serde_reads E" "registers_as url j" "dv_device_url d = Some u"
    and "f (w_sent w) (body_request E ''PUT'' ''tok'' u) = Inr (json_response E (200, j))"
  shows "\<exists>r. refresh (with_fetch E f) ''tok'' (d, w) = (Ok r, (d, after w (body_request E ''PUT'' ''tok'' u))) \<and> dr_device_url r = url"
proof -
  from accept_read [OF assms(1,2)] obtain r where "accept_registration (with_fetch E f) (as_bytes (json_to_string E j)) = Ok r" "dr_device_url r = url" by blast
  with assms(3,4) show ?thesis by (simp add: refresh_def effect_defs)
qed

lemma delete_step:
  assumes "f (w_sent w) (delete_request ''tok'' u) = Inr (json_response E (204, j))"
  shows "delete_device (with_fetch E f) u ''tok'' (d, w) = (Ok True, (d, after w (delete_request ''tok'' u)))"
  using assms by (simp add: delete_device_def effect_defs)

abbreviation known_region :: device_manager where
  "known_region \<equiv> set_wdm_devices_url WDM_API_BASE device_manager_new"

lemma known_region: "dv_wdm_devices_url known_region = Some WDM_API_BASE"
  by (simp add: set_wdm_devices_url_def)

abbreviation GET_call :: "string \<Rightarrow> mock_call" where
  "GET_call u \<equiv> \<lparr>cl_method = ''GET'', cl_url = u\<rparr>"

abbreviation POST_call :: mock_call where
  "POST_call \<equiv> \<lparr>cl_method = ''POST'', cl_url = WDM_API_BASE @ ''?includeUpstreamServices=all''\<rparr>"

lemma reuse_passes:
  assumes "serde_reads E"
  shows "reuses_existing_device_via_refresh_not_create E"
proof -
  let ?f = "mock_fetch E reuse_responses"
  let ?w1 = "after world_init (get_request ''tok'' WDM_API_BASE)"
  let ?d = "known_region\<lparr>dv_device_url := Some DEVICE_URL\<rparr>"
  have m: "mock_answer reuse_responses [] (GET_call WDM_API_BASE) = (200, listed_json)"
    "mock_answer reuse_responses [GET_call WDM_API_BASE] \<lparr>cl_method = ''PUT'', cl_url = DEVICE_URL\<rparr> = (200, device_json)"
    by code_simp+
  have f: "?f (w_sent world_init) (get_request ''tok'' WDM_API_BASE) = Inr (json_response E (200, listed_json))"
    "?f (w_sent ?w1) (body_request E ''PUT'' ''tok'' DEVICE_URL) = Inr (json_response E (200, device_json))"
    by (simp_all only: mock_fetch_def calls_of m world_init_def world.simps list.map append_Nil)
  from list_step [where f = ?f, OF assms documents_read(4) known_region f(1)] obtain v
    where "list_devices (with_fetch E ?f) ''tok'' (known_region, world_init) = (Ok [v], (known_region, ?w1))" "own_device v" "dr_device_url v = DEVICE_URL"
    by (auto simp: map_eq_Cons_conv)
  moreover have "dv_device_url ?d = Some DEVICE_URL" by simp
  from refresh_step [where f = ?f, OF assms documents_read(1) this f(2)] obtain r
    where "refresh (with_fetch E ?f) ''tok'' (?d, ?w1) = (Ok r, (?d, after ?w1 (body_request E ''PUT'' ''tok'' DEVICE_URL)))" "dr_device_url r = DEVICE_URL" by blast
  ultimately have "run_register E ?f known_region = Some (r, [GET_call WDM_API_BASE, \<lparr>cl_method = ''PUT'', cl_url = DEVICE_URL\<rparr>])"
    by (simp add: run_register_def register_def find_reusable_device_def effect_defs calls_of world_init_def)
  with \<open>dr_device_url r = DEVICE_URL\<close> show ?thesis by (simp add: reuses_existing_device_via_refresh_not_create_def)
qed

lemma list_failure_passes:
  assumes "serde_reads E"
  shows "falls_back_to_create_when_list_fails E"
proof -
  let ?rs = "[(''GET'', 500, json_obj []), (''POST'', 200, device_json)]"
  let ?f = "mock_fetch E ?rs" and ?w1 = "after world_init (get_request ''tok'' WDM_API_BASE)"
  have m: "mock_answer ?rs [] (GET_call WDM_API_BASE) = (500, json_obj [])" "mock_answer ?rs [GET_call WDM_API_BASE] POST_call = (200, device_json)"
    by code_simp+
  have f: "?f (w_sent world_init) (get_request ''tok'' WDM_API_BASE) = Inr (json_response E (500, json_obj []))"
    "?f (w_sent ?w1) (post_request E WDM_API_BASE) = Inr (json_response E (200, device_json))"
    by (simp_all only: mock_fetch_def calls_of m world_init_def world.simps list.map append_Nil)
  from list_refused [where f = ?f, OF known_region f(1)] obtain e
    where "list_devices (with_fetch E ?f) ''tok'' (known_region, world_init) = (Err e, (known_region, ?w1))" by blast
  note r = register_creates [OF disjI2, OF this]
  from create_step [where f = ?f, OF assms documents_read(1) known_region f(2)] r show ?thesis
    by (auto simp: falls_back_to_create_when_list_fails_def run_register_def create_or_reap_def matchM_def returnM_def calls_of world_init_def)
qed

text \<open>The five requests of the reaping test and their answers.\<close>

lemma reap_answers:
  "mock_answer reap_responses [] (GET_call WDM_API_BASE) = (200, empty_json)"
  "mock_answer reap_responses [GET_call WDM_API_BASE] POST_call = (403, json_obj [])"
  "mock_answer reap_responses [GET_call WDM_API_BASE, POST_call] (GET_call WDM_API_BASE) = (200, ours_json)"
  "mock_answer reap_responses [GET_call WDM_API_BASE, POST_call, GET_call WDM_API_BASE] \<lparr>cl_method = ''DELETE'', cl_url = DEVICE_URL\<rparr> = (204, json_obj [])"
  "mock_answer reap_responses [GET_call WDM_API_BASE, POST_call, GET_call WDM_API_BASE, \<lparr>cl_method = ''DELETE'', cl_url = DEVICE_URL\<rparr>] POST_call = (200, device_json)"
  by code_simp+

lemma reap_passes:
  assumes "serde_reads E"
  shows "reaps_and_retries_on_excessive_registrations_403 E"
proof -
  let ?f = "mock_fetch E reap_responses" and ?get = "get_request ''tok'' WDM_API_BASE" and ?post = "post_request E WDM_API_BASE"
  let ?w1 = "after world_init ?get"
  let ?w2 = "after ?w1 ?post"
  let ?w3 = "after ?w2 ?get"
  let ?w4 = "after ?w3 (delete_request ''tok'' DEVICE_URL)"
  have f: "?f (w_sent world_init) ?get = Inr (json_response E (200, empty_json))" "?f (w_sent ?w1) ?post = Inr (json_response E (403, json_obj []))"
    "?f (w_sent ?w2) ?get = Inr (json_response E (200, ours_json))"
    "?f (w_sent ?w3) (delete_request ''tok'' DEVICE_URL) = Inr (json_response E (204, json_obj []))"
    "?f (w_sent ?w4) ?post = Inr (json_response E (200, device_json))"
    by (simp_all only: mock_fetch_def calls_of reap_answers world_init_def world.simps list.map append_Nil append_Cons)
  have "list_devices (with_fetch E ?f) ''tok'' (known_region, world_init) = (Ok [], (known_region, ?w1))"
    using list_step [where f = ?f, OF assms documents_read(3) known_region f(1)] by auto
  note reg = register_creates [OF disjI1, OF this]
  from create_refused [where f = ?f, OF known_region f(2)] obtain e
    where e: "create_device (with_fetch E ?f) ''tok'' (known_region, ?w1) = (Err e, (known_region, ?w2))" "too_many_devices e" by blast
  from list_step [where f = ?f, OF assms documents_read(5) known_region f(3)] obtain v
    where v: "list_devices (with_fetch E ?f) ''tok'' (known_region, ?w2) = (Ok [v], (known_region, ?w3))" "own_device v" "dr_device_url v = DEVICE_URL"
    by (auto simp: map_eq_Cons_conv)
  have "reap_own_devices (with_fetch E ?f) ''tok'' (known_region, ?w2) = (Ok (), (known_region, ?w4))"
    using v delete_step [where f = ?f, OF f(4)] by (simp add: reap_own_devices_def matchM_def returnM_def)
  with e create_step [where f = ?f, OF assms documents_read(1) known_region f(5)] reg
  have "\<exists>r. register (with_fetch E ?f) ''tok'' (known_region, world_init) = (Ok r, (known_region\<lparr>dv_device_url := Some DEVICE_URL\<rparr>, after ?w4 ?post)) \<and>
      dr_device_url r = DEVICE_URL"
    by (auto simp: create_or_reap_def matchM_def bindM_def)
  moreover have "str_contains ''includeUpstreamServices=all'' (WDM_API_BASE @ ''?includeUpstreamServices=all'')" by code_simp
  ultimately show ?thesis
    by (auto simp: reaps_and_retries_on_excessive_registrations_403_def run_register_def calls_of world_init_def)
qed

lemma discovery_tests_pass:
  assumes "serde_reads E"
  shows "discovers_region_correct_wdm_endpoint_from_u2c E" "caches_discovered_wdm_endpoint E"
    "falls_back_to_wdm_a_when_u2c_returns_non_2xx E" "falls_back_to_wdm_a_when_u2c_has_no_wdm_link E"
    "rejects_untrusted_wdm_host_from_u2c_and_falls_back E"
proof -
  have "\<exists>r. run_register E (mock_fetch_by_url E regional_routes) device_manager_new =
    Some (r, [GET_call U2C_CATALOG_URL, GET_call ''https://wdm-r.wbx2.com/wdm/api/v1/devices'',
      \<lparr>cl_method = ''POST'', cl_url = ''https://wdm-r.wbx2.com/wdm/api/v1/devices'' @ ''?includeUpstreamServices=all''\<rparr>]) \<and>
    dr_device_url r = ''https://wdm-r.wbx2.com/wdm/api/v1/devices/test-123''"
    by (rule run_discovery [OF assms documents_read(2) catalogs_read(1) [OF assms]]) code_simp+
  moreover have "posted_to ''wdm-r.wbx2.com'' [GET_call U2C_CATALOG_URL, GET_call ''https://wdm-r.wbx2.com/wdm/api/v1/devices'',
      \<lparr>cl_method = ''POST'', cl_url = ''https://wdm-r.wbx2.com/wdm/api/v1/devices'' @ ''?includeUpstreamServices=all''\<rparr>]"
    "length (filter (\<lambda>c. str_contains ''u2c.wbx2.com'' (cl_url c)) [GET_call U2C_CATALOG_URL, GET_call ''https://wdm-r.wbx2.com/wdm/api/v1/devices'',
      \<lparr>cl_method = ''POST'', cl_url = ''https://wdm-r.wbx2.com/wdm/api/v1/devices'' @ ''?includeUpstreamServices=all''\<rparr>]) = 1"
    by code_simp+
  ultimately show "discovers_region_correct_wdm_endpoint_from_u2c E" "caches_discovered_wdm_endpoint E"
    unfolding discovers_region_correct_wdm_endpoint_from_u2c_def caches_discovered_wdm_endpoint_def by force+
  have p: "posted_to ''wdm-a.wbx2.com'' [GET_call U2C_CATALOG_URL, GET_call WDM_API_BASE, POST_call]" by code_simp
  have "\<exists>r. run_register E (mock_fetch_by_url E (fallback_routes 500 (json_obj []))) device_manager_new =
    Some (r, [GET_call U2C_CATALOG_URL, GET_call WDM_API_BASE, POST_call]) \<and> dr_device_url r = DEVICE_URL"
    by (rule run_discovery [OF assms documents_read(1) catalogs_read(2) [OF assms]]) code_simp+
  with p show "falls_back_to_wdm_a_when_u2c_returns_non_2xx E" unfolding falls_back_to_wdm_a_when_u2c_returns_non_2xx_def by force
  have "\<exists>r. run_register E (mock_fetch_by_url E (fallback_routes 200 (json_obj [(''serviceLinks'', json_obj [])]))) device_manager_new =
    Some (r, [GET_call U2C_CATALOG_URL, GET_call WDM_API_BASE, POST_call]) \<and> dr_device_url r = DEVICE_URL"
    by (rule run_discovery [OF assms documents_read(1) catalogs_read(3) [OF assms]]) code_simp+
  with p show "falls_back_to_wdm_a_when_u2c_has_no_wdm_link E" unfolding falls_back_to_wdm_a_when_u2c_has_no_wdm_link_def by force
  have "\<exists>r. run_register E (mock_fetch_by_url E (fallback_routes 200 (u2c_json ''https://evil.example.com/wdm/api/v1''))) device_manager_new =
    Some (r, [GET_call U2C_CATALOG_URL, GET_call WDM_API_BASE, POST_call]) \<and> dr_device_url r = DEVICE_URL"
    by (rule run_discovery [OF assms documents_read(1) catalogs_read(4) [OF assms]]) code_simp+
  with p show "rejects_untrusted_wdm_host_from_u2c_and_falls_back E" unfolding rejects_untrusted_wdm_host_from_u2c_and_falls_back_def by force
qed


lemma sample_serde_reads: "serde_reads sample_env"
  using sample_laws(4) by (simp add: serde_reads_def) (simp add: sample_env_def json_parse_put)


end
